(* ===== verification/Prelude.thy ===== *)
theory Prelude
  imports Main "HOL-Library.Code_Target_Nat"
begin

text \<open>
  Shared vocabulary of the development.

  \<^item> Effectful code is a function from a world to a result and the new world; a result is
    \<open>Inl e\<close> for a raised exception and \<open>Inr x\<close> for a returned value. The combinators
    \<open>return_io\<close>, \<open>raise_io\<close>, \<open>bind_io\<close> and \<open>try_io\<close> are Python's \<open>return\<close>, \<open>raise\<close>,
    sequencing and \<open>try\<close>/\<open>except\<close>.
  \<^item> \<open>py_str\<close> and \<open>py_int\<close> are \<open>str\<close> on integers and \<open>int\<close> on ASCII strings.
  \<^item> \<open>update_where\<close> is the row-wise effect of an SQL \<open>UPDATE\<close>; the locale \<open>keyed_update\<close>
    collects what an update that keeps the primary key guarantees.
  \<^item> \<open>result_one\<close>, \<open>result_one_or_none\<close> and \<open>result_first\<close> read a query result.
\<close>

named_theorems io_defs \<open>definitions of the effect combinators\<close>
named_theorems keeps_intro \<open>invariants through the effect combinators\<close>
named_theorems row_simps \<open>facts about rows and tables\<close>

subsection \<open>Effects: exceptions over a state\<close>

definition return_io :: "'a \<Rightarrow> 'w \<Rightarrow> ('e + 'a) \<times> 'w" where
  "return_io x w = (Inr x, w)"

definition raise_io :: "'e \<Rightarrow> 'w \<Rightarrow> ('e + 'a) \<times> 'w" where
  "raise_io e w = (Inl e, w)"

definition bind_io :: "('w \<Rightarrow> ('e + 'a) \<times> 'w) \<Rightarrow> ('a \<Rightarrow> 'w \<Rightarrow> ('e + 'b) \<times> 'w)
    \<Rightarrow> 'w \<Rightarrow> ('e + 'b) \<times> 'w" where
  "bind_io m f w = (case m w of (Inl e, w') \<Rightarrow> (Inl e, w') | (Inr x, w') \<Rightarrow> f x w')"

definition try_io :: "('w \<Rightarrow> ('e + 'a) \<times> 'w) \<Rightarrow> ('e \<Rightarrow> 'w \<Rightarrow> ('e + 'a) \<times> 'w)
    \<Rightarrow> 'w \<Rightarrow> ('e + 'a) \<times> 'w" where
  "try_io m h w = (case m w of (Inl e, w') \<Rightarrow> h e w' | (Inr x, w') \<Rightarrow> (Inr x, w'))"

text \<open>\<open>try: ... except ...: ... else: ...\<close>, where only \<open>m\<close> is guarded.\<close>

definition try_else_io :: "('w \<Rightarrow> ('e + 'a) \<times> 'w) \<Rightarrow> ('e \<Rightarrow> 'w \<Rightarrow> ('e + 'b) \<times> 'w)
    \<Rightarrow> ('a \<Rightarrow> 'w \<Rightarrow> ('e + 'b) \<times> 'w) \<Rightarrow> 'w \<Rightarrow> ('e + 'b) \<times> 'w" where
  "try_else_io m h f w = (case m w of (Inl e, w') \<Rightarrow> h e w' | (Inr x, w') \<Rightarrow> f x w')"

definition get_io :: "('w \<Rightarrow> 'a) \<Rightarrow> 'w \<Rightarrow> ('e + 'a) \<times> 'w" where
  "get_io f w = (Inr (f w), w)"

definition modify_io :: "('w \<Rightarrow> 'w) \<Rightarrow> 'w \<Rightarrow> ('e + unit) \<times> 'w" where
  "modify_io f w = (Inr (), f w)"

definition lift_io :: "'e + 'a \<Rightarrow> 'w \<Rightarrow> ('e + 'a) \<times> 'w" where
  "lift_io r w = (r, w)"

lemmas io_combinators [io_defs] =
  return_io_def raise_io_def bind_io_def try_io_def try_else_io_def get_io_def modify_io_def
  lift_io_def

lemma bind_return [simp]: "bind_io (return_io x) f = f x"
  by (simp add: fun_eq_iff io_defs)

lemma bind_raise [simp]: "bind_io (raise_io e) f = raise_io e"
  by (simp add: fun_eq_iff io_defs)

lemma try_raise [simp]: "try_io (raise_io e) h = h e"
  by (simp add: fun_eq_iff io_defs)

lemma try_return [simp]: "try_io (return_io x) h = return_io x"
  by (simp add: fun_eq_iff io_defs)

lemma bind_io_Inr: "m w = (Inr x, w') \<Longrightarrow> bind_io m f w = f x w'"
  by (simp add: bind_io_def)

lemma bind_io_Inl: "m w = (Inl e, w') \<Longrightarrow> bind_io m f w = (Inl e, w')"
  by (simp add: bind_io_def)

lemma bind_io_returnsE:
  assumes "bind_io m f w = (Inr y, w'')"
  obtains x w' where "m w = (Inr x, w')" and "f x w' = (Inr y, w'')"
  using assms by (auto simp: bind_io_def split: prod.splits sum.splits)

text \<open>
  The invariant rule of the effect combinators: if every part keeps \<open>I\<close>, so does the whole.
\<close>

definition keeps :: "('w \<Rightarrow> bool) \<Rightarrow> ('w \<Rightarrow> ('e + 'a) \<times> 'w) \<Rightarrow> bool" where
  "keeps I m \<longleftrightarrow> (\<forall>w. I w \<longrightarrow> I (snd (m w)))"

lemma keepsI: "(\<And>w. I w \<Longrightarrow> I (snd (m w))) \<Longrightarrow> keeps I m"
  by (simp add: keeps_def)

lemma keepsD: "keeps I m \<Longrightarrow> I w \<Longrightarrow> I (snd (m w))"
  by (simp add: keeps_def)

lemma keeps_return [keeps_intro]: "keeps I (return_io x)"
  by (simp add: keeps_def io_defs)

lemma keeps_raise [keeps_intro]: "keeps I (raise_io e)"
  by (simp add: keeps_def io_defs)

lemma keeps_lift [keeps_intro]: "keeps I (lift_io r)"
  by (simp add: keeps_def io_defs)

lemma keeps_get [keeps_intro]: "keeps I (get_io f)"
  by (simp add: keeps_def io_defs)

lemma keeps_bind [keeps_intro]: "keeps I m \<Longrightarrow> (\<And>x. keeps I (f x)) \<Longrightarrow> keeps I (bind_io m f)"
  by (fastforce simp: keeps_def bind_io_def split: prod.splits sum.splits)

lemma keeps_try [keeps_intro]: "keeps I m \<Longrightarrow> (\<And>e. keeps I (h e)) \<Longrightarrow> keeps I (try_io m h)"
  by (fastforce simp: keeps_def try_io_def split: prod.splits sum.splits)

lemma keeps_try_else [keeps_intro]:
  "keeps I m \<Longrightarrow> (\<And>e. keeps I (h e)) \<Longrightarrow> (\<And>x. keeps I (f x)) \<Longrightarrow> keeps I (try_else_io m h f)"
  by (fastforce simp: keeps_def try_else_io_def split: prod.splits sum.splits)

lemma keeps_if [keeps_intro]: "(c \<Longrightarrow> keeps I a) \<Longrightarrow> (\<not> c \<Longrightarrow> keeps I b) \<Longrightarrow> keeps I (if c then a else b)"
  by simp

lemma keeps_case_option [keeps_intro]:
  "(x = None \<Longrightarrow> keeps I a) \<Longrightarrow> (\<And>y. x = Some y \<Longrightarrow> keeps I (f y)) \<Longrightarrow>
   keeps I (case x of None \<Rightarrow> a | Some y \<Rightarrow> f y)"
  by (cases x) auto

lemma keeps_case_prod [keeps_intro]:
  "(\<And>a b. x = (a, b) \<Longrightarrow> keeps I (f a b)) \<Longrightarrow> keeps I (case x of (a, b) \<Rightarrow> f a b)"
  by (cases x) auto

text \<open>
  Triples, for the places where an invariant needs an intermediate assertion: from \<open>P\<close>, a
  returned value satisfies \<open>Q\<close> and a raised exception \<open>E\<close>.
\<close>

definition triple :: "('w \<Rightarrow> bool) \<Rightarrow> ('w \<Rightarrow> ('e + 'a) \<times> 'w) \<Rightarrow> ('a \<Rightarrow> 'w \<Rightarrow> bool)
    \<Rightarrow> ('e \<Rightarrow> 'w \<Rightarrow> bool) \<Rightarrow> bool" where
  "triple P m Q E \<longleftrightarrow> (\<forall>w. P w \<longrightarrow> (case m w of (Inl e, w') \<Rightarrow> E e w' | (Inr x, w') \<Rightarrow> Q x w'))"

lemma keeps_triple: "keeps I m \<longleftrightarrow> triple I m (\<lambda>_. I) (\<lambda>_. I)"
  by (auto simp: keeps_def triple_def case_prod_unfold split: sum.splits)

lemma triple_bind:
  "triple P m M E \<Longrightarrow> (\<And>x. triple (M x) (f x) Q E) \<Longrightarrow> triple P (bind_io m f) Q E"
  by (fastforce simp: triple_def bind_io_def split: prod.splits sum.splits)

lemma triple_try:
  "triple P m Q M \<Longrightarrow> (\<And>e. triple (M e) (h e) Q E) \<Longrightarrow> triple P (try_io m h) Q E"
  by (fastforce simp: triple_def try_io_def split: prod.splits sum.splits)

lemma triple_return: "(\<And>w. P w \<Longrightarrow> Q x w) \<Longrightarrow> triple P (return_io x) Q E"
  by (simp add: triple_def return_io_def)

lemma triple_raise: "(\<And>w. P w \<Longrightarrow> E e w) \<Longrightarrow> triple P (raise_io e) Q E"
  by (simp add: triple_def raise_io_def)

lemma triple_weaken_keeps:
  "keeps I m \<Longrightarrow> (\<And>w. P w \<Longrightarrow> I w) \<Longrightarrow> triple P m (\<lambda>_. I) (\<lambda>_. I)"
  by (fastforce simp: keeps_def triple_def split: prod.splits sum.splits)

lemmas triple_intro = triple_try triple_bind triple_return triple_raise

subsection \<open>Decimal strings\<close>

definition digit_char :: "nat \<Rightarrow> char" where
  "digit_char d = char_of (48 + d)"

definition char_digit :: "char \<Rightarrow> nat option" where
  "char_digit c = (let n = of_char c :: nat in if 48 \<le> n \<and> n \<le> 57 then Some (n - 48) else None)"

lemma char_digit_digit_char [simp]: "d < 10 \<Longrightarrow> char_digit (digit_char d) = Some d"
  by (simp add: char_digit_def digit_char_def)

fun str_of_nat :: "nat \<Rightarrow> string" where
  "str_of_nat n = (if n < 10 then [digit_char n] else str_of_nat (n div 10) @ [digit_char (n mod 10)])"

declare str_of_nat.simps [simp del]

text \<open>Python's \<open>str(i)\<close> for an integer.\<close>

definition py_str :: "int \<Rightarrow> string" where
  "py_str i = (if i < 0 then CHR ''-'' # str_of_nat (nat (- i)) else str_of_nat (nat i))"

text \<open>
  The digits of \<open>int(s)\<close>: at least one digit was read; a single underscore may stand
  between two digits.
\<close>

fun int_digits :: "nat \<Rightarrow> string \<Rightarrow> nat option" where
  "int_digits acc [] = Some acc"
| "int_digits acc (c # cs) =
     (case char_digit c of
        Some d \<Rightarrow> int_digits (10 * acc + d) cs
      | None \<Rightarrow>
          if c = CHR ''_'' then
            (case cs of
               [] \<Rightarrow> None
             | c' # cs' \<Rightarrow>
                 (case char_digit c' of Some d \<Rightarrow> int_digits (10 * acc + d) cs' | None \<Rightarrow> None))
          else None)"

definition nat_of_str :: "string \<Rightarrow> nat option" where
  "nat_of_str s = (case s of
      [] \<Rightarrow> None
    | c # cs \<Rightarrow> (case char_digit c of Some d \<Rightarrow> int_digits d cs | None \<Rightarrow> None))"

definition is_space :: "char \<Rightarrow> bool" where
  "is_space c = (let n = of_char c :: nat in n = 32 \<or> (9 \<le> n \<and> n \<le> 13) \<or> (28 \<le> n \<and> n \<le> 31))"

definition py_strip :: "string \<Rightarrow> string" where
  "py_strip s = rev (dropWhile is_space (rev (dropWhile is_space s)))"

text \<open>Python's \<open>int(s)\<close>; \<open>None\<close> is \<open>ValueError\<close>.\<close>

definition py_int :: "string \<Rightarrow> int option" where
  "py_int s = (case py_strip s of
      [] \<Rightarrow> None
    | c # cs \<Rightarrow>
        if c = CHR ''-'' then map_option (\<lambda>n. - int n) (nat_of_str cs)
        else if c = CHR ''+'' then map_option int (nat_of_str cs)
        else map_option int (nat_of_str (c # cs)))"

lemma str_of_nat_digits: "\<exists>d ds. str_of_nat n = digit_char d # ds \<and> d < 10"
proof (induction n rule: str_of_nat.induct)
  case (1 n)
  then show ?case
    by (cases "n < 10") (auto simp: str_of_nat.simps [of n])
qed

lemma int_digits_snoc:
  "int_digits acc s = Some m \<Longrightarrow> d < 10 \<Longrightarrow> int_digits acc (s @ [digit_char d]) = Some (10 * m + d)"
proof (induction acc s rule: int_digits.induct)
  case (2 acc c cs)
  show ?case
  proof (cases "char_digit c")
    case (Some k)
    with 2 show ?thesis by simp
  next
    case None
    with "2.prems"(1) have c: "c = CHR ''_''" and "cs \<noteq> []"
      by (auto split: if_splits)
    then obtain c' cs' where cs: "cs = c' # cs'" by (cases cs) auto
    with None c "2.prems"(1) obtain k where "char_digit c' = Some k"
      by (auto split: option.splits)
    with None c cs 2 show ?thesis by simp
  qed
qed simp

lemma nat_of_str_snoc:
  "nat_of_str s = Some m \<Longrightarrow> d < 10 \<Longrightarrow> nat_of_str (s @ [digit_char d]) = Some (10 * m + d)"
  by (cases s) (auto simp: nat_of_str_def int_digits_snoc split: option.splits)

lemma nat_of_str_str_of_nat [simp]: "nat_of_str (str_of_nat n) = Some n"
proof (induction n rule: str_of_nat.induct)
  case (1 n)
  show ?case
  proof (cases "n < 10")
    case True
    then show ?thesis by (simp add: str_of_nat.simps [of n] nat_of_str_def)
  next
    case False
    with 1 have "nat_of_str (str_of_nat (n div 10)) = Some (n div 10)" by simp
    from nat_of_str_snoc [OF this, of "n mod 10"] False show ?thesis
      by (simp add: str_of_nat.simps [of n])
  qed
qed

lemma is_space_digit [simp]: "d < 10 \<Longrightarrow> \<not> is_space (digit_char d)"
  by (simp add: is_space_def digit_char_def)

lemma str_of_nat_no_space: "c \<in> set (str_of_nat n) \<Longrightarrow> \<not> is_space c"
proof (induction n rule: str_of_nat.induct)
  case (1 n)
  then show ?case
    by (cases "n < 10") (auto simp: str_of_nat.simps [of n])
qed

lemma dropWhile_none: "(\<And>c. c \<in> set s \<Longrightarrow> \<not> P c) \<Longrightarrow> dropWhile P s = s"
  by (cases s) auto

lemma py_strip_no_space: "(\<And>c. c \<in> set s \<Longrightarrow> \<not> is_space c) \<Longrightarrow> py_strip s = s"
  using dropWhile_none [of s is_space] dropWhile_none [of "rev s" is_space]
  by (simp add: py_strip_def)

lemma digit_char_not_sign [simp]:
  "d < 10 \<Longrightarrow> digit_char d \<noteq> CHR ''-''" "d < 10 \<Longrightarrow> digit_char d \<noteq> CHR ''+''"
proof -
  assume d: "d < 10"
  have "char_digit (digit_char d) = Some d" using d by simp
  moreover have "char_digit (CHR ''-'') = None" "char_digit (CHR ''+'') = None"
    by (simp_all add: char_digit_def)
  ultimately show "digit_char d \<noteq> CHR ''-''" "digit_char d \<noteq> CHR ''+''"
    by (metis option.distinct(1))+
qed

text \<open>\<open>int(str(i)) = i\<close>.\<close>

lemma py_int_py_str [simp]: "py_int (py_str i) = Some i"
proof (cases "i < 0")
  case True
  have "is_space (CHR ''-'') = False" by (simp add: is_space_def)
  then have "py_strip (CHR ''-'' # str_of_nat (nat (- i))) = CHR ''-'' # str_of_nat (nat (- i))"
    by (auto intro!: py_strip_no_space dest: str_of_nat_no_space)
  with True show ?thesis by (simp add: py_int_def py_str_def)
next
  case False
  obtain d ds where s: "str_of_nat (nat i) = digit_char d # ds" "d < 10"
    using str_of_nat_digits by blast
  have "py_strip (str_of_nat (nat i)) = str_of_nat (nat i)"
    by (auto intro!: py_strip_no_space dest: str_of_nat_no_space)
  moreover have "nat_of_str (digit_char d # ds) = Some (nat i)"
    using s nat_of_str_str_of_nat [of "nat i"] by simp
  ultimately show ?thesis using False s by (simp add: py_int_def py_str_def)
qed

lemma py_str_inject [simp]: "py_str i = py_str j \<longleftrightarrow> i = j"
  by (metis py_int_py_str option.inject)

lemma py_str_not_Nil [simp]: "py_str i \<noteq> []"
  using str_of_nat_digits [of "nat i"] by (auto simp: py_str_def)

subsection \<open>Query results\<close>

text \<open>
  \<open>scalar_one\<close>, \<open>scalar_one_or_none\<close> and \<open>scalars().first()\<close>: too few and too many rows are
  the two error values handed in by the caller.
\<close>

definition result_one :: "'e \<Rightarrow> 'e \<Rightarrow> 'a list \<Rightarrow> 'e + 'a" where
  "result_one none many xs = (case xs of [] \<Rightarrow> Inl none | [x] \<Rightarrow> Inr x | _ \<Rightarrow> Inl many)"

definition result_one_or_none :: "'e \<Rightarrow> 'a list \<Rightarrow> 'e + 'a option" where
  "result_one_or_none many xs =
     (case xs of [] \<Rightarrow> Inr None | [x] \<Rightarrow> Inr (Some x) | _ \<Rightarrow> Inl many)"

definition result_first :: "'a list \<Rightarrow> 'a option" where
  "result_first xs = (case xs of [] \<Rightarrow> None | x # _ \<Rightarrow> Some x)"

lemma result_one_Inr [simp]: "result_one n m xs = Inr x \<longleftrightarrow> xs = [x]"
  by (auto simp: result_one_def split: list.splits)

lemma result_one_or_none_Some [simp]: "result_one_or_none m xs = Inr (Some x) \<longleftrightarrow> xs = [x]"
  by (auto simp: result_one_or_none_def split: list.splits)

lemma result_one_or_none_None [simp]: "result_one_or_none m xs = Inr None \<longleftrightarrow> xs = []"
  by (auto simp: result_one_or_none_def split: list.splits)

lemma result_one_or_none_Inl: "result_one_or_none m xs = Inl e \<Longrightarrow> e = m \<and> 2 \<le> length xs"
  by (auto simp: result_one_or_none_def split: list.splits)

lemma result_one_Inl:
  "result_one n m xs = Inl e \<Longrightarrow> (e = n \<and> xs = []) \<or> (e = m \<and> 2 \<le> length xs)"
  by (auto simp: result_one_def split: list.splits)

lemma result_first_None [simp]: "result_first xs = None \<longleftrightarrow> xs = []"
  by (auto simp: result_first_def split: list.splits)

lemma result_first_Some: "result_first xs = Some x \<Longrightarrow> x \<in> set xs"
  by (auto simp: result_first_def split: list.splits)

text \<open>A row that a unique index covers is the only one with its key.\<close>

lemma filter_unique:
  assumes "distinct (map f (filter P xs))" and "x \<in> set xs" and "P x"
  shows "filter (\<lambda>y. P y \<and> f y = f x) xs = [x]"
  using assms
proof (induction xs)
  case (Cons y ys)
  show ?case
  proof (cases "y = x")
    case True
    with Cons.prems have "f x \<notin> f ` set (filter P ys)" by simp
    then have "filter (\<lambda>y. P y \<and> f y = f x) ys = []"
      by (auto simp: filter_empty_conv image_iff)
    with True Cons.prems show ?thesis by simp
  next
    case False
    with Cons.prems have "x \<in> set ys" and "distinct (map f (filter P ys))"
      by (auto split: if_splits)
    with Cons.prems False have "\<not> (P y \<and> f y = f x)" by (auto simp: image_iff)
    with Cons \<open>x \<in> set ys\<close> \<open>distinct (map f (filter P ys))\<close> show ?thesis by simp
  qed
qed simp

lemma filter_singleD: "filter P xs = [x] \<Longrightarrow> x \<in> set xs \<and> P x"
  by (drule arg_cong [of _ _ set]) auto

subsection \<open>Updates of a table\<close>

definition update_where :: "('r \<Rightarrow> bool) \<Rightarrow> ('r \<Rightarrow> 'r) \<Rightarrow> 'r list \<Rightarrow> 'r list" where
  "update_where P f rows = map (\<lambda>r. if P r then f r else r) rows"

lemma update_where_Nil [simp]: "update_where P f [] = []"
  by (simp add: update_where_def)

lemma update_where_Cons [simp]:
  "update_where P f (r # rs) = (if P r then f r else r) # update_where P f rs"
  by (simp add: update_where_def)

lemma length_update_where [simp]: "length (update_where P f rows) = length rows"
  by (simp add: update_where_def)

lemma set_update_where [row_simps]:
  "set (update_where P f rows) = {f r |r. r \<in> set rows \<and> P r} \<union> {r. r \<in> set rows \<and> \<not> P r}"
  by (auto simp: update_where_def)

lemma map_update_where:
  "(\<And>r. P r \<Longrightarrow> g (f r) = g r) \<Longrightarrow> map g (update_where P f rows) = map g rows"
  by (simp add: update_where_def)

lemma update_where_none: "(\<And>r. r \<in> set rows \<Longrightarrow> \<not> P r) \<Longrightarrow> update_where P f rows = rows"
  by (induction rows) auto

text \<open>
  The contract of an update that a statement of the program performs: it leaves the
  primary key of a row alone. What follows is what the callers of such a statement rely on.
\<close>

locale keyed_update =
  fixes key :: "'row \<Rightarrow> int" and upd :: "'row \<Rightarrow> 'row"
  assumes key_upd: "key (upd r) = key r"
begin

lemma keys_update: "map key (update_where P upd rows) = map key rows"
  by (simp add: map_update_where key_upd)

lemma distinct_update:
  "distinct (map key rows) \<Longrightarrow> distinct (map key (update_where P upd rows))"
  by (simp add: keys_update)

lemma key_image_update: "key ` set (update_where P upd rows) = key ` set rows"
  using arg_cong [OF keys_update, of set P rows] by simp

lemma find_updated:
  assumes "distinct (map key rows)" and "r \<in> set rows"
  shows "filter (\<lambda>x. key x = key r) (update_where (\<lambda>x. key x = key r) upd rows) = [upd r]"
  using assms
proof (induction rows)
  case (Cons x xs)
  show ?case
  proof (cases "x = r")
    case True
    with Cons.prems have "y \<in> set xs \<Longrightarrow> key y \<noteq> key r" for y
      by (metis distinct.simps(2) image_eqI list.set_map list.simps(9))
    with True show ?thesis by (simp add: key_upd update_where_none filter_empty_conv)
  next
    case False
    with Cons.prems have "key x \<noteq> key r" by auto
    with False Cons show ?thesis by simp
  qed
qed simp

lemma filter_other:
  "(\<And>x. P x \<Longrightarrow> \<not> Q x \<and> \<not> Q (upd x)) \<Longrightarrow> filter Q (update_where P upd rows) = filter Q rows"
  by (induction rows) auto

end

subsection \<open>Evaluation\<close>

text \<open>
  \<open>checked P x\<close> is \<open>P x\<close>. The simplifier evaluates the argument before it unfolds \<open>checked\<close>, so
  that \<open>code_simp\<close> runs \<open>x\<close> once for all the facts that \<open>P\<close> collects.
\<close>

definition checked :: "('a \<Rightarrow> bool) \<Rightarrow> 'a \<Rightarrow> bool" where
  "checked P x = P x"

end
