(* ===== verification/Exceptions.thy ===== *)
theory Exceptions
  imports Prelude
begin

text \<open>
  The exception hierarchy: app/core/exceptions.py, app/modules/order/exceptions.py (with its
  compatibility module execptions.py) and app/modules/users/exceptions.py, together with the
  built-in and library classes the program names in its \<open>except\<close> clauses.

  \<open>bases\<close> is the list of base classes of each \<open>class\<close> statement, \<open>is_subclass\<close> is Python's
  \<open>issubclass\<close>, and \<open>catches c e\<close> says that \<open>except c\<close> catches \<open>e\<close>.
\<close>

datatype (plugins only: code size) exn_class =
    Exception_cls | LookupError | ValueError | KeyError | IndexError | AttributeError | TypeError
  | SQLAlchemyError | IntegrityError | DBAPIError | OperationalError
  | InvalidRequestError | NoResultFound | MultipleResultsFound
  | RedisError | RedisConnectionError | RedisTimeoutError | ResponseError
  | HTTPException
  | InvalidTokenError | DecodeError | InvalidSignatureError | ExpiredSignatureError
  | AppException | DomainException | EntityNotFoundError | EntityAlreadyExistsError
  | DomainValidationError | InfrastructureException | DatabaseError
  | OrderNotFoundError | NoFreeAmountAvailableError | DuplicateUniqueAmountError
  | PaymentIntentNotFoundError | DuplicatePaymentIntentError
  | InvalidSMSDataError | DuplicateSMSTransactionError | DuplicateOutboxEventError
  | OutboxEventNotFoundError | InvalidOutboxPayload | OutBoxEventRedisException
  | WorkerException | IgnoreAndAckMessage | CriticalRejectMessage
  | DuplicatePaymentTransactionError
  | UserAlreadyExistsError | UsernameAlreadyExistsError | UserNotFoundError
  | RefreshTokenAlreadyExistsError | TokenRevocationError

text \<open>app/core/exceptions.py.\<close>

fun core_bases :: "exn_class \<Rightarrow> exn_class list" where
  "core_bases AppException = [Exception_cls]"
| "core_bases DomainException = [AppException]"
| "core_bases EntityNotFoundError = [DomainException]"
| "core_bases EntityAlreadyExistsError = [DomainException]"
| "core_bases DomainValidationError = [DomainException]"
| "core_bases InfrastructureException = [AppException]"
| "core_bases DatabaseError = [InfrastructureException]"
| "core_bases _ = []"

text \<open>app/modules/order/exceptions.py.\<close>

fun order_bases :: "exn_class \<Rightarrow> exn_class list" where
  "order_bases OrderNotFoundError = [EntityNotFoundError]"
| "order_bases NoFreeAmountAvailableError = [DomainException]"
| "order_bases DuplicateUniqueAmountError = [EntityAlreadyExistsError]"
| "order_bases PaymentIntentNotFoundError = [EntityNotFoundError]"
| "order_bases DuplicatePaymentIntentError = [EntityAlreadyExistsError]"
| "order_bases InvalidSMSDataError = [DomainValidationError]"
| "order_bases DuplicateSMSTransactionError = [EntityAlreadyExistsError]"
| "order_bases DuplicateOutboxEventError = [EntityAlreadyExistsError]"
| "order_bases OutboxEventNotFoundError = [EntityNotFoundError, LookupError]"
| "order_bases InvalidOutboxPayload = [DomainValidationError]"
| "order_bases OutBoxEventRedisException = [InfrastructureException]"
| "order_bases WorkerException = [AppException]"
| "order_bases IgnoreAndAckMessage = [WorkerException]"
| "order_bases CriticalRejectMessage = [WorkerException]"
| "order_bases DuplicatePaymentTransactionError = [EntityAlreadyExistsError]"
| "order_bases _ = []"

text \<open>app/modules/users/exceptions.py.\<close>

fun user_bases :: "exn_class \<Rightarrow> exn_class list" where
  "user_bases UserAlreadyExistsError = [EntityAlreadyExistsError]"
| "user_bases UsernameAlreadyExistsError = [EntityAlreadyExistsError]"
| "user_bases UserNotFoundError = [EntityNotFoundError]"
| "user_bases RefreshTokenAlreadyExistsError = [EntityAlreadyExistsError]"
| "user_bases TokenRevocationError = [DomainException]"
| "user_bases _ = []"

text \<open>The documented bases of the built-in and library classes.\<close>

fun library_bases :: "exn_class \<Rightarrow> exn_class list" where
  "library_bases LookupError = [Exception_cls]"
| "library_bases ValueError = [Exception_cls]"
| "library_bases KeyError = [LookupError]"
| "library_bases IndexError = [LookupError]"
| "library_bases AttributeError = [Exception_cls]"
| "library_bases TypeError = [Exception_cls]"
| "library_bases SQLAlchemyError = [Exception_cls]"
| "library_bases IntegrityError = [DBAPIError]"
| "library_bases DBAPIError = [SQLAlchemyError]"
| "library_bases OperationalError = [DBAPIError]"
| "library_bases InvalidRequestError = [SQLAlchemyError]"
| "library_bases NoResultFound = [InvalidRequestError]"
| "library_bases MultipleResultsFound = [InvalidRequestError]"
| "library_bases RedisError = [Exception_cls]"
| "library_bases RedisConnectionError = [RedisError]"
| "library_bases RedisTimeoutError = [RedisError]"
| "library_bases ResponseError = [RedisError]"
| "library_bases HTTPException = [Exception_cls]"
| "library_bases InvalidTokenError = [Exception_cls]"
| "library_bases DecodeError = [InvalidTokenError]"
| "library_bases InvalidSignatureError = [DecodeError]"
| "library_bases ExpiredSignatureError = [InvalidTokenError]"
| "library_bases _ = []"

definition bases :: "exn_class \<Rightarrow> exn_class list" where
  "bases c = core_bases c @ order_bases c @ user_bases c @ library_bases c"

text \<open>The names that the misspelled module app/modules/order/execptions.py passes on.\<close>

definition execptions_all :: "exn_class list" where
  "execptions_all =
    [WorkerException, IgnoreAndAckMessage, CriticalRejectMessage, OutBoxEventRedisException,
     InvalidOutboxPayload, OrderNotFoundError, NoFreeAmountAvailableError, DuplicateUniqueAmountError,
     PaymentIntentNotFoundError, DuplicatePaymentIntentError, InvalidSMSDataError,
     DuplicateSMSTransactionError, DuplicateOutboxEventError, OutboxEventNotFoundError]"

text \<open>The depth of a class in the hierarchy: the termination measure of \<open>is_subclass\<close>.\<close>

fun exn_depth :: "exn_class \<Rightarrow> nat" where
  "exn_depth Exception_cls = 0"
| "exn_depth AppException = 1"
| "exn_depth DomainException = 2"
| "exn_depth InfrastructureException = 2"
| "exn_depth WorkerException = 2"
| "exn_depth EntityNotFoundError = 3"
| "exn_depth EntityAlreadyExistsError = 3"
| "exn_depth DomainValidationError = 3"
| "exn_depth LookupError = 1"
| "exn_depth SQLAlchemyError = 1"
| "exn_depth DBAPIError = 2"
| "exn_depth InvalidRequestError = 2"
| "exn_depth RedisError = 1"
| "exn_depth InvalidTokenError = 1"
| "exn_depth DecodeError = 2"
| "exn_depth _ = 4"

lemma bases_depth: "b \<in> set (bases c) \<Longrightarrow> exn_depth b < exn_depth c"
  by (cases c) (auto simp: bases_def)

function is_subclass :: "exn_class \<Rightarrow> exn_class \<Rightarrow> bool" where
  "is_subclass c d = (c = d \<or> list_ex (\<lambda>b. is_subclass b d) (bases c))"
  by pat_completeness auto
termination
  by (relation "measure (\<lambda>(c, d). exn_depth c)") (auto dest: bases_depth)

declare is_subclass.simps [simp del]

text \<open>
  An exception value: its class and its message (what \<open>str\<close> gives); an \<open>HTTPException\<close> also
  carries its status code.
\<close>

datatype exn = Exn exn_class string | Http int string

fun exn_cls :: "exn \<Rightarrow> exn_class" where
  "exn_cls (Exn c m) = c"
| "exn_cls (Http s m) = HTTPException"

fun exn_str :: "exn \<Rightarrow> string" where
  "exn_str (Exn c m) = m"
| "exn_str (Http s m) = py_str s @ '': '' @ m"

definition catches :: "exn_class \<Rightarrow> exn \<Rightarrow> bool" where
  "catches c e = is_subclass (exn_cls e) c"

text \<open>An \<open>except (c1, c2, ...)\<close> clause.\<close>

definition catches_any :: "exn_class list \<Rightarrow> exn \<Rightarrow> bool" where
  "catches_any cs e = list_ex (\<lambda>c. catches c e) cs"

lemma is_subclass_refl [simp]: "is_subclass c c"
  by (simp add: is_subclass.simps [of c c])

lemma is_subclass_step: "b \<in> set (bases c) \<Longrightarrow> is_subclass b d \<Longrightarrow> is_subclass c d"
  by (subst is_subclass.simps) (auto simp: list_ex_iff)

lemma is_subclass_trans: "is_subclass a b \<Longrightarrow> is_subclass b c \<Longrightarrow> is_subclass a c"
proof (induction a b rule: is_subclass.induct)
  case (1 a b)
  from "1.prems"(1) consider "a = b" | x where "x \<in> set (bases a)" "is_subclass x b"
    by (subst (asm) is_subclass.simps) (auto simp: list_ex_iff)
  then show ?case
    using "1.IH" "1.prems"(2) is_subclass_step by cases blast+
qed

lemma is_subclass_depth: "is_subclass c d \<Longrightarrow> c = d \<or> exn_depth d < exn_depth c"
proof (induction c d rule: is_subclass.induct)
  case (1 c d)
  then show ?case
    by (subst (asm) is_subclass.simps) (auto simp: list_ex_iff dest: bases_depth less_trans)
qed

lemma bases_Nil: "bases c = [] \<Longrightarrow> c = Exception_cls"
  by (cases c) (simp_all add: bases_def)

lemma is_subclass_Exception [simp]: "is_subclass c Exception_cls"
proof (induction "exn_depth c" arbitrary: c rule: less_induct)
  case less
  show ?case
  proof (cases "bases c")
    case Nil
    then have "c = Exception_cls" by (rule bases_Nil)
    then show ?thesis by simp
  next
    case (Cons b bs)
    then have "b \<in> set (bases c)" by simp
    then show ?thesis using less bases_depth is_subclass_step by blast
  qed
qed

text \<open>Evaluation of a concrete \<open>except\<close> clause, without unfolding under a binder.\<close>

definition any_subclass :: "exn_class list \<Rightarrow> exn_class \<Rightarrow> bool" where
  "any_subclass cs d = list_ex (\<lambda>c. is_subclass c d) cs"

lemma any_subclass_simps [simp]:
  "any_subclass [] d = False" "any_subclass (c # cs) d = (is_subclass c d \<or> any_subclass cs d)"
  by (simp_all add: any_subclass_def)

lemma is_subclass_unfold: "is_subclass c d = (c = d \<or> any_subclass (bases c) d)"
  by (simp add: is_subclass.simps [of c d] any_subclass_def)

lemmas subclass_eval = is_subclass_unfold bases_def catches_def

lemma catches_Exception [simp]: "catches Exception_cls e"
  by (simp add: catches_def)

lemma is_http [simp]: "catches HTTPException (Http code detail)"
  by (simp add: catches_def)

end
