(* ===== verification/Json.thy ===== *)
theory Json
  imports Prelude
begin

text \<open>
  JSON values as Python holds them, and the two functions of the \<open>json\<close> module the program
  calls: \<open>dumps\<close> and \<open>loads\<close>.

  A Python string is a list of code points (\<open>pystr\<close>); \<open>lit\<close> turns a literal into one. A float is
  represented by its \<open>repr\<close>, which determines it; \<open>repr(float(s))\<close> is an argument \<open>fl\<close> of
  \<open>loads\<close>. A dictionary is an association list in insertion order. The interpreter's limits on
  nesting depth and on the number of digits of an integer are left out.
\<close>

subsection \<open>Values\<close>

type_synonym pystr = "nat list"

definition lit :: "string \<Rightarrow> pystr" where
  "lit s = map of_char s"

lemma lit_inject [simp]: "lit s = lit t \<longleftrightarrow> s = t"
  by (simp add: lit_def inj_map_eq_map inj_on_def)

lemma lit_Nil [simp]: "lit s = [] \<longleftrightarrow> s = []"
  by (simp add: lit_def)

lemma lit_append [simp]: "lit (s @ t) = lit s @ lit t"
  by (simp add: lit_def)

text \<open>What \<open>str.isspace\<close> accepts, which \<open>str.strip\<close> removes and \<open>\s\<close> matches.\<close>

definition unicode_space :: "nat \<Rightarrow> bool" where
  "unicode_space c = (c \<in> set
    [9, 10, 11, 12, 13, 28, 29, 30, 31, 32, 133, 160, 5760, 8192, 8193, 8194,
     8195, 8196, 8197, 8198, 8199, 8200, 8201, 8202, 8232, 8233, 8239, 8287, 12288])"

datatype json =
    JNull
  | JBool bool
  | JInt int
  | JFloat string
  | JStr pystr
  | JList "json list"
  | JDict "(pystr \<times> json) list"

fun is_dict :: "json \<Rightarrow> bool" where
  "is_dict (JDict _) = True"
| "is_dict _ = False"

definition dict_get :: "(pystr \<times> json) list \<Rightarrow> string \<Rightarrow> json" where
  "dict_get kvs k = (case map_of kvs (lit k) of None \<Rightarrow> JNull | Some v \<Rightarrow> v)"

text \<open>
  \<open>d.get(k)\<close>: a missing key gives \<open>None\<close>, which is \<open>JNull\<close>; a value that is not a dictionary
  has no such attribute, which is the outer \<open>None\<close>.
\<close>

fun json_get :: "json \<Rightarrow> string \<Rightarrow> json option" where
  "json_get (JDict kvs) k = Some (dict_get kvs k)"
| "json_get _ k = None"

text \<open>A float is zero, or not greater than zero, as its \<open>repr\<close> shows.\<close>

definition float_mantissa :: "string \<Rightarrow> string" where
  "float_mantissa r = takeWhile (\<lambda>c. c \<noteq> CHR ''e'') (if take 1 r = ''-'' then drop 1 r else r)"

definition float_is_zero :: "string \<Rightarrow> bool" where
  "float_is_zero r = list_all (\<lambda>c. c = CHR ''0'' \<or> c = CHR ''.'') (float_mantissa r)"

definition float_nonpos :: "string \<Rightarrow> bool" where
  "float_nonpos r = (r \<noteq> ''nan'' \<and> (take 1 r = ''-'' \<or> float_is_zero r))"

text \<open>Python's truth value of an object.\<close>

fun truthy :: "json \<Rightarrow> bool" where
  "truthy JNull = False"
| "truthy (JBool b) = b"
| "truthy (JInt i) = (i \<noteq> 0)"
| "truthy (JFloat r) = (\<not> float_is_zero r)"
| "truthy (JStr s) = (s \<noteq> [])"
| "truthy (JList xs) = (xs \<noteq> [])"
| "truthy (JDict kvs) = (kvs \<noteq> [])"

lemma json_get_dict: "is_dict j \<longleftrightarrow> (\<exists>v. json_get j k = Some v)"
  by (cases j) auto

subsection \<open>Writing: \<open>json.dumps\<close>\<close>

abbreviation code :: "char \<Rightarrow> nat" where
  "code c \<equiv> of_char c"

definition hex_digit :: "nat \<Rightarrow> nat" where
  "hex_digit d = (if d < 10 then 48 + d else 87 + d)"

definition hex4 :: "nat \<Rightarrow> pystr" where
  "hex4 n = [hex_digit (n div 4096 mod 16), hex_digit (n div 256 mod 16),
     hex_digit (n div 16 mod 16), hex_digit (n mod 16)]"

definition unicode_escape :: "nat \<Rightarrow> pystr" where
  "unicode_escape n = [92, 117] @ hex4 n"

text \<open>\<open>ensure_ascii\<close>: what is not printable ASCII is escaped, beyond the BMP as two surrogates.\<close>

definition escape_code :: "nat \<Rightarrow> pystr" where
  "escape_code c =
     (if c = 34 then [92, 34]
      else if c = 92 then [92, 92]
      else if c = 10 then [92, 110]
      else if c = 13 then [92, 114]
      else if c = 9 then [92, 116]
      else if c = 12 then [92, 102]
      else if c = 8 then [92, 98]
      else if 32 \<le> c \<and> c \<le> 126 then [c]
      else if c < 65536 then unicode_escape c
      else unicode_escape (55296 + (c - 65536) div 1024 mod 1024)
        @ unicode_escape (56320 + (c - 65536) mod 1024))"

definition dumps_str :: "pystr \<Rightarrow> pystr" where
  "dumps_str s = [34] @ concat (map escape_code s) @ [34]"

definition dumps_float :: "string \<Rightarrow> pystr" where
  "dumps_float r = lit (if r = ''nan'' then ''NaN'' else if r = ''inf'' then ''Infinity''
     else if r = ''-inf'' then ''-Infinity'' else r)"

definition joined :: "pystr list \<Rightarrow> pystr" where
  "joined xs = (case xs of [] \<Rightarrow> [] | y # ys \<Rightarrow> y @ concat (map (\<lambda>z. [44, 32] @ z) ys))"

primrec dumps :: "json \<Rightarrow> pystr" where
  "dumps JNull = lit ''null''"
| "dumps (JBool b) = lit (if b then ''true'' else ''false'')"
| "dumps (JInt i) = lit (py_str i)"
| "dumps (JFloat r) = dumps_float r"
| "dumps (JStr s) = dumps_str s"
| "dumps (JList xs) = [91] @ joined (map dumps xs) @ [93]"
| "dumps (JDict kvs) =
     [123] @ joined (map (\<lambda>(k, v). dumps_str k @ [58, 32] @ v) (map (map_prod id dumps) kvs)) @ [125]"

subsection \<open>Reading: \<open>json.loads\<close>\<close>

definition json_space :: "nat \<Rightarrow> bool" where
  "json_space c = (c = 32 \<or> c = 9 \<or> c = 10 \<or> c = 13)"

definition skip_ws :: "pystr \<Rightarrow> pystr" where
  "skip_ws s = dropWhile json_space s"

definition hex_value :: "nat \<Rightarrow> nat option" where
  "hex_value c =
     (if 48 \<le> c \<and> c \<le> 57 then Some (c - 48)
      else if 97 \<le> c \<and> c \<le> 102 then Some (c - 87)
      else if 65 \<le> c \<and> c \<le> 70 then Some (c - 55)
      else None)"

fun read_hex4 :: "pystr \<Rightarrow> (nat \<times> pystr) option" where
  "read_hex4 (a # b # c # d # s) =
     (case (hex_value a, hex_value b, hex_value c, hex_value d) of
        (Some i, Some j, Some k, Some l) \<Rightarrow> Some (4096 * i + 256 * j + 16 * k + l, s)
      | _ \<Rightarrow> None)"
| "read_hex4 _ = None"

text \<open>After backslash and \<open>u\<close>: one code unit, or a surrogate pair.\<close>

definition read_unicode :: "pystr \<Rightarrow> (nat \<times> pystr) option" where
  "read_unicode s = (case read_hex4 s of
      None \<Rightarrow> None
    | Some (hi, s1) \<Rightarrow>
        if 55296 \<le> hi \<and> hi \<le> 56319 \<and> take 2 s1 = [92, 117] then
          (case read_hex4 (drop 2 s1) of
             None \<Rightarrow> None
           | Some (lo, s2) \<Rightarrow>
               if 56320 \<le> lo \<and> lo \<le> 57343
               then Some (65536 + (hi - 55296) * 1024 + (lo - 56320), s2)
               else Some (hi, s1))
        else Some (hi, s1))"

definition simple_escape :: "nat \<Rightarrow> nat option" where
  "simple_escape c = map_of [(34, 34), (92, 92), (47, 47), (98, 8), (102, 12), (110, 10),
     (114, 13), (116, 9)] c"

lemma read_hex4_shorter: "read_hex4 s = Some (n, s') \<Longrightarrow> length s' < length s"
  by (cases s rule: read_hex4.cases) (auto split: option.splits)

lemma read_unicode_shorter: "read_unicode s = Some (n, s') \<Longrightarrow> length s' < length s"
  by (auto simp: read_unicode_def split: option.splits if_splits prod.splits
      dest!: read_hex4_shorter)

text \<open>The body of a string literal, up to its closing quote.\<close>

function scan_string :: "pystr \<Rightarrow> (pystr \<times> pystr) option" where
  "scan_string s = (case s of
      [] \<Rightarrow> None
    | c # s1 \<Rightarrow>
        if c = 34 then Some ([], s1)
        else if c = 92 then
          (case s1 of
             [] \<Rightarrow> None
           | e # s2 \<Rightarrow>
               if e = 117 then
                 (case read_unicode s2 of
                    None \<Rightarrow> None
                  | Some (n, s3) \<Rightarrow> map_option (apfst (Cons n)) (scan_string s3))
               else
                 (case simple_escape e of
                    None \<Rightarrow> None
                  | Some n \<Rightarrow> map_option (apfst (Cons n)) (scan_string s2)))
        else if c < 32 then None
        else map_option (apfst (Cons c)) (scan_string s1))"
  by pat_completeness auto
termination
  by (relation "measure length") (auto dest!: read_unicode_shorter)

declare scan_string.simps [simp del]

definition is_digit :: "nat \<Rightarrow> bool" where
  "is_digit c = (48 \<le> c \<and> c \<le> 57)"

text \<open>The integer part, the fraction and the exponent of a number, each with what follows it.\<close>

definition int_part :: "pystr \<Rightarrow> (pystr \<times> pystr) option" where
  "int_part s =
     (let sign = takeWhile (\<lambda>c. c = 45) (take 1 s); s1 = drop (length sign) s;
          ds = takeWhile is_digit s1
      in if ds = [] then None
         else if hd ds = 48 then Some (sign @ [48], drop 1 s1)
         else Some (sign @ ds, drop (length ds) s1))"

definition frac_part :: "pystr \<Rightarrow> pystr \<times> pystr" where
  "frac_part s = (case s of
      c # s1 \<Rightarrow> let ds = takeWhile is_digit s1
        in if c = 46 \<and> ds \<noteq> [] then (46 # ds, drop (length ds) s1) else ([], s)
    | [] \<Rightarrow> ([], []))"

definition exp_part :: "pystr \<Rightarrow> pystr \<times> pystr" where
  "exp_part s = (case s of
      c # s1 \<Rightarrow>
        let sign = takeWhile (\<lambda>c. c = 43 \<or> c = 45) (take 1 s1); s2 = drop (length sign) s1;
            ds = takeWhile is_digit s2
        in if (c = 101 \<or> c = 69) \<and> ds \<noteq> []
           then (c # sign @ ds, drop (length ds) s2) else ([], s)
    | [] \<Rightarrow> ([], []))"

definition chars :: "pystr \<Rightarrow> string" where
  "chars s = map char_of s"

definition scan_number :: "(string \<Rightarrow> string option) \<Rightarrow> pystr \<Rightarrow> (json \<times> pystr) option" where
  "scan_number fl s = (case int_part s of
      None \<Rightarrow> None
    | Some (i, s1) \<Rightarrow>
        (case frac_part s1 of (f, s2) \<Rightarrow> case exp_part s2 of (e, s3) \<Rightarrow>
          if f = [] \<and> e = [] then map_option (\<lambda>n. (JInt n, s3)) (py_int (chars i))
          else map_option (\<lambda>r. (JFloat r, s3)) (fl (chars (i @ f @ e)))))"

definition strip_word :: "string \<Rightarrow> pystr \<Rightarrow> pystr option" where
  "strip_word w s = (if take (length w) s = lit w then Some (drop (length w) s) else None)"

definition scan_word :: "(string \<times> json) list \<Rightarrow> pystr \<Rightarrow> (json \<times> pystr) option" where
  "scan_word ws s = (case List.map_filter (\<lambda>(w, j). map_option (Pair j) (strip_word w s)) ws of
      [] \<Rightarrow> None | x # _ \<Rightarrow> Some x)"

definition scan_scalar :: "(string \<Rightarrow> string option) \<Rightarrow> pystr \<Rightarrow> (json \<times> pystr) option" where
  "scan_scalar fl s = (case scan_word [(''null'', JNull), (''true'', JBool True), (''false'', JBool False)] s of
      Some x \<Rightarrow> Some x
    | None \<Rightarrow> (case scan_number fl s of
        Some x \<Rightarrow> Some x
      | None \<Rightarrow> scan_word [(''NaN'', JFloat ''nan''), (''Infinity'', JFloat ''inf''),
           (''-Infinity'', JFloat ''-inf'')] s))"

text \<open>A key that occurs again replaces the value at its first position.\<close>

definition dict_insert :: "pystr \<Rightarrow> json \<Rightarrow> (pystr \<times> json) list \<Rightarrow> (pystr \<times> json) list" where
  "dict_insert k v kvs =
     (if k \<in> fst ` set kvs then map (\<lambda>(k', v'). if k' = k then (k', v) else (k', v')) kvs
      else kvs @ [(k, v)])"

text \<open>
  \<open>scan_once\<close>, and the loops of an array and of an object; the fuel bounds the number of calls,
  each of which reads a character.
\<close>

fun scan_once :: "(string \<Rightarrow> string option) \<Rightarrow> nat \<Rightarrow> pystr \<Rightarrow> (json \<times> pystr) option"
  and scan_array :: "(string \<Rightarrow> string option) \<Rightarrow> nat \<Rightarrow> json list \<Rightarrow> pystr \<Rightarrow> (json \<times> pystr) option"
  and scan_object :: "(string \<Rightarrow> string option) \<Rightarrow> nat \<Rightarrow> (pystr \<times> json) list \<Rightarrow> pystr
    \<Rightarrow> (json \<times> pystr) option"
where
  "scan_once fl 0 s = None"
| "scan_once fl (Suc n) s = (case s of
      [] \<Rightarrow> None
    | c # s1 \<Rightarrow>
        if c = 34 then map_option (apfst JStr) (scan_string s1)
        else if c = 123 then
          (case skip_ws s1 of
             [] \<Rightarrow> None
           | c' # s2 \<Rightarrow> if c' = 125 then Some (JDict [], s2) else scan_object fl n [] (c' # s2))
        else if c = 91 then
          (case skip_ws s1 of
             [] \<Rightarrow> None
           | c' # s2 \<Rightarrow> if c' = 93 then Some (JList [], s2) else scan_array fl n [] (c' # s2))
        else scan_scalar fl s)"
| "scan_array fl 0 acc s = None"
| "scan_array fl (Suc n) acc s = (case scan_once fl n s of
      None \<Rightarrow> None
    | Some (v, s1) \<Rightarrow> (case skip_ws s1 of
        [] \<Rightarrow> None
      | c # s2 \<Rightarrow>
          if c = 93 then Some (JList (acc @ [v]), s2)
          else if c = 44 then scan_array fl n (acc @ [v]) (skip_ws s2)
          else None))"
| "scan_object fl 0 acc s = None"
| "scan_object fl (Suc n) acc s = (case s of
      [] \<Rightarrow> None
    | q # s0 \<Rightarrow>
        if q \<noteq> 34 then None
        else (case scan_string s0 of
            None \<Rightarrow> None
          | Some (k, s1) \<Rightarrow> (case skip_ws s1 of
              [] \<Rightarrow> None
            | c # s2 \<Rightarrow>
                if c \<noteq> 58 then None
                else (case scan_once fl n (skip_ws s2) of
                    None \<Rightarrow> None
                  | Some (v, s3) \<Rightarrow> (case skip_ws s3 of
                      [] \<Rightarrow> None
                    | d # s4 \<Rightarrow>
                        if d = 125 then Some (JDict (dict_insert k v acc), s4)
                        else if d = 44 then scan_object fl n (dict_insert k v acc) (skip_ws s4)
                        else None)))))"

text \<open>\<open>json.loads(s)\<close>; \<open>None\<close> is \<open>JSONDecodeError\<close>, a \<open>ValueError\<close>.\<close>

definition loads :: "(string \<Rightarrow> string option) \<Rightarrow> pystr \<Rightarrow> json option" where
  "loads fl s = (case scan_once fl (2 * length s + 1) (skip_ws s) of
      None \<Rightarrow> None
    | Some (j, rest) \<Rightarrow> if skip_ws rest = [] then Some j else None)"

end
