(* ===== verification/Models.thy ===== *)
theory Models
  imports Exceptions Json
begin

text \<open>
  The tables of app/modules/order/models.py and app/modules/users/models.py: one record per
  mapped class, one list of rows per table, and the constraints the classes declare.

  A statement of the program that inserts or updates rows goes through \<open>flush\<close>, which gives the
  documented outcomes of PostgreSQL: a value that does not fit its column is a \<open>DBAPIError\<close>, a
  violated PRIMARY KEY, UNIQUE or FOREIGN KEY constraint or partial unique index is an
  \<open>IntegrityError\<close>, and in both cases the statement has no effect. Timestamps are integers,
  in seconds. A column of type UUID is a string.
\<close>

subsection \<open>Enumerations and rows\<close>

datatype order_status = OS_PENDING | OS_REVIEWED | OS_PAID | OS_FAILED | OS_EXPIRED

datatype event_status = ES_PENDING | ES_PROCESSING | ES_PUBLISHED | ES_FAILED

record user_row =
  u_id :: int
  u_telegram_id :: "int option"
  u_username :: "nat list option"
  u_hashed_password :: "nat list option"
  u_name :: "nat list"
  u_admin :: bool
  u_is_active :: bool
  u_joined_at :: int

record refresh_token_row =
  rt_id :: int
  rt_user_id :: int
  rt_token_hash :: "nat list"
  rt_expires_at :: int
  rt_is_revoked :: bool
  rt_created_at :: int
  rt_family_id :: string

record order_row =
  o_id :: int
  o_user_id :: int
  o_status :: order_status
  o_amount :: int
  o_created_at :: int

record payment_intent_row =
  pi_id :: int
  pi_order_id :: int
  pi_status :: order_status
  pi_base_amount :: int
  pi_exact_amount :: int
  pi_created_at :: int
  pi_expired_at :: int
  pi_sms_transaction_id :: "int option"

text \<open>\<open>PaymentIntent.is_expired\<close>.\<close>

definition is_expired :: "int \<Rightarrow> payment_intent_row \<Rightarrow> bool" where
  "is_expired now p = (now > pi_expired_at p)"

record sms_transaction_row =
  st_id :: int
  st_sms_amount :: int
  st_sms_inventory :: int
  st_sms_date :: "nat list"
  st_sms_time :: "nat list"
  st_webhook_payload :: "nat list"

record outbox_event_row =
  oe_id :: int
  oe_status :: event_status
  oe_data :: json
  oe_created_at :: int
  oe_retry_count :: "int option"
  oe_locked_at :: "int option"
  oe_last_error :: "string option"

record db =
  users :: "user_row list"
  refresh_tokens :: "refresh_token_row list"
  orders :: "order_row list"
  payment_intents :: "payment_intent_row list"
  sms_transactions :: "sms_transaction_row list"
  outbox_events :: "outbox_event_row list"

definition empty_db :: db where
  "empty_db = \<lparr>users = [], refresh_tokens = [], orders = [], payment_intents = [],
     sms_transactions = [], outbox_events = []\<rparr>"

subsection \<open>Constraints\<close>

definition primary_keys :: "db \<Rightarrow> bool" where
  "primary_keys d =
     (distinct (map u_id (users d)) \<and> distinct (map rt_id (refresh_tokens d)) \<and>
      distinct (map o_id (orders d)) \<and> distinct (map pi_id (payment_intents d)) \<and>
      distinct (map st_id (sms_transactions d)) \<and> distinct (map oe_id (outbox_events d)))"

text \<open>The values of a nullable UNIQUE column: NULLs are not compared.\<close>

definition non_nulls :: "('r \<Rightarrow> 'v option) \<Rightarrow> 'r list \<Rightarrow> 'v list" where
  "non_nulls f rows = List.map_filter f rows"

text \<open>\<open>idx_pending_price\<close>: \<open>exact_amount\<close> is unique among the rows with status PENDING.\<close>

definition pending :: "payment_intent_row \<Rightarrow> bool" where
  "pending p = (pi_status p = OS_PENDING)"

definition idx_pending_price :: "db \<Rightarrow> bool" where
  "idx_pending_price d = distinct (map pi_exact_amount (filter pending (payment_intents d)))"

text \<open>\<open>sms_transaction_id\<close> is a unique, nullable column.\<close>

definition uq_sms_transaction_id :: "db \<Rightarrow> bool" where
  "uq_sms_transaction_id d = distinct (non_nulls pi_sms_transaction_id (payment_intents d))"

definition sms_key :: "sms_transaction_row \<Rightarrow> int \<times> int \<times> nat list \<times> nat list" where
  "sms_key t = (st_sms_amount t, st_sms_inventory t, st_sms_date t, st_sms_time t)"

definition uq_sms_amount_inventory_date_time :: "db \<Rightarrow> bool" where
  "uq_sms_amount_inventory_date_time d = distinct (map sms_key (sms_transactions d))"

definition unique_users :: "db \<Rightarrow> bool" where
  "unique_users d =
     (distinct (non_nulls u_telegram_id (users d)) \<and> distinct (non_nulls u_username (users d)))"

definition unique_token_hash :: "db \<Rightarrow> bool" where
  "unique_token_hash d = distinct (map rt_token_hash (refresh_tokens d))"

definition foreign_keys :: "db \<Rightarrow> bool" where
  "foreign_keys d =
     (list_all (\<lambda>o'. o_user_id o' \<in> set (map u_id (users d))) (orders d) \<and>
      list_all (\<lambda>t. rt_user_id t \<in> set (map u_id (users d))) (refresh_tokens d) \<and>
      list_all (\<lambda>p. pi_order_id p \<in> set (map o_id (orders d)) \<and>
         (case pi_sms_transaction_id p of None \<Rightarrow> True
          | Some s \<Rightarrow> s \<in> set (map st_id (sms_transactions d)))) (payment_intents d))"

definition integrity :: "db \<Rightarrow> bool" where
  "integrity d =
     (primary_keys d \<and> idx_pending_price d \<and> uq_sms_transaction_id d \<and>
      uq_sms_amount_inventory_date_time d \<and> unique_users d \<and> unique_token_hash d \<and>
      foreign_keys d)"

subsection \<open>Column types\<close>

text \<open>PostgreSQL's INTEGER and BIGINT.\<close>

definition int4 :: "int \<Rightarrow> bool" where
  "int4 x = (- (2 ^ 31) \<le> x \<and> x < 2 ^ 31)"

definition int8 :: "int \<Rightarrow> bool" where
  "int8 x = (- (2 ^ 63) \<le> x \<and> x < 2 ^ 63)"

text \<open>What PostgreSQL stores in a string column and in a JSONB string: no NUL and no surrogates.\<close>

definition text_ok :: "nat list \<Rightarrow> bool" where
  "text_ok s = list_all (\<lambda>c. 0 < c \<and> c < 1114112 \<and> (c < 55296 \<or> 57343 < c)) s"

definition fits_user :: "user_row \<Rightarrow> bool" where
  "fits_user u =
     (int4 (u_id u) \<and> (case u_telegram_id u of None \<Rightarrow> True | Some t \<Rightarrow> int8 t) \<and>
      (case u_username u of None \<Rightarrow> True | Some n \<Rightarrow> length n \<le> 50 \<and> text_ok n) \<and>
      (case u_hashed_password u of None \<Rightarrow> True | Some h \<Rightarrow> length h \<le> 255 \<and> text_ok h) \<and>
      length (u_name u) \<le> 100 \<and> text_ok (u_name u))"

definition fits_refresh_token :: "refresh_token_row \<Rightarrow> bool" where
  "fits_refresh_token t =
     (int4 (rt_id t) \<and> int4 (rt_user_id t) \<and> length (rt_token_hash t) \<le> 64 \<and> text_ok (rt_token_hash t))"

definition fits_order :: "order_row \<Rightarrow> bool" where
  "fits_order o' = (int4 (o_id o') \<and> int4 (o_user_id o') \<and> int4 (o_amount o'))"

definition fits_payment_intent :: "payment_intent_row \<Rightarrow> bool" where
  "fits_payment_intent p =
     (int4 (pi_id p) \<and> int4 (pi_order_id p) \<and> int4 (pi_base_amount p) \<and>
      int4 (pi_exact_amount p) \<and>
      (case pi_sms_transaction_id p of None \<Rightarrow> True | Some s \<Rightarrow> int4 s))"

definition fits_sms_transaction :: "sms_transaction_row \<Rightarrow> bool" where
  "fits_sms_transaction t =
     (int4 (st_id t) \<and> int4 (st_sms_amount t) \<and> int4 (st_sms_inventory t) \<and>
      length (st_sms_date t) \<le> 10 \<and> length (st_sms_time t) \<le> 5 \<and>
      text_ok (st_sms_date t) \<and> text_ok (st_sms_time t) \<and> text_ok (st_webhook_payload t))"

definition fits_outbox_event :: "outbox_event_row \<Rightarrow> bool" where
  "fits_outbox_event e =
     (int4 (oe_id e) \<and> (case oe_retry_count e of None \<Rightarrow> True | Some n \<Rightarrow> int4 n))"

definition fits_columns :: "db \<Rightarrow> bool" where
  "fits_columns d =
     (list_all fits_user (users d) \<and> list_all fits_refresh_token (refresh_tokens d) \<and>
      list_all fits_order (orders d) \<and> list_all fits_payment_intent (payment_intents d) \<and>
      list_all fits_sms_transaction (sms_transactions d) \<and>
      list_all fits_outbox_event (outbox_events d))"

text \<open>A database state the schema admits.\<close>

definition valid_db :: "db \<Rightarrow> bool" where
  "valid_db d = (integrity d \<and> fits_columns d)"

text \<open>The outcome of a statement that would turn the tables into \<open>d\<close>.\<close>

definition flush :: "db \<Rightarrow> exn + db" where
  "flush d =
     (if \<not> fits_columns d then Inl (Exn DBAPIError ''value out of range'')
      else if \<not> integrity d then Inl (Exn IntegrityError ''constraint violated'')
      else Inr d)"

lemma flush_Inr [simp]: "flush d = Inr d' \<longleftrightarrow> valid_db d \<and> d' = d"
  by (auto simp: flush_def valid_db_def)

lemma flush_valid [simp]: "valid_db d \<Longrightarrow> flush d = Inr d"
  by (simp add: flush_def valid_db_def)

lemma flush_Inl: "flush d = Inl e \<Longrightarrow> \<not> valid_db d \<and>
    (e = Exn DBAPIError ''value out of range'' \<or> e = Exn IntegrityError ''constraint violated'')"
  by (auto simp: flush_def valid_db_def split: if_splits)

lemma valid_empty_db: "valid_db empty_db"
  by (simp add: valid_db_def integrity_def primary_keys_def idx_pending_price_def
      uq_sms_transaction_id_def uq_sms_amount_inventory_date_time_def unique_users_def
      unique_token_hash_def foreign_keys_def fits_columns_def empty_db_def non_nulls_def
      map_filter_def)

lemmas schema_defs = valid_db_def integrity_def primary_keys_def idx_pending_price_def
  uq_sms_transaction_id_def uq_sms_amount_inventory_date_time_def unique_users_def
  unique_token_hash_def foreign_keys_def fits_columns_def fits_user_def fits_refresh_token_def
  fits_order_def fits_payment_intent_def fits_sms_transaction_def fits_outbox_event_def
  non_nulls_def map_filter_def pending_def int4_def int8_def sms_key_def

end
