(* ===== verification/Redis_Sets.thy ===== *)
theory Redis_Sets
  imports Exceptions Json
begin

text \<open>
  The set commands of the Redis client the program is given. Redis is a service: a client is a
  record of commands over a server state of any type \<open>'r\<close>, and every definition of the program
  that talks to Redis takes such a record as an argument. A command returns a reply or raises.

  The locale \<open>redis_set_server\<close> states what the Redis documentation says of these commands,
  through the observation \<open>smembers\<close>; a command that raised may or may not have been executed.
  \<open>reliable_set_server\<close> adds states in which no command raises. \<open>ref_sets\<close> is an executable
  server that satisfies both contracts, with a script of faults; it is what the witnesses run.
\<close>

record 'r redis_sets =
  smembers :: "'r \<Rightarrow> string \<Rightarrow> string set"
  spop :: "string \<Rightarrow> 'r \<Rightarrow> (exn + string option) \<times> 'r"
  smove :: "string \<Rightarrow> string \<Rightarrow> string \<Rightarrow> 'r \<Rightarrow> (exn + bool) \<times> 'r"
  sadd :: "string \<Rightarrow> string list \<Rightarrow> 'r \<Rightarrow> (exn + int) \<times> 'r"
  scard :: "string \<Rightarrow> 'r \<Rightarrow> (exn + int) \<times> 'r"
  rdel :: "string \<Rightarrow> 'r \<Rightarrow> (exn + int) \<times> 'r"
  rexists :: "string \<Rightarrow> 'r \<Rightarrow> (exn + bool) \<times> 'r"
  sdiffstore :: "string \<Rightarrow> string \<Rightarrow> string \<Rightarrow> 'r \<Rightarrow> (exn + int) \<times> 'r"

subsection \<open>The documented effect of each command on the sets\<close>

type_synonym sets = "string \<Rightarrow> string set"

definition removed :: "string \<Rightarrow> string \<Rightarrow> sets \<Rightarrow> sets" where
  "removed k x S = S(k := S k - {x})"

definition moved :: "string \<Rightarrow> string \<Rightarrow> string \<Rightarrow> sets \<Rightarrow> sets" where
  "moved a b x S = (if x \<in> S a then (removed a x S)(b := insert x (removed a x S b)) else S)"

definition added :: "string \<Rightarrow> string list \<Rightarrow> sets \<Rightarrow> sets" where
  "added k xs S = S(k := S k \<union> set xs)"

definition diff_stored :: "string \<Rightarrow> string \<Rightarrow> string \<Rightarrow> sets \<Rightarrow> sets" where
  "diff_stored dst a b S = S(dst := S a - S b)"

lemma removed_self [simp]: "x \<notin> removed k x S k"
  by (simp add: removed_def)

lemma moved_self [simp]: "a \<noteq> b \<Longrightarrow> x \<notin> moved a b x S a"
  by (simp add: moved_def)

locale redis_set_server =
  fixes R :: "'r redis_sets"
  assumes spop_Some: "spop R k r = (Inr (Some x), r') \<Longrightarrow>
      x \<in> smembers R r k \<and> smembers R r' = removed k x (smembers R r)"
    and spop_None: "spop R k r = (Inr None, r') \<Longrightarrow>
      smembers R r k = {} \<and> smembers R r' = smembers R r"
    and spop_Inl: "spop R k r = (Inl e, r') \<Longrightarrow> catches RedisError e \<and>
      (smembers R r' = smembers R r \<or>
       (\<exists>x \<in> smembers R r k. smembers R r' = removed k x (smembers R r)))"
    and smove_Inr: "smove R a b x r = (Inr ok, r') \<Longrightarrow>
      ok = (x \<in> smembers R r a) \<and> smembers R r' = moved a b x (smembers R r)"
    and smove_Inl: "smove R a b x r = (Inl e, r') \<Longrightarrow> catches RedisError e \<and>
      (smembers R r' = smembers R r \<or> smembers R r' = moved a b x (smembers R r))"
    and sadd_Inr: "sadd R k xs r = (Inr n, r') \<Longrightarrow> smembers R r' = added k xs (smembers R r)"
    and sadd_Inl: "sadd R k xs r = (Inl e, r') \<Longrightarrow> catches RedisError e \<and>
      (smembers R r' = smembers R r \<or> smembers R r' = added k xs (smembers R r))"
    and scard_same: "scard R k r = (card_reply, r') \<Longrightarrow> smembers R r' = smembers R r"
    and rdel_Inr: "rdel R k r = (Inr n, r') \<Longrightarrow> smembers R r' = (smembers R r)(k := {})"
    and rdel_Inl: "rdel R k r = (Inl e, r') \<Longrightarrow> catches RedisError e \<and>
      (smembers R r' = smembers R r \<or> smembers R r' = (smembers R r)(k := {}))"
    and rexists_Inr: "rexists R k r = (Inr ok, r') \<Longrightarrow> ok = (smembers R r k \<noteq> {})"
    and rexists_same: "rexists R k r = (ex_reply, r') \<Longrightarrow> smembers R r' = smembers R r"
    and sdiffstore_Inr: "sdiffstore R dst a b r = (Inr n, r') \<Longrightarrow>
      smembers R r' = diff_stored dst a b (smembers R r)"
    and sdiffstore_Inl: "sdiffstore R dst a b r = (Inl e, r') \<Longrightarrow> catches RedisError e \<and>
      (smembers R r' = smembers R r \<or> smembers R r' = diff_stored dst a b (smembers R r))"

text \<open>States from which no command of the run raises.\<close>

locale reliable_set_server = redis_set_server R
  for R :: "'r redis_sets" +
  fixes up :: "'r \<Rightarrow> bool"
  assumes spop_up: "up r \<Longrightarrow> \<exists>popped r'. spop R k r = (Inr popped, r') \<and> up r'"
    and smove_up: "up r \<Longrightarrow> \<exists>ok r'. smove R a b x r = (Inr ok, r') \<and> up r'"
    and sadd_up: "up r \<Longrightarrow> \<exists>n r'. sadd R k xs r = (Inr n, r') \<and> up r'"
    and scard_up: "up r \<Longrightarrow> \<exists>n r'. scard R k r = (Inr n, r') \<and> up r'"
    and rdel_up: "up r \<Longrightarrow> \<exists>n r'. rdel R k r = (Inr n, r') \<and> up r'"
    and rexists_up: "up r \<Longrightarrow> \<exists>ok r'. rexists R k r = (Inr ok, r') \<and> up r'"
    and sdiffstore_up: "up r \<Longrightarrow> \<exists>n r'. sdiffstore R dst a b r = (Inr n, r') \<and> up r'"

subsection \<open>An executable reference server\<close>

text \<open>
  Sets are lists without a fixed order; \<open>SPOP\<close>, which removes a random member, takes the first.
  \<open>rs_faults\<close> is a script: the next command raises a connection error when the next flag is set.
  The state also holds streams, their consumer groups and plain keys, for the other commands.
\<close>

type_synonym fields = "(string \<times> pystr) list"

record ref_state =
  rs_sets :: "string \<Rightarrow> string list"
  rs_streams :: "string \<Rightarrow> (string \<times> fields) list"
  rs_delivered :: "string \<Rightarrow> string \<Rightarrow> string list"
  rs_pel :: "string \<Rightarrow> string \<Rightarrow> (string \<times> nat) list"
  rs_next_id :: nat
  rs_idle :: int
  rs_keys :: "pystr \<Rightarrow> pystr option"
  rs_faults :: "bool list"

definition ref_empty :: ref_state where
  "ref_empty = \<lparr>rs_sets = (\<lambda>k. []), rs_streams = (\<lambda>s. []), rs_delivered = (\<lambda>s g. []),
     rs_pel = (\<lambda>s g. []), rs_next_id = 1, rs_idle = 0, rs_keys = (\<lambda>k. None), rs_faults = []\<rparr>"

lemma ref_empty_faults [simp]: "rs_faults ref_empty = []"
  by (simp add: ref_empty_def)

definition ref_cmd :: "(ref_state \<Rightarrow> 'a \<times> ref_state) \<Rightarrow> ref_state \<Rightarrow> (exn + 'a) \<times> ref_state" where
  "ref_cmd f s = (case rs_faults s of
      [] \<Rightarrow> (case f s of (x, s') \<Rightarrow> (Inr x, s'))
    | fault # fs \<Rightarrow>
        if fault then (Inl (Exn RedisConnectionError ''connection lost''), s\<lparr>rs_faults := fs\<rparr>)
        else (case f s of (x, s') \<Rightarrow> (Inr x, s'\<lparr>rs_faults := fs\<rparr>)))"

definition ref_set :: "string \<Rightarrow> string list \<Rightarrow> ref_state \<Rightarrow> ref_state" where
  "ref_set k xs s = s\<lparr>rs_sets := (rs_sets s)(k := xs)\<rparr>"

definition ref_spop :: "string \<Rightarrow> ref_state \<Rightarrow> string option \<times> ref_state" where
  "ref_spop k s = (case rs_sets s k of
      [] \<Rightarrow> (None, s)
    | x # xs \<Rightarrow> (Some x, ref_set k (removeAll x xs) s))"

definition ref_smove :: "string \<Rightarrow> string \<Rightarrow> string \<Rightarrow> ref_state \<Rightarrow> bool \<times> ref_state" where
  "ref_smove a b x s =
     (if x \<in> set (rs_sets s a) then
        let s' = ref_set a (removeAll x (rs_sets s a)) s
        in (True, ref_set b (List.insert x (rs_sets s' b)) s')
      else (False, s))"

definition ref_sadd :: "string \<Rightarrow> string list \<Rightarrow> ref_state \<Rightarrow> int \<times> ref_state" where
  "ref_sadd k xs s =
     (let new = filter (\<lambda>x. x \<notin> set (rs_sets s k)) (remdups xs)
      in (int (length new), ref_set k (rs_sets s k @ new) s))"

definition ref_sets :: "ref_state redis_sets" where
  "ref_sets = \<lparr>
     smembers = (\<lambda>s k. set (rs_sets s k)),
     spop = (\<lambda>k. ref_cmd (ref_spop k)),
     smove = (\<lambda>a b x. ref_cmd (ref_smove a b x)),
     sadd = (\<lambda>k xs. ref_cmd (ref_sadd k xs)),
     scard = (\<lambda>k. ref_cmd (\<lambda>s. (int (length (remdups (rs_sets s k))), s))),
     rdel = (\<lambda>k. ref_cmd (\<lambda>s. (if rs_sets s k = [] then 0 else 1, ref_set k [] s))),
     rexists = (\<lambda>k. ref_cmd (\<lambda>s. (rs_sets s k \<noteq> [], s))),
     sdiffstore = (\<lambda>dst a b. ref_cmd (\<lambda>s.
       let xs = filter (\<lambda>x. x \<notin> set (rs_sets s b)) (rs_sets s a)
       in (int (length xs), ref_set dst xs s)))\<rparr>"

lemma ref_cmd_Inr: "ref_cmd f s = (Inr x, s') \<longleftrightarrow>
    (\<exists>s1. f s = (x, s1) \<and> ((rs_faults s = [] \<and> s' = s1) \<or>
       (\<exists>fs. rs_faults s = False # fs \<and> s' = s1\<lparr>rs_faults := fs\<rparr>)))"
  by (auto simp: ref_cmd_def split: list.splits prod.splits)

lemma ref_cmd_Inl: "ref_cmd f s = (Inl e, s') \<longleftrightarrow>
    (\<exists>fs. rs_faults s = True # fs \<and> s' = s\<lparr>rs_faults := fs\<rparr> \<and>
       e = Exn RedisConnectionError ''connection lost'')"
  by (auto simp: ref_cmd_def split: list.splits prod.splits)

lemma ref_cmd_cases:
  assumes "ref_cmd f s = (c, s')"
  obtains e where "c = Inl e" "rs_sets s' = rs_sets s"
  | x s1 where "c = Inr x" "f s = (x, s1)" "rs_sets s' = rs_sets s1"
  using assms by (cases c) (auto simp: ref_cmd_Inr ref_cmd_Inl)

lemma ref_set_sets [simp]: "rs_sets (ref_set k xs s) = (rs_sets s)(k := xs)"
  by (simp add: ref_set_def)

lemma ref_set_faults [simp]: "rs_faults (ref_set k xs s) = rs_faults s"
  by (simp add: ref_set_def)

lemma connection_error_is_redis_error [simp]:
  "catches RedisError (Exn RedisConnectionError m)"
  by (simp add: subclass_eval)

lemmas ref_ops = ref_sets_def ref_spop_def ref_smove_def ref_sadd_def removed_def moved_def
  added_def diff_stored_def Let_def

interpretation ref: redis_set_server ref_sets
  by unfold_locales
    (auto simp: ref_ops ref_cmd_Inr ref_cmd_Inl fun_eq_iff elim!: ref_cmd_cases
      split: list.splits if_splits)

text \<open>The reference server is up when no fault is scripted.\<close>

definition ref_up :: "ref_state \<Rightarrow> bool" where
  "ref_up s = (rs_faults s = [])"

interpretation ref: reliable_set_server ref_sets ref_up
  by unfold_locales (auto simp: ref_ops ref_up_def ref_cmd_def split: list.splits)

end
