(* ===== verification/World.thy ===== *)
theory World
  imports Models Redis_Sets
begin

text \<open>
  What a handler acts on: the committed database, the view the handler's session has of it, and
  the Redis server. \<open>get_db\<close> of app/db/database.py wraps a request: whatever the handler did not
  commit is rolled back when the session closes. Other sessions run between two statements of a
  handler; \<open>others f\<close> is the effect \<open>f\<close> of what they committed, seen under READ COMMITTED.
\<close>

record 'r world =
  w_committed :: db
  w_session :: db
  w_redis :: 'r

definition on_redis :: "('r \<Rightarrow> (exn + 'a) \<times> 'r) \<Rightarrow> 'r world \<Rightarrow> (exn + 'a) \<times> 'r world" where
  "on_redis cmd w = (case cmd (w_redis w) of (x, r') \<Rightarrow> (x, w\<lparr>w_redis := r'\<rparr>))"

definition on_session :: "(db \<Rightarrow> exn + 'a) \<Rightarrow> 'r world \<Rightarrow> (exn + 'a) \<times> 'r world" where
  "on_session q w = (q (w_session w), w)"

text \<open>A statement that changes rows: \<open>session.add(...)\<close> or an update, then \<open>session.flush()\<close>.\<close>

definition flush_change :: "(db \<Rightarrow> db) \<Rightarrow> 'r world \<Rightarrow> (exn + unit) \<times> 'r world" where
  "flush_change f w = (case flush (f (w_session w)) of
      Inl e \<Rightarrow> (Inl e, w)
    | Inr d \<Rightarrow> (Inr (), w\<lparr>w_session := d\<rparr>))"

definition commit :: "exn option \<Rightarrow> 'r world \<Rightarrow> (exn + unit) \<times> 'r world" where
  "commit fault w = (case fault of
      Some e \<Rightarrow> (Inl e, w)
    | None \<Rightarrow> (Inr (), w\<lparr>w_committed := w_session w\<rparr>))"

definition rollback :: "'r world \<Rightarrow> (exn + unit) \<times> 'r world" where
  "rollback w = (Inr (), w\<lparr>w_session := w_committed w\<rparr>)"

definition others :: "(db \<Rightarrow> db) \<Rightarrow> 'r world \<Rightarrow> (exn + unit) \<times> 'r world" where
  "others f w = (Inr (), w\<lparr>w_committed := f (w_committed w), w_session := f (w_session w)\<rparr>)"

definition faulty :: "exn option \<Rightarrow> ('w \<Rightarrow> (exn + 'a) \<times> 'w) \<Rightarrow> 'w \<Rightarrow> (exn + 'a) \<times> 'w" where
  "faulty fault m = (case fault of Some e \<Rightarrow> raise_io e | None \<Rightarrow> m)"

text \<open>\<open>async with SessionLocal() as session\<close>, as \<open>get_db\<close> and \<open>handle_payment\<close> use it.\<close>

definition get_db :: "('r world \<Rightarrow> (exn + 'a) \<times> 'r world) \<Rightarrow> 'r world \<Rightarrow> (exn + 'a) \<times> 'r world" where
  "get_db handler w = (case handler w of (x, w') \<Rightarrow> (x, snd (rollback w')))"

definition idle :: "'r world \<Rightarrow> bool" where
  "idle w = (w_session w = w_committed w)"

lemmas world_combinators [io_defs] =
  on_redis_def on_session_def commit_def rollback_def others_def

lemma idle_get_db: "idle (snd (get_db h w))"
  by (simp add: get_db_def idle_def rollback_def split: prod.splits)

lemma get_db_idle: "get_db h w = (x, w') \<Longrightarrow> idle w'"
  using idle_get_db [of h w] by simp

lemma flush_change_Inr: "flush_change f w = (Inr u, w') \<longleftrightarrow>
    valid_db (f (w_session w)) \<and> w' = w\<lparr>w_session := f (w_session w)\<rparr>"
  by (auto simp: flush_change_def split: sum.splits dest: flush_Inl)

lemma flush_change_Inl: "flush_change f w = (Inl e, w') \<longleftrightarrow>
    flush (f (w_session w)) = Inl e \<and> w' = w"
  by (auto simp: flush_change_def split: sum.splits dest: flush_Inl)

lemma on_redis_keeps_db [simp]:
  "w_committed (snd (on_redis c w)) = w_committed w" "w_session (snd (on_redis c w)) = w_session w"
  by (simp_all add: on_redis_def split: prod.splits)

lemma on_redis_world: "on_redis c w = (x, w') \<Longrightarrow>
    w_committed w' = w_committed w \<and> w_session w' = w_session w \<and> c (w_redis w) = (x, w_redis w')"
  by (auto simp: on_redis_def split: prod.splits)

text \<open>Both database views are states the schema admits.\<close>

definition sound :: "'r world \<Rightarrow> bool" where
  "sound w \<longleftrightarrow> valid_db (w_committed w) \<and> valid_db (w_session w)"

lemma sound_on_redis [keeps_intro]: "keeps sound (on_redis c)"
  by (simp add: keeps_def sound_def)

lemma sound_on_session [keeps_intro]: "keeps sound (on_session q)"
  by (simp add: keeps_def on_session_def)

lemma sound_flush_change [keeps_intro]: "keeps sound (flush_change f)"
  by (auto simp: keeps_def sound_def flush_change_def split: sum.splits)

lemma sound_commit [keeps_intro]: "keeps sound (commit fault)"
  by (auto simp: keeps_def sound_def commit_def split: option.splits)

lemma sound_rollback [keeps_intro]: "keeps sound rollback"
  by (auto simp: keeps_def sound_def rollback_def)

lemma sound_others [keeps_intro]: "(\<And>d. valid_db d \<Longrightarrow> valid_db (f d)) \<Longrightarrow> keeps sound (others f)"
  by (auto simp: keeps_def sound_def others_def)

lemma sound_faulty [keeps_intro]: "keeps sound m \<Longrightarrow> keeps sound (faulty fault m)"
  by (auto simp: faulty_def intro: keeps_intro split: option.splits)

lemma sound_get_db [keeps_intro]: "keeps sound h \<Longrightarrow> keeps sound (get_db h)"
  by (fastforce simp: keeps_def get_db_def sound_def rollback_def split: prod.splits)

text \<open>A part that only reads the database, or does not touch it.\<close>

definition db_is :: "db \<Rightarrow> db \<Rightarrow> 'r world \<Rightarrow> bool" where
  "db_is c d w \<longleftrightarrow> w_committed w = c \<and> w_session w = d"

lemma keeps_db_is_on_redis [keeps_intro]: "keeps (db_is c d) (on_redis cmd)"
  by (simp add: keeps_def db_is_def)

lemma keeps_db_is_on_session [keeps_intro]: "keeps (db_is c d) (on_session q)"
  by (simp add: keeps_def on_session_def)

lemma keeps_db_is_faulty [keeps_intro]: "keeps (db_is c d) m \<Longrightarrow> keeps (db_is c d) (faulty fault m)"
  by (auto simp: faulty_def intro: keeps_intro split: option.splits)

lemma db_unchanged:
  "(\<And>c d. keeps (db_is c d) m) \<Longrightarrow> m w = (x, w') \<Longrightarrow>
   w_session w' = w_session w \<and> w_committed w' = w_committed w"
  by (metis db_is_def keepsD snd_conv)

text \<open>An invariant of the Redis server alone: the database operations keep it.\<close>

definition redis_inv :: "('r \<Rightarrow> bool) \<Rightarrow> 'r world \<Rightarrow> bool" where
  "redis_inv Q w = Q (w_redis w)"

lemma redis_inv_on_redis:
  "(\<And>r x r'. Q r \<Longrightarrow> c r = (x, r') \<Longrightarrow> Q r') \<Longrightarrow> keeps (redis_inv Q) (on_redis c)"
  by (auto simp: keeps_def redis_inv_def on_redis_def split: prod.splits)

lemma redis_inv_on_session [keeps_intro]: "keeps (redis_inv Q) (on_session q)"
  by (simp add: keeps_def on_session_def)

lemma redis_inv_flush_change [keeps_intro]: "keeps (redis_inv Q) (flush_change f)"
  by (auto simp: keeps_def redis_inv_def flush_change_def split: sum.splits)

lemma redis_inv_commit [keeps_intro]: "keeps (redis_inv Q) (commit fault)"
  by (auto simp: keeps_def redis_inv_def commit_def split: option.splits)

lemma redis_inv_rollback [keeps_intro]: "keeps (redis_inv Q) rollback"
  by (auto simp: keeps_def redis_inv_def rollback_def)

lemma redis_inv_others [keeps_intro]: "keeps (redis_inv Q) (others f)"
  by (auto simp: keeps_def redis_inv_def others_def)

lemma redis_inv_faulty [keeps_intro]: "keeps (redis_inv Q) m \<Longrightarrow> keeps (redis_inv Q) (faulty fault m)"
  by (auto simp: faulty_def intro: keeps_intro split: option.splits)

lemma redis_inv_get_db [keeps_intro]: "keeps (redis_inv Q) h \<Longrightarrow> keeps (redis_inv Q) (get_db h)"
  by (fastforce simp: keeps_def get_db_def redis_inv_def rollback_def split: prod.splits)

text \<open>What the set commands of a program part do to an invariant of the Redis sets.\<close>

definition sets_inv :: "'r redis_sets \<Rightarrow> (sets \<Rightarrow> bool) \<Rightarrow> 'r world \<Rightarrow> bool" where
  "sets_inv R P w = P (smembers R (w_redis w))"

lemma sets_inv_redis: "sets_inv R P = redis_inv (\<lambda>r. P (smembers R r))"
  by (simp add: fun_eq_iff sets_inv_def redis_inv_def)

lemma sets_inv_on_redis:
  "(\<And>r x r'. P (smembers R r) \<Longrightarrow> c r = (x, r') \<Longrightarrow> P (smembers R r')) \<Longrightarrow>
   keeps (sets_inv R P) (on_redis c)"
  by (auto simp: keeps_def sets_inv_def on_redis_def split: prod.splits)

lemma triple_on_redis:
  "(\<And>r x r'. P (smembers R r) \<Longrightarrow> c r = (Inr x, r') \<Longrightarrow> Q x (smembers R r')) \<Longrightarrow>
   (\<And>r e r'. P (smembers R r) \<Longrightarrow> c r = (Inl e, r') \<Longrightarrow> E (smembers R r')) \<Longrightarrow>
   triple (sets_inv R P) (on_redis c) (\<lambda>x. sets_inv R (Q x)) (\<lambda>_. sets_inv R E)"
  by (fastforce simp: triple_def sets_inv_def on_redis_def split: prod.splits sum.splits)

lemma sets_inv_on_session [keeps_intro]: "keeps (sets_inv R P) (on_session q)"
  unfolding sets_inv_redis by (rule redis_inv_on_session)

lemma sets_inv_flush_change [keeps_intro]: "keeps (sets_inv R P) (flush_change f)"
  unfolding sets_inv_redis by (rule redis_inv_flush_change)

lemma sets_inv_commit [keeps_intro]: "keeps (sets_inv R P) (commit fault)"
  unfolding sets_inv_redis by (rule redis_inv_commit)

lemma sets_inv_rollback [keeps_intro]: "keeps (sets_inv R P) rollback"
  unfolding sets_inv_redis by (rule redis_inv_rollback)

lemma sets_inv_others [keeps_intro]: "keeps (sets_inv R P) (others f)"
  unfolding sets_inv_redis by (rule redis_inv_others)

lemma sets_inv_faulty [keeps_intro]: "keeps (sets_inv R P) m \<Longrightarrow> keeps (sets_inv R P) (faulty fault m)"
  unfolding sets_inv_redis by (rule redis_inv_faulty)

lemma sets_inv_get_db [keeps_intro]: "keeps (sets_inv R P) h \<Longrightarrow> keeps (sets_inv R P) (get_db h)"
  unfolding sets_inv_redis by (rule redis_inv_get_db)

subsection \<open>Invariants of both views of the database\<close>

definition db_inv :: "(db \<Rightarrow> bool) \<Rightarrow> 'r world \<Rightarrow> bool" where
  "db_inv Q w \<longleftrightarrow> Q (w_committed w) \<and> Q (w_session w)"

lemma db_inv_on_redis [keeps_intro]: "keeps (db_inv Q) (on_redis c)"
  by (simp add: keeps_def db_inv_def)

lemma db_inv_on_session [keeps_intro]: "keeps (db_inv Q) (on_session q)"
  by (simp add: keeps_def on_session_def)

lemma db_inv_flush_change [keeps_intro]:
  "(\<And>d. Q d \<Longrightarrow> valid_db (f d) \<Longrightarrow> Q (f d)) \<Longrightarrow> keeps (db_inv Q) (flush_change f)"
  by (auto simp: keeps_def db_inv_def flush_change_def split: sum.splits)

lemma db_inv_commit [keeps_intro]: "keeps (db_inv Q) (commit fault)"
  by (auto simp: keeps_def db_inv_def commit_def split: option.splits)

lemma db_inv_rollback [keeps_intro]: "keeps (db_inv Q) rollback"
  by (auto simp: keeps_def db_inv_def rollback_def)

lemma db_inv_others [keeps_intro]: "(\<And>d. Q d \<Longrightarrow> Q (f d)) \<Longrightarrow> keeps (db_inv Q) (others f)"
  by (auto simp: keeps_def db_inv_def others_def)

lemma db_inv_faulty [keeps_intro]: "keeps (db_inv Q) m \<Longrightarrow> keeps (db_inv Q) (faulty fault m)"
  by (auto simp: faulty_def intro: keeps_intro split: option.splits)

lemma db_inv_get_db [keeps_intro]: "keeps (db_inv Q) m \<Longrightarrow> keeps (db_inv Q) (get_db m)"
  by (fastforce simp: keeps_def get_db_def db_inv_def rollback_def split: prod.splits)

end
