(* ===== verification/Amounts.thy ===== *)
theory Amounts
  imports World
begin

text \<open>
  Allocation of unique amounts: \<open>get_unique_amount\<close> and \<open>get_unique_amount_from_postgres\<close> of
  app/modules/order/service.py.

  Redis holds three sets of decimal strings: \<open>amounts\<close>, \<open>free_amounts\<close> and \<open>pending_orders\<close>.
  What PostgreSQL decides is an argument: \<open>at_pick\<close> is the row \<open>ORDER BY random() LIMIT 1\<close>
  leaves, \<open>at_query_fault\<close> an exception of the query.
\<close>

datatype amount_source = REDIS | POSTGRES

text \<open>\<open>AllocatedAmount\<close>: an integer that carries where it came from.\<close>

record allocated_amount =
  aa_value :: int
  aa_source :: amount_source

record attempt =
  at_query_fault :: "exn option"
  at_pick :: "int list \<Rightarrow> int"
  at_others :: "db \<Rightarrow> db"
  at_flush_fault :: "exn option"
  at_order_id :: int
  at_intent_id :: int
  at_now :: int

definition candidate_window :: "int \<Rightarrow> int option \<Rightarrow> int \<times> int" where
  "candidate_window window base = (case base of
      None \<Rightarrow> (1500000, 1550000)
    | Some b \<Rightarrow> (b + 1, b + window))"

text \<open>The \<open>WHERE NOT EXISTS\<close> clause of the query.\<close>

definition free_candidates :: "int \<Rightarrow> int \<Rightarrow> db \<Rightarrow> int list" where
  "free_candidates start_val end_val d =
     filter (\<lambda>c. \<not> list_ex (\<lambda>p. pi_status p = OS_PENDING \<and> pi_exact_amount p = c)
                   (payment_intents d)) [start_val..end_val]"

definition candidate_query :: "(int list \<Rightarrow> int) \<Rightarrow> int \<Rightarrow> int \<Rightarrow> db \<Rightarrow> exn + int option" where
  "candidate_query pick start_val end_val d =
     (if \<not> int4 start_val \<or> \<not> int4 end_val then Inl (Exn DBAPIError ''integer out of range'')
      else case free_candidates start_val end_val d of
             [] \<Rightarrow> Inr None
           | c # cs \<Rightarrow> Inr (Some (pick (c # cs))))"

definition get_unique_amount_from_postgres ::
    "attempt \<Rightarrow> int option \<Rightarrow> int \<Rightarrow> 'r world \<Rightarrow> (exn + int option) \<times> 'r world" where
  "get_unique_amount_from_postgres A base window =
     (case candidate_window window base of (start_val, end_val) \<Rightarrow>
        faulty (at_query_fault A) (on_session (candidate_query (at_pick A) start_val end_val)))"

definition get_unique_amount ::
    "'r redis_sets \<Rightarrow> attempt \<Rightarrow> int option \<Rightarrow> 'r world \<Rightarrow> (exn + allocated_amount option) \<times> 'r world"
where
  "get_unique_amount R A base =
     try_io
       (bind_io (on_redis (spop R ''free_amounts'')) (\<lambda>given_amount.
          case given_amount of
            None \<Rightarrow> return_io None
          | Some x \<Rightarrow>
              if x = [] then return_io None
              else bind_io (on_redis (smove R ''amounts'' ''pending_orders'' x)) (\<lambda>_.
                case py_int x of
                  None \<Rightarrow> raise_io (Exn ValueError ''invalid literal for int()'')
                | Some i \<Rightarrow> return_io (Some \<lparr>aa_value = i, aa_source = REDIS\<rparr>))))
       (\<lambda>e. if catches RedisError e then
              bind_io (get_unique_amount_from_postgres A base 500) (\<lambda>fallback_amount.
                case fallback_amount of
                  Some i \<Rightarrow> return_io (Some \<lparr>aa_value = i, aa_source = POSTGRES\<rparr>)
                | None \<Rightarrow> return_io None)
            else raise_io e)"

subsection \<open>The candidates of the PostgreSQL fallback\<close>

lemma free_candidates_iff: "c \<in> set (free_candidates s t d) \<longleftrightarrow>
    s \<le> c \<and> c \<le> t \<and> (\<forall>p \<in> set (payment_intents d). pending p \<longrightarrow> pi_exact_amount p \<noteq> c)"
  by (auto simp: free_candidates_def list_ex_iff pending_def)

lemma candidate_query_Some:
  assumes "candidate_query pick s t d = Inr (Some i)" and "\<And>xs. xs \<noteq> [] \<Longrightarrow> pick xs \<in> set xs"
  shows "i \<in> set (free_candidates s t d)"
proof -
  from assms(1) have "free_candidates s t d \<noteq> []" and "i = pick (free_candidates s t d)"
    by (auto simp: candidate_query_def split: if_splits list.splits)
  with assms(2) show ?thesis by simp
qed

lemma candidate_query_None:
  "candidate_query pick s t d = Inr None \<Longrightarrow> free_candidates s t d = []"
  by (auto simp: candidate_query_def split: if_splits list.splits)

subsection \<open>An allocation from Redis\<close>

text \<open>No amount is on offer and reserved at once.\<close>

definition pool_disjoint :: "sets \<Rightarrow> bool" where
  "pool_disjoint S \<longleftrightarrow> S ''free_amounts'' \<inter> S ''pending_orders'' = {}"

text \<open>The pool as the seeder and the startup code leave it.\<close>

definition pool_fresh :: "sets \<Rightarrow> bool" where
  "pool_fresh S \<longleftrightarrow> S ''free_amounts'' \<subseteq> S ''amounts'' \<and> pool_disjoint S \<and>
     S ''amounts'' \<inter> S ''pending_orders'' = {} \<and>
     (\<forall>x \<in> S ''free_amounts''. \<exists>i > 0. x = py_str i)"

text \<open>The effect of one allocation of \<open>x\<close> on the sets.\<close>

definition reserved :: "string \<Rightarrow> sets \<Rightarrow> sets" where
  "reserved x S = moved ''amounts'' ''pending_orders'' x (removed ''free_amounts'' x S)"

text \<open>The effect of the compensation of \<open>create_order_service\<close>.\<close>

definition released :: "string \<Rightarrow> sets \<Rightarrow> sets" where
  "released x S = added ''free_amounts'' [x] (moved ''pending_orders'' ''amounts'' x S)"

lemmas pool_defs = pool_disjoint_def pool_fresh_def reserved_def released_def removed_def moved_def
  added_def diff_stored_def

lemma released_reserved:
  assumes "pool_fresh S" and "x \<in> S ''free_amounts''"
  shows "released x (reserved x S) = S"
  using assms by (auto simp: pool_defs fun_eq_iff)

lemma pool_disjoint_moves:
  "pool_disjoint S \<Longrightarrow> pool_disjoint (removed ''free_amounts'' x S)"
  "pool_disjoint S \<Longrightarrow> pool_disjoint (moved ''pending_orders'' ''amounts'' x S)"
  "pool_disjoint S \<Longrightarrow> pool_disjoint (moved ''pending_orders'' ''free_amounts'' x S)"
  "pool_disjoint S \<Longrightarrow> x \<notin> S ''free_amounts'' \<Longrightarrow>
     pool_disjoint (moved ''amounts'' ''pending_orders'' x S)"
  "pool_disjoint S \<Longrightarrow> x \<notin> S ''pending_orders'' \<Longrightarrow> pool_disjoint (added ''free_amounts'' [x] S)"
  by (auto simp: pool_defs)

context redis_set_server
begin

lemma get_unique_amount_redis:
  assumes "get_unique_amount R A base w = (Inr (Some a), w')" and "aa_source a = REDIS"
  shows "\<exists>x. x \<in> smembers R (w_redis w) ''free_amounts'' \<and> py_int x = Some (aa_value a) \<and>
    smembers R (w_redis w') = reserved x (smembers R (w_redis w)) \<and>
    w_session w' = w_session w \<and> w_committed w' = w_committed w"
  using assms
  apply (simp add: get_unique_amount_def io_defs get_unique_amount_from_postgres_def faulty_def
      split: prod.splits sum.splits option.splits if_splits)
  apply (auto dest!: spop_Some smove_Inr simp: reserved_def)
  done

end

end
