(* ===== verification/Orders.thy ===== *)
theory Orders
  imports Amounts
begin

text \<open>
  Orders: the order functions of app/modules/order/service.py, the request schema, and the
  order endpoints of app/modules/order/router.py.

  Each attempt of \<open>create_order_service\<close> has its own \<open>attempt\<close> record: what other sessions commit
  between the choice of the amount and the insert (\<open>at_others\<close>), the keys the sequences give
  out, the clock, and an exception of the flush that is not an integrity error.
\<close>

subsection \<open>Creating an order\<close>

definition new_order :: "attempt \<Rightarrow> int \<Rightarrow> int \<Rightarrow> order_row" where
  "new_order A user_id amount =
     \<lparr>o_id = at_order_id A, o_user_id = user_id, o_status = OS_PENDING, o_amount = amount,
      o_created_at = at_now A\<rparr>"

definition new_payment_intent :: "attempt \<Rightarrow> int \<Rightarrow> int \<Rightarrow> payment_intent_row" where
  "new_payment_intent A amount exact_amount =
     \<lparr>pi_id = at_intent_id A, pi_order_id = at_order_id A, pi_status = OS_PENDING,
      pi_base_amount = amount, pi_exact_amount = exact_amount, pi_created_at = at_now A,
      pi_expired_at = at_now A + 86400, pi_sms_transaction_id = None\<rparr>"

definition add_order :: "order_row \<Rightarrow> payment_intent_row \<Rightarrow> db \<Rightarrow> db" where
  "add_order ord p d =
     d\<lparr>orders := orders d @ [ord], payment_intents := payment_intents d @ [p]\<rparr>"

text \<open>The nested transaction of an attempt.\<close>

definition insert_order ::
    "attempt \<Rightarrow> int \<Rightarrow> int \<Rightarrow> int \<Rightarrow> 'r world \<Rightarrow> (exn + order_row) \<times> 'r world" where
  "insert_order A user_id amount unique_amount =
     bind_io (faulty (at_flush_fault A)
       (flush_change (add_order (new_order A user_id amount)
          (new_payment_intent A amount unique_amount))))
     (\<lambda>_. return_io (new_order A user_id amount))"

text \<open>Give a Redis amount back; an exception is logged and swallowed.\<close>

definition compensate_redis :: "'r redis_sets \<Rightarrow> int \<Rightarrow> 'r world \<Rightarrow> (exn + unit) \<times> 'r world" where
  "compensate_redis R unique_amount =
     try_io
       (bind_io (on_redis (smove R ''pending_orders'' ''amounts'' (py_str unique_amount))) (\<lambda>_.
        bind_io (on_redis (sadd R ''free_amounts'' [py_str unique_amount])) (\<lambda>_.
        return_io ())))
       (\<lambda>e. return_io ())"

text \<open>The statistics that are logged when no amount is left.\<close>

definition log_pool_statistics :: "'r redis_sets \<Rightarrow> 'r world \<Rightarrow> (exn + unit) \<times> 'r world" where
  "log_pool_statistics R =
     try_io
       (bind_io (on_redis (scard R ''amounts'')) (\<lambda>_.
        bind_io (on_redis (scard R ''free_amounts'')) (\<lambda>_. return_io ())))
       (\<lambda>e. return_io ())"

text \<open>The body of the loop from \<open>attempt\<close> on.\<close>

function create_order_from :: "'r redis_sets \<Rightarrow> (nat \<Rightarrow> attempt) \<Rightarrow> int \<Rightarrow> int \<Rightarrow> nat \<Rightarrow> nat
    \<Rightarrow> 'r world \<Rightarrow> (exn + order_row option) \<times> 'r world" where
  "create_order_from R E user_id amount max_retries attempt =
     (if attempt < max_retries then
        bind_io (get_unique_amount R (E attempt) (Some amount)) (\<lambda>unique_amount.
          case unique_amount of
            None \<Rightarrow> bind_io (log_pool_statistics R) (\<lambda>_. return_io None)
          | Some a \<Rightarrow>
              if aa_value a = 0 then bind_io (log_pool_statistics R) (\<lambda>_. return_io None)
              else
                bind_io (others (at_others (E attempt))) (\<lambda>_.
                try_else_io (insert_order (E attempt) user_id amount (aa_value a))
                  (\<lambda>e. if catches IntegrityError e then
                         (if aa_source a = REDIS then
                            bind_io (compensate_redis R (aa_value a)) (\<lambda>_.
                            raise_io (Exn DuplicateUniqueAmountError ''Duplicate unique amount''))
                          else if attempt < max_retries - 1 then
                            create_order_from R E user_id amount max_retries (Suc attempt)
                          else raise_io (Exn DuplicateUniqueAmountError ''Duplicate unique amount''))
                       else
                         bind_io (if aa_source a = REDIS then compensate_redis R (aa_value a)
                                  else return_io ()) (\<lambda>_.
                         raise_io (Exn DatabaseError ''Database error occurred'')))
                  (\<lambda>new_order. return_io (Some new_order))))
      else return_io None)"
  by pat_completeness auto
termination
  by (relation "measure (\<lambda>(R, E, user_id, amount, max_retries, attempt). max_retries - attempt)")
     auto

declare create_order_from.simps [simp del]

definition create_order_service :: "'r redis_sets \<Rightarrow> (nat \<Rightarrow> attempt) \<Rightarrow> int \<Rightarrow> int \<Rightarrow> nat
    \<Rightarrow> 'r world \<Rightarrow> (exn + order_row option) \<times> 'r world" where
  "create_order_service R E user_id amount max_retries =
     create_order_from R E user_id amount max_retries 0"

subsection \<open>The request schema and the endpoint\<close>

text \<open>\<open>OrderSchema\<close>: \<open>None\<close> is a validation error.\<close>

definition order_schema :: "int \<Rightarrow> int option" where
  "order_schema v = (if v > 0 \<and> \<not> (v > 1550000 \<or> v < 1500000) then Some v else None)"

text \<open>\<open>session.refresh\<close> loads the intent of the order for the response; it may raise, too.\<close>

definition create_order :: "'r redis_sets \<Rightarrow> (nat \<Rightarrow> attempt) \<Rightarrow> exn option \<Rightarrow> exn option \<Rightarrow> int \<Rightarrow> int
    \<Rightarrow> 'r world \<Rightarrow> (exn + order_row) \<times> 'r world" where
  "create_order R E commit_fault refresh_fault user_id amount =
     get_db
       (try_io
          (bind_io (create_order_service R E user_id amount 3) (\<lambda>created.
             case created of
               None \<Rightarrow> raise_io (Http 409 ''No free amount is available '')
             | Some ord \<Rightarrow>
                 bind_io (commit commit_fault) (\<lambda>_.
                 bind_io (faulty refresh_fault (return_io ())) (\<lambda>_. return_io ord))))
          (\<lambda>e. if catches HTTPException e then raise_io e
               else if catches DuplicateUniqueAmountError e then
                 bind_io rollback (\<lambda>_. raise_io (Http 409 ''Duplicate unique amount''))
               else bind_io rollback (\<lambda>_. raise_io (Http 500 ''Internal Server Error''))))"

subsection \<open>Reading and deleting orders\<close>

definition user_order :: "int \<Rightarrow> int \<Rightarrow> order_row \<Rightarrow> bool" where
  "user_order order_id user_id ord = (o_id ord = order_id \<and> o_user_id ord = user_id)"

definition get_order_service :: "int \<Rightarrow> int \<Rightarrow> 'r world \<Rightarrow> (exn + order_row option) \<times> 'r world" where
  "get_order_service order_id user_id =
     on_session (\<lambda>d. Inr (result_first (filter (user_order order_id user_id) (orders d))))"

text \<open>
  \<open>session.delete(order)\<close> hands the row to SQLAlchemy's unit of work, which is the argument
  \<open>unit_of_work\<close>: the outcome of flushing the deletion of the order with this id. The flush
  happens at the commit.
\<close>

definition delete_order_service :: "int \<Rightarrow> int \<Rightarrow> 'r world \<Rightarrow> (exn + order_row) \<times> 'r world" where
  "delete_order_service order_id user_id =
     bind_io (get_order_service order_id user_id) (\<lambda>found.
       case found of
         None \<Rightarrow> raise_io (Exn OrderNotFoundError ''Order not found'')
       | Some ord \<Rightarrow> return_io ord)"

definition delete_order ::
    "(int \<Rightarrow> db \<Rightarrow> exn + db) \<Rightarrow> int \<Rightarrow> int \<Rightarrow> 'r world \<Rightarrow> (exn + unit) \<times> 'r world" where
  "delete_order unit_of_work user_id order_id =
     get_db
       (try_io
          (bind_io (delete_order_service order_id user_id) (\<lambda>ord w.
             case unit_of_work (o_id ord) (w_session w) of
               Inl e \<Rightarrow> (Inl e, w)
             | Inr d \<Rightarrow> commit None (w\<lparr>w_session := d\<rparr>)))
          (\<lambda>e. if catches OrderNotFoundError e then raise_io (Http 404 ''Order not found'')
               else raise_io e))"

definition get_order :: "int \<Rightarrow> int \<Rightarrow> 'r world \<Rightarrow> (exn + order_row) \<times> 'r world" where
  "get_order user_id order_id =
     get_db
       (bind_io (get_order_service order_id user_id) (\<lambda>found.
          case found of
            None \<Rightarrow> raise_io (Http 404 ''Order not found'')
          | Some ord \<Rightarrow> return_io ord))"

text \<open>\<open>get_all_orders\<close> loads each order together with its payment intent.\<close>

definition get_all_orders ::
    "int \<Rightarrow> 'r world \<Rightarrow> (exn + (order_row \<times> payment_intent_row option) list) \<times> 'r world" where
  "get_all_orders user_id =
     on_session (\<lambda>d. Inr (map (\<lambda>ord. (ord,
         result_first (filter (\<lambda>p. pi_order_id p = o_id ord) (payment_intents d))))
       (filter (\<lambda>ord. o_user_id ord = user_id) (orders d))))"

definition get_orders ::
    "int \<Rightarrow> 'r world \<Rightarrow> (exn + (order_row \<times> payment_intent_row option) list) \<times> 'r world" where
  "get_orders user_id =
     get_db
       (bind_io (get_all_orders user_id) (\<lambda>found.
          if found = [] then raise_io (Http 404 ''There is no orders'') else return_io found))"

lemmas order_defs = create_order_service_def insert_order_def compensate_redis_def
  log_pool_statistics_def create_order_def get_order_def get_orders_def delete_order_def
  get_order_service_def get_all_orders_def delete_order_service_def


subsection \<open>What one attempt does\<close>

lemma insert_order_Inr:
  "insert_order A u m i w = (Inr ord, w') \<longleftrightarrow>
     at_flush_fault A = None \<and> ord = new_order A u m \<and>
     valid_db (add_order ord (new_payment_intent A m i) (w_session w)) \<and>
     w' = w\<lparr>w_session := add_order ord (new_payment_intent A m i) (w_session w)\<rparr>"
  by (auto simp: insert_order_def faulty_def bind_io_def return_io_def raise_io_def
      flush_change_Inr flush_change_Inl split: option.splits prod.splits sum.splits)

lemma insert_order_Inl: "insert_order A u m i w = (Inl e, w') \<Longrightarrow> w' = w"
  by (auto simp: insert_order_def faulty_def bind_io_def return_io_def raise_io_def
      flush_change_Inl split: option.splits prod.splits sum.splits)

lemma sound_get_unique_amount [keeps_intro]: "keeps sound (get_unique_amount R A base)"
  unfolding get_unique_amount_def get_unique_amount_from_postgres_def by (intro keeps_intro)

lemma sound_compensate_redis [keeps_intro]: "keeps sound (compensate_redis R i)"
  unfolding compensate_redis_def by (intro keeps_intro)

lemma sound_log_pool_statistics [keeps_intro]: "keeps sound (log_pool_statistics R)"
  unfolding log_pool_statistics_def by (intro keeps_intro)

lemma sound_insert_order [keeps_intro]: "keeps sound (insert_order A u m i)"
  unfolding insert_order_def by (intro keeps_intro)

lemma sound_create_order_from:
  assumes "\<And>n d. valid_db d \<Longrightarrow> valid_db (at_others (E n) d)"
  shows "keeps sound (create_order_from R E u m mx n)"
  using assms
proof (induction R E u m mx n rule: create_order_from.induct)
  case (1 R E u m mx n)
  then show ?case
    by (subst create_order_from.simps) (intro keeps_intro; simp)
qed


lemma db_is_get_unique_amount [keeps_intro]: "keeps (db_is c d) (get_unique_amount R A base)"
  unfolding get_unique_amount_def get_unique_amount_from_postgres_def by (intro keeps_intro)

lemma db_is_compensate_redis [keeps_intro]: "keeps (db_is c d) (compensate_redis R i)"
  unfolding compensate_redis_def by (intro keeps_intro)

lemma db_is_log_pool_statistics [keeps_intro]: "keeps (db_is c d) (log_pool_statistics R)"
  unfolding log_pool_statistics_def by (intro keeps_intro)

lemma log_pool_returns: "\<exists>w'. log_pool_statistics R w = (Inr (), w')"
proof -
  have "fst (log_pool_statistics R w) = Inr ()"
    by (simp add: log_pool_statistics_def try_io_def bind_io_def return_io_def
        split: prod.split sum.split)
  then show ?thesis by (metis prod.collapse)
qed

lemmas quiet_steps = db_unchanged [OF db_is_get_unique_amount]
  db_unchanged [OF db_is_compensate_redis] db_unchanged [OF db_is_log_pool_statistics]

subsection \<open>The whole loop\<close>

text \<open>What the session sees after the other sessions of the attempts \<open>m\<close> to \<open>n - 1\<close> committed.\<close>

definition seen :: "(nat \<Rightarrow> attempt) \<Rightarrow> nat \<Rightarrow> nat \<Rightarrow> db \<Rightarrow> db" where
  "seen E m n d = fold (\<lambda>j. at_others (E j)) [m..<n] d"

lemma seen_refl [simp]: "seen E n n d = d"
  by (simp add: seen_def)

lemma seen_step: "n < k \<Longrightarrow> seen E n k d = seen E (Suc n) k (at_others (E n) d)"
  by (simp add: seen_def upt_rec [of n k])

lemma seen_id: "(\<And>n. at_others (E n) = id) \<Longrightarrow> seen E m n d = d"
proof -
  assume "\<And>n. at_others (E n) = id"
  then have "(\<lambda>j. at_others (E j)) = (\<lambda>j. id)" by simp
  then show ?thesis by (simp add: seen_def fold_id)
qed

text \<open>The outcome of the loop on the database, for every environment.\<close>

definition loop_outcome where
  "loop_outcome E u m mx n d c d' c' res \<longleftrightarrow>
     (\<exists>k. n \<le> k \<and> k \<le> mx \<and> c' = seen E n k c \<and>
       (case res of
          Inr (Some ord) \<Rightarrow> n < k \<and> (\<exists>i. i \<noteq> 0 \<and> at_flush_fault (E (k - 1)) = None \<and>
            ord = new_order (E (k - 1)) u m \<and>
            d' = add_order ord (new_payment_intent (E (k - 1)) m i) (seen E n k d) \<and>
            valid_db d')
        | _ \<Rightarrow> d' = seen E n k d))"

lemma loop_outcome_stop:
  "n \<le> mx \<Longrightarrow> (\<And>ord. res \<noteq> Inr (Some ord)) \<Longrightarrow> loop_outcome E u m mx n d c d c res"
  unfolding loop_outcome_def
  by (rule exI [of _ n]) (auto split: sum.split option.split)

lemma loop_outcome_stop_attempt:
  "n < mx \<Longrightarrow> (\<And>ord. res \<noteq> Inr (Some ord)) \<Longrightarrow>
   loop_outcome E u m mx n d c (at_others (E n) d) (at_others (E n) c) res"
  unfolding loop_outcome_def
  by (rule exI [of _ "Suc n"]) (auto simp: seen_step split: sum.split option.split)

lemma loop_outcome_next:
  assumes "n < mx"
    and "loop_outcome E u m mx (Suc n) (at_others (E n) d) (at_others (E n) c) d' c' res"
  shows "loop_outcome E u m mx n d c d' c' res"
proof -
  from assms(2) obtain k where k: "Suc n \<le> k" "k \<le> mx"
    and c: "c' = seen E (Suc n) k (at_others (E n) c)"
    and r: "case res of
          Inr (Some ord) \<Rightarrow> Suc n < k \<and> (\<exists>i. i \<noteq> 0 \<and> at_flush_fault (E (k - 1)) = None \<and>
            ord = new_order (E (k - 1)) u m \<and>
            d' = add_order ord (new_payment_intent (E (k - 1)) m i)
                   (seen E (Suc n) k (at_others (E n) d)) \<and> valid_db d')
        | _ \<Rightarrow> d' = seen E (Suc n) k (at_others (E n) d)"
    unfolding loop_outcome_def by blast
  from k have s: "\<And>d. seen E (Suc n) k (at_others (E n) d) = seen E n k d"
    by (simp add: seen_step)
  from k c r show ?thesis
    unfolding loop_outcome_def s
    by (intro exI [of _ k]) (auto split: sum.splits option.splits)
qed

lemma loop_outcome_created:
  assumes "n < mx" and "i \<noteq> 0" and "at_flush_fault (E n) = None"
    and "valid_db (add_order (new_order (E n) u m) (new_payment_intent (E n) m i) (at_others (E n) d))"
  shows "loop_outcome E u m mx n d c
    (add_order (new_order (E n) u m) (new_payment_intent (E n) m i) (at_others (E n) d))
    (at_others (E n) c) (Inr (Some (new_order (E n) u m)))"
  using assms unfolding loop_outcome_def
  by (intro exI [of _ "Suc n"]) (auto simp: seen_step)

text \<open>One attempt without an amount, and one whose insert failed.\<close>

lemma attempt_no_amount:
  assumes "get_unique_amount R (E n) (Some m) w = (g, w1)"
    and "\<not> (\<exists>a. g = Inr (Some a) \<and> aa_value a \<noteq> 0)" and "n < mx"
    and "create_order_from R E u m mx n w = (res, w')"
  shows "w_session w' = w_session w1 \<and> w_committed w' = w_committed w1 \<and>
    (\<forall>ord. res \<noteq> Inr (Some ord))"
  using assms(1-3) assms(4) [unfolded create_order_from.simps [of R E u m mx n]]
  by (auto simp: bind_io_def return_io_def split: sum.splits option.splits prod.splits if_splits
      dest!: quiet_steps)

lemma attempt_failed_insert:
  assumes "get_unique_amount R (E n) (Some m) w = (Inr (Some a), w1)" and "aa_value a \<noteq> 0"
    and "n < mx" and "others (at_others (E n)) w1 = (Inr (), w2)"
    and "insert_order (E n) u m (aa_value a) w2 = (Inl e, w3)"
    and "create_order_from R E u m mx n w = (res, w')"
  obtains (retry) "catches IntegrityError e" "aa_source a \<noteq> REDIS" "n < mx - 1"
      "create_order_from R E u m mx (Suc n) w2 = (res, w')"
  | (stop) "w_session w' = w_session w2" "w_committed w' = w_committed w2"
      "\<And>ord. res \<noteq> Inr (Some ord)"
proof (cases "catches IntegrityError e \<and> aa_source a \<noteq> REDIS \<and> n < mx - 1")
  case True
  with assms(1-5) assms(6) [unfolded create_order_from.simps [of R E u m mx n]]
  have "create_order_from R E u m mx (Suc n) w2 = (res, w')"
    by (auto simp: bind_io_def try_else_io_def dest!: insert_order_Inl)
  with True retry show ?thesis by blast
next
  case False
  with assms(1-5) assms(6) [unfolded create_order_from.simps [of R E u m mx n]]
  have "w_session w' = w_session w2 \<and> w_committed w' = w_committed w2 \<and>
      (\<forall>ord. res \<noteq> Inr (Some ord))"
    by (auto simp: bind_io_def try_else_io_def return_io_def raise_io_def
        split: sum.splits prod.splits if_splits dest!: quiet_steps insert_order_Inl)
  with stop show ?thesis by blast
qed

lemma create_order_from_outcome:
  assumes "create_order_from R E u m mx n w = (res, w')" and "n \<le> mx"
  shows "loop_outcome E u m mx n (w_session w) (w_committed w) (w_session w') (w_committed w') res"
  using assms
proof (induction R E u m mx n arbitrary: w rule: create_order_from.induct)
  case (1 R E u m mx n)
  obtain g w1 where g: "get_unique_amount R (E n) (Some m) w = (g, w1)" by fastforce
  note same1 = quiet_steps(1) [OF g] and run = "1.prems"(1)
  consider "\<not> n < mx" | "n < mx" "\<not> (\<exists>a. g = Inr (Some a) \<and> aa_value a \<noteq> 0)"
    | a where "n < mx" "g = Inr (Some a)" "aa_value a \<noteq> 0" by blast
  then show ?case
  proof cases
    case 1
    with "1.prems" show ?thesis
      by (subst (asm) create_order_from.simps) (auto simp: return_io_def intro: loop_outcome_stop)
  next
    case 2
    from attempt_no_amount [OF g 2(2,1) run] same1 2 show ?thesis
      by (simp add: loop_outcome_stop)
  next
    case (3 a)
    obtain w2 where w2: "others (at_others (E n)) w1 = (Inr (), w2)"
      "w_session w2 = at_others (E n) (w_session w)" "w_committed w2 = at_others (E n) (w_committed w)"
      using same1 by (simp add: others_def)
    obtain x w3 where ins: "insert_order (E n) u m (aa_value a) w2 = (x, w3)" by fastforce
    show ?thesis
    proof (cases x)
      case (Inr ord)
      with ins run [unfolded create_order_from.simps [of R E u m mx n]] 3 g w2
      have "res = Inr (Some ord)" and "w' = w3"
        by (simp_all add: bind_io_def return_io_def try_else_io_def)
      with ins Inr 3 w2 show ?thesis
        by (auto simp: insert_order_Inr intro: loop_outcome_created)
    next
      case (Inl e)
      from attempt_failed_insert [OF g [unfolded 3(2)] 3(3,1) w2(1) ins [unfolded Inl] run]
      show ?thesis
      proof cases
        case 1
        with 3 "1.IH" have "loop_outcome E u m mx (Suc n) (w_session w2) (w_committed w2)
            (w_session w') (w_committed w') res" by auto
        with w2 3 show ?thesis by (auto intro: loop_outcome_next)
      next
        case 2
        with w2 3 show ?thesis by (auto intro: loop_outcome_stop_attempt)
      qed
    qed
  qed
qed

lemma create_order_service_outcome:
  "create_order_service R E u m mx w = (res, w') \<Longrightarrow>
   loop_outcome E u m mx 0 (w_session w) (w_committed w) (w_session w') (w_committed w') res"
  unfolding create_order_service_def by (rule create_order_from_outcome) simp_all

lemma create_order_service_Some:
  assumes "create_order_service R E u m mx w = (Inr (Some ord), w')"
  obtains k i where "Suc k \<le> mx" "i \<noteq> 0" "ord = new_order (E k) u m"
    "w_session w' = add_order ord (new_payment_intent (E k) m i) (seen E 0 (Suc k) (w_session w))"
    "w_committed w' = seen E 0 (Suc k) (w_committed w)" "valid_db (w_session w')"
proof -
  from create_order_service_outcome [OF assms] obtain k where "0 < k" "k \<le> mx"
    "w_committed w' = seen E 0 k (w_committed w)"
    "\<exists>i. i \<noteq> 0 \<and> ord = new_order (E (k - 1)) u m \<and>
      w_session w' = add_order ord (new_payment_intent (E (k - 1)) m i) (seen E 0 k (w_session w)) \<and>
      valid_db (w_session w')"
    unfolding loop_outcome_def by auto
  then show ?thesis using that [of "k - 1"] by fastforce
qed

lemma create_order_service_other:
  assumes "create_order_service R E u m mx w = (res, w')" and "\<And>ord. res \<noteq> Inr (Some ord)"
  obtains k where "k \<le> mx" "w_session w' = seen E 0 k (w_session w)"
    "w_committed w' = seen E 0 k (w_committed w)"
proof -
  from assms(2) have "(\<exists>e. res = Inl e) \<or> res = Inr None"
    by (metis not_None_eq sum.exhaust_sel)
  then consider e where "res = Inl e" | "res = Inr None" by blast
  then show ?thesis
    using create_order_service_outcome [OF assms(1)] that
    by cases (auto simp: loop_outcome_def)
qed

end
