(* ===== verification/Payments.thy ===== *)
theory Payments
  imports Orders
begin

text \<open>
  Settling a payment: \<open>process_pending_payment\<close> of app/modules/order/service.py, the worker's
  \<open>handle_payment\<close> of app/modules/order/handlers.py, and the manual confirmation of
  app/modules/admin/service.py and app/modules/admin/router.py.

  \<open>bind_int\<close> is what the database driver binds a Python value to, for an INTEGER parameter;
  a value it does not accept is a \<open>DBAPIError\<close>. A \<open>race\<close> is what the environment does to one run:
  what the other sessions commit before the rows are locked and while they are locked, and the
  exceptions of the statements. Messages that are only logged leave out the interpolated values.
\<close>

type_synonym driver = "json \<Rightarrow> int option"

record race =
  rc_check_fault :: "exn option"
  rc_before_lock :: "db \<Rightarrow> db"
  rc_lock_fault :: "exn option"
  rc_after_lock :: "db \<Rightarrow> db"
  rc_flush_fault :: "exn option"
  rc_commit_fault :: "exn option"

subsection \<open>The payment of an SMS\<close>

definition bound :: "driver \<Rightarrow> json \<Rightarrow> exn + int" where
  "bound bind_int v = (case bind_int v of
      None \<Rightarrow> Inl (Exn DBAPIError ''invalid input for query argument'') | Some i \<Rightarrow> Inr i)"

definition already_processed ::
    "driver \<Rightarrow> json \<Rightarrow> db \<Rightarrow> exn + payment_intent_row option" where
  "already_processed bind_int sms_transaction_id d = (case bound bind_int sms_transaction_id of
      Inl e \<Rightarrow> Inl e
    | Inr t \<Rightarrow> result_one_or_none (Exn MultipleResultsFound ''Multiple rows were found'')
        (filter (\<lambda>p. pi_sms_transaction_id p = Some t) (payment_intents d)))"

text \<open>The inner join of a payment intent with its order.\<close>

definition with_order :: "db \<Rightarrow> payment_intent_row list \<Rightarrow> (payment_intent_row \<times> order_row) list" where
  "with_order d ps = concat (map (\<lambda>p. map (Pair p)
     (filter (\<lambda>ord. o_id ord = pi_order_id p) (orders d))) ps)"

text \<open>The rows the payment of an amount is about.\<close>

definition payable :: "int \<Rightarrow> payment_intent_row \<Rightarrow> bool" where
  "payable i p = (pi_exact_amount p = i \<and> pi_status p = OS_PENDING)"

text \<open>The locking query; \<open>exact_amount = NULL\<close> is written IS NULL, and the column is not null.\<close>

definition pending_for_amount ::
    "driver \<Rightarrow> json \<Rightarrow> db \<Rightarrow> exn + (payment_intent_row \<times> order_row) list" where
  "pending_for_amount bind_int amount d =
     (if amount = JNull then Inr []
      else case bound bind_int amount of
             Inl e \<Rightarrow> Inl e
           | Inr i \<Rightarrow> Inr (with_order d
               (filter (payable i) (payment_intents d))))"

definition set_paid :: "payment_intent_row \<Rightarrow> payment_intent_row" where
  "set_paid p = p\<lparr>pi_status := OS_PAID\<rparr>"

definition attach_sms :: "int \<Rightarrow> payment_intent_row \<Rightarrow> payment_intent_row" where
  "attach_sms t p = (set_paid p)\<lparr>pi_sms_transaction_id := Some t\<rparr>"

definition order_paid :: "order_row \<Rightarrow> order_row" where
  "order_paid ord = ord\<lparr>o_status := OS_PAID\<rparr>"

text \<open>The two \<open>UPDATE\<close> statements of the flush, by primary key.\<close>

definition settle :: "(payment_intent_row \<Rightarrow> payment_intent_row) \<Rightarrow> payment_intent_row \<Rightarrow> db \<Rightarrow> db" where
  "settle f p d =
     d\<lparr>payment_intents := update_where (\<lambda>q. pi_id q = pi_id p) f (payment_intents d),
       orders := update_where (\<lambda>ord. o_id ord = pi_order_id p) order_paid (orders d)\<rparr>"

definition process_pending_payment :: "driver \<Rightarrow> race \<Rightarrow> json \<Rightarrow> json
    \<Rightarrow> 'r world \<Rightarrow> (exn + payment_intent_row \<times> bool) \<times> 'r world" where
  "process_pending_payment bind_int C amount sms_transaction_id =
     (if \<not> truthy sms_transaction_id then
        raise_io (Exn InvalidSMSDataError ''transaction_id is required for payment processing'')
      else
        bind_io (faulty (rc_check_fault C)
          (on_session (already_processed bind_int sms_transaction_id))) (\<lambda>existing.
        case existing of
          Some p \<Rightarrow> return_io (p, False)
        | None \<Rightarrow>
            bind_io (others (rc_before_lock C)) (\<lambda>_.
            bind_io (faulty (rc_lock_fault C) (on_session (pending_for_amount bind_int amount))) (\<lambda>rows.
            try_io
              (bind_io (lift_io (result_one (Exn NoResultFound ''No row was found'')
                 (Exn MultipleResultsFound ''Multiple rows were found'') rows)) (\<lambda>(p, ord).
               bind_io (lift_io (bound bind_int sms_transaction_id)) (\<lambda>t.
               bind_io (others (rc_after_lock C)) (\<lambda>_.
               bind_io (faulty (rc_flush_fault C) (flush_change (settle (attach_sms t) p))) (\<lambda>_.
               return_io (attach_sms t p, True))))))
              (\<lambda>e. if catches NoResultFound e then
                     raise_io (Exn PaymentIntentNotFoundError ''Payment intent for amount not found'')
                   else if catches MultipleResultsFound e then
                     raise_io (Exn DuplicatePaymentIntentError ''Multiple payment intents found'')
                   else if catches IntegrityError e then
                     raise_io (Exn DuplicatePaymentTransactionError ''SMS was processed concurrently'')
                   else raise_io e)))))"

text \<open>\<open>str(amount)\<close>; the driver binds numbers only, so that no other value gets here.\<close>

fun number_str :: "json \<Rightarrow> string" where
  "number_str (JInt i) = py_str i"
| "number_str (JBool b) = (if b then ''True'' else ''False'')"
| "number_str (JFloat r) = r"
| "number_str _ = ''''"

definition data_get :: "json \<Rightarrow> string \<Rightarrow> exn + json" where
  "data_get data k = (case json_get data k of
      None \<Rightarrow> Inl (Exn AttributeError ''object has no attribute get'') | Some v \<Rightarrow> Inr v)"

text \<open>The body of the handler's \<open>try\<close> once the message has been read.\<close>

definition take_payment :: "'r redis_sets \<Rightarrow> driver \<Rightarrow> race \<Rightarrow> json \<Rightarrow> json
    \<Rightarrow> 'r world \<Rightarrow> (exn + bool) \<times> 'r world" where
  "take_payment R bind_int C amount transaction_id =
     bind_io (process_pending_payment bind_int C amount transaction_id) (\<lambda>(payment, is_new).
     bind_io (commit (rc_commit_fault C)) (\<lambda>_.
     if is_new then
       bind_io (on_redis (smove R ''pending_orders'' ''free_amounts'' (number_str amount))) (\<lambda>_.
       return_io True)
     else return_io True))"

text \<open>Its \<open>except\<close> clauses: each rolls back and raises one of the worker's signals.\<close>

definition payment_failure :: "exn \<Rightarrow> exn" where
  "payment_failure e =
     (if catches DuplicatePaymentTransactionError e then Exn IgnoreAndAckMessage (exn_str e)
      else if catches PaymentIntentNotFoundError e then
        Exn IgnoreAndAckMessage ''amount not found in DB''
      else if catches DuplicatePaymentIntentError e then
        Exn CriticalRejectMessage ''Duplicate amounts found''
      else Exn CriticalRejectMessage (''Unexpected error '' @ exn_str e))"

definition handle_payment :: "'r redis_sets \<Rightarrow> driver \<Rightarrow> race \<Rightarrow> json \<Rightarrow> 'r world \<Rightarrow> (exn + bool) \<times> 'r world"
where
  "handle_payment R bind_int C data =
     get_db
       (try_io
          (bind_io (lift_io (data_get data ''amount'')) (\<lambda>amount.
           bind_io (lift_io (data_get data ''transaction_id'')) (\<lambda>transaction_id.
           take_payment R bind_int C amount transaction_id)))
          (\<lambda>e. bind_io rollback (\<lambda>_. raise_io (payment_failure e))))"

subsection \<open>The confirmation by an administrator\<close>

definition confirmable :: "int \<Rightarrow> int \<Rightarrow> db \<Rightarrow> (payment_intent_row \<times> order_row) list" where
  "confirmable order_id payment_id d = with_order d
     (filter (\<lambda>p. pi_id p = payment_id \<and> pi_order_id p = order_id \<and>
        pi_status p \<in> set [OS_PENDING, OS_FAILED]) (payment_intents d))"

definition handle_pending_payment :: "'r redis_sets \<Rightarrow> race \<Rightarrow> int \<Rightarrow> int
    \<Rightarrow> 'r world \<Rightarrow> (exn + payment_intent_row) \<times> 'r world" where
  "handle_pending_payment R C order_id payment_id =
     bind_io (faulty (rc_lock_fault C) (on_session (\<lambda>d.
       if \<not> int4 order_id \<or> \<not> int4 payment_id then Inl (Exn DBAPIError ''integer out of range'')
       else Inr (confirmable order_id payment_id d)))) (\<lambda>rows.
     try_io
       (bind_io (lift_io (result_one (Exn NoResultFound ''No row was found'')
          (Exn MultipleResultsFound ''Multiple rows were found'') rows)) (\<lambda>(p, ord).
        bind_io (others (rc_after_lock C)) (\<lambda>_.
        bind_io (faulty (rc_flush_fault C) (flush_change (settle set_paid p))) (\<lambda>_.
        bind_io (on_redis (smove R ''pending_orders'' ''free_amounts'' (py_str (pi_exact_amount p)))) (\<lambda>_.
        return_io (set_paid p))))))
       (\<lambda>e. if catches NoResultFound e then
              raise_io (Exn PaymentIntentNotFoundError ''Payment intent for order not found'')
            else raise_io e))"

definition confirm_payment :: "'r redis_sets \<Rightarrow> race \<Rightarrow> int \<Rightarrow> int
    \<Rightarrow> 'r world \<Rightarrow> (exn + payment_intent_row) \<times> 'r world" where
  "confirm_payment R C order_id payment_id =
     get_db
       (try_io
          (bind_io (handle_pending_payment R C order_id payment_id) (\<lambda>update_payment.
           bind_io (commit (rc_commit_fault C)) (\<lambda>_. return_io update_payment)))
          (\<lambda>e. if catches PaymentIntentNotFoundError e then
                 bind_io rollback (\<lambda>_. raise_io (Http 404 (exn_str e)))
               else bind_io rollback (\<lambda>_. raise_io (Http 500 ''''))))"

lemma attach_sms_sel [simp]:
  "pi_sms_transaction_id (attach_sms t p) = Some t" "pi_id (attach_sms t p) = pi_id p"
  "pi_status (attach_sms t p) = OS_PAID" "pi_order_id (attach_sms t p) = pi_order_id p"
  "pi_exact_amount (attach_sms t p) = pi_exact_amount p"
  by (simp_all add: attach_sms_def set_paid_def)

lemma set_paid_sel [simp]:
  "pi_sms_transaction_id (set_paid p) = pi_sms_transaction_id p" "pi_id (set_paid p) = pi_id p"
  "pi_status (set_paid p) = OS_PAID" "pi_order_id (set_paid p) = pi_order_id p"
  "pi_exact_amount (set_paid p) = pi_exact_amount p"
  by (simp_all add: set_paid_def)

subsection \<open>What the updates keep\<close>

interpretation intent_update: keyed_update pi_id "attach_sms t"
  by unfold_locales simp

interpretation confirm_update: keyed_update pi_id set_paid
  by unfold_locales simp

interpretation order_update: keyed_update o_id order_paid
  by unfold_locales (simp add: order_paid_def)

subsection \<open>The outcomes of one run\<close>

lemma bound_Inr [simp]: "bound bind_int v = Inr i \<longleftrightarrow> bind_int v = Some i"
  by (auto simp: bound_def split: option.splits)

lemma with_order_mem [simp]: "(p, ord) \<in> set (with_order d ps) \<longleftrightarrow>
    p \<in> set ps \<and> ord \<in> set (orders d) \<and> o_id ord = pi_order_id p"
  by (auto simp: with_order_def)

lemma pending_for_amount_single:
  assumes "pending_for_amount bind_int amount d = Inr [(p, ord)]"
  obtains i where "bind_int amount = Some i" "p \<in> set (payment_intents d)" "payable i p"
    "ord \<in> set (orders d)" "o_id ord = pi_order_id p"
    "with_order d (filter (payable i) (payment_intents d)) = [(p, ord)]"
proof -
  from assms obtain i where i: "bind_int amount = Some i"
    and rows: "with_order d (filter (payable i) (payment_intents d)) = [(p, ord)]"
    by (auto simp: pending_for_amount_def split: if_splits sum.splits)
  then have "(p, ord) \<in> set (with_order d (filter (payable i) (payment_intents d)))" by simp
  then show ?thesis using that [OF i _ _ _ _ rows] by simp
qed

lemma process_new:
  assumes "process_pending_payment bind_int C amount tid w = (Inr (p', True), w')"
  obtains t p ord where "truthy tid" "bind_int tid = Some t"
    "filter (\<lambda>q. pi_sms_transaction_id q = Some t) (payment_intents (w_session w)) = []"
    "pending_for_amount bind_int amount (rc_before_lock C (w_session w)) = Inr [(p, ord)]"
    "p' = attach_sms t p"
    "w' = w\<lparr>w_committed := rc_after_lock C (rc_before_lock C (w_committed w)),
       w_session := settle (attach_sms t) p (rc_after_lock C (rc_before_lock C (w_session w)))\<rparr>"
    "valid_db (w_session w')"
  using assms
  by (auto simp: process_pending_payment_def io_defs faulty_def already_processed_def
      flush_change_Inr flush_change_Inl split: if_splits option.splits sum.splits prod.splits)

lemma process_old:
  assumes "process_pending_payment bind_int C amount tid w = (Inr (p, False), w')"
  shows "truthy tid \<and> w' = w \<and> (\<exists>t. bind_int tid = Some t \<and>
    filter (\<lambda>q. pi_sms_transaction_id q = Some t) (payment_intents (w_session w)) = [p])"
  using assms
  by (auto simp: process_pending_payment_def io_defs faulty_def already_processed_def
      flush_change_Inr flush_change_Inl split: if_splits option.splits sum.splits prod.splits)

lemma process_Inl:
  assumes "process_pending_payment bind_int C amount tid w = (Inl e, w')"
  shows "\<exists>f \<in> {id, rc_before_lock C, rc_after_lock C \<circ> rc_before_lock C}.
    w' = w\<lparr>w_committed := f (w_committed w), w_session := f (w_session w)\<rparr>"
  using assms
  by (auto simp: process_pending_payment_def io_defs faulty_def flush_change_Inr flush_change_Inl
      split: if_splits option.splits sum.splits prod.splits)

text \<open>The value of a nullable unique column identifies its row.\<close>

lemma filter_non_null:
  assumes "distinct (non_nulls f xs)" and "x \<in> set xs" and "f x = Some t"
  shows "filter (\<lambda>q. f q = Some t) xs = [x]"
  using assms
proof (induction xs)
  case (Cons y ys)
  show ?case
  proof (cases "y = x")
    case True
    with Cons.prems have "t \<notin> set (non_nulls f ys)" by (simp add: non_nulls_def)
    then have "filter (\<lambda>q. f q = Some t) ys = []"
      by (auto simp: non_nulls_def filter_empty_conv List.map_filter_def image_iff)
    with True Cons.prems show ?thesis by simp
  next
    case False
    then have x: "x \<in> set ys" using Cons.prems by simp
    then have "t \<in> set (non_nulls f ys)"
      using Cons.prems(3) by (force simp: non_nulls_def List.map_filter_def)
    with Cons.prems have "f y \<noteq> Some t" by (auto simp: non_nulls_def)
    with Cons x show ?thesis by (auto simp: non_nulls_def split: option.splits)
  qed
qed simp

lemma intent_of_sms:
  assumes "valid_db d" and "p \<in> set (payment_intents d)" and "pi_sms_transaction_id p = Some t"
  shows "filter (\<lambda>q. pi_sms_transaction_id q = Some t) (payment_intents d) = [p]"
  using assms filter_non_null [of pi_sms_transaction_id "payment_intents d" p t]
  by (simp add: valid_db_def integrity_def uq_sms_transaction_id_def)

lemma settled_intent:
  "p \<in> set (payment_intents d) \<Longrightarrow> f p \<in> set (payment_intents (settle f p d))"
  by (auto simp: settle_def set_update_where)

text \<open>\<open>idx_pending_price\<close> makes the locking query return at most one row.\<close>

lemma with_order_unique:
  assumes "valid_db d" and "p \<in> set (payment_intents d)"
  shows "\<exists>ord. filter (\<lambda>ord. o_id ord = pi_order_id p) (orders d) = [ord]"
proof -
  from assms obtain ord where "ord \<in> set (orders d)" "o_id ord = pi_order_id p"
    by (auto simp: valid_db_def integrity_def foreign_keys_def list_all_iff)
  with assms(1) filter_unique [of o_id "\<lambda>_. True" "orders d" ord] show ?thesis
    by (auto simp: valid_db_def integrity_def primary_keys_def)
qed

lemma pending_for_amount_valid:
  assumes "valid_db d" and "bind_int amount = Some i" and "amount \<noteq> JNull"
  shows "pending_for_amount bind_int amount d = Inr [] \<and>
      (\<forall>p \<in> set (payment_intents d). \<not> payable i p)
    \<or> (\<exists>p ord. pending_for_amount bind_int amount d = Inr [(p, ord)])"
proof (cases "filter (payable i) (payment_intents d)")
  case Nil
  with assms show ?thesis
    by (auto simp: pending_for_amount_def bound_def with_order_def filter_empty_conv)
next
  case (Cons p ps)
  have "p \<in> set (filter (payable i) (payment_intents d))" by (simp add: Cons)
  then have p: "p \<in> set (payment_intents d)" "payable i p" by simp_all
  have "filter (\<lambda>q. pending q \<and> pi_exact_amount q = pi_exact_amount p) (payment_intents d) = [p]"
    using assms(1) p unfolding pending_def [abs_def] by (intro filter_unique)
      (simp_all add: valid_db_def integrity_def idx_pending_price_def payable_def pending_def [abs_def])
  moreover have "(\<lambda>q. pending q \<and> pi_exact_amount q = pi_exact_amount p) = payable i"
    using p by (auto simp: payable_def pending_def)
  ultimately have "filter (payable i) (payment_intents d) = [p]" by simp
  with assms with_order_unique [OF assms(1) p(1)] show ?thesis
    by (auto simp: pending_for_amount_def bound_def with_order_def)
qed

end
