(* ===== verification/Redis_Streams.thy ===== *)
theory Redis_Streams
  imports Redis_Sets "HOL-Library.AList"
begin

text \<open>
  The stream commands of the Redis client, as a record of commands with two observations:
  \<open>entries\<close>, the entries of a stream in order, and \<open>pel\<close>, the pending entries list of a consumer
  group with the number of deliveries of each entry. \<open>redis_stream_server\<close> states the documented
  effect of the commands; a command that raised may or may not have been executed.
\<close>

record pending_entry =
  pe_message_id :: string
  pe_consumer :: string
  pe_time_since_delivered :: int
  pe_times_delivered :: nat

type_synonym stream_entry = "string \<times> fields"

record 'r redis_streams =
  entries :: "'r \<Rightarrow> string \<Rightarrow> stream_entry list"
  pel :: "'r \<Rightarrow> string \<Rightarrow> string \<Rightarrow> string \<Rightarrow> nat option"
  xadd :: "string \<Rightarrow> fields \<Rightarrow> nat option \<Rightarrow> 'r \<Rightarrow> (exn + string) \<times> 'r"
  xgroup_create :: "string \<Rightarrow> string \<Rightarrow> 'r \<Rightarrow> (exn + unit) \<times> 'r"
  xreadgroup :: "string \<Rightarrow> string \<Rightarrow> string \<Rightarrow> nat \<Rightarrow> 'r \<Rightarrow> (exn + (string \<times> stream_entry list) list) \<times> 'r"
  xack :: "string \<Rightarrow> string \<Rightarrow> string list \<Rightarrow> 'r \<Rightarrow> (exn + int) \<times> 'r"
  xpending_range :: "string \<Rightarrow> string \<Rightarrow> nat \<Rightarrow> 'r \<Rightarrow> (exn + pending_entry list) \<times> 'r"
  xclaim :: "string \<Rightarrow> string \<Rightarrow> string \<Rightarrow> int \<Rightarrow> string \<Rightarrow> 'r \<Rightarrow> (exn + stream_entry list) \<times> 'r"
  xrange :: "string \<Rightarrow> string \<Rightarrow> string \<Rightarrow> nat option \<Rightarrow> 'r \<Rightarrow> (exn + stream_entry list) \<times> 'r"
  xadd_xdel :: "string \<Rightarrow> fields \<Rightarrow> nat option \<Rightarrow> string \<Rightarrow> string \<Rightarrow> 'r \<Rightarrow> (exn + string \<times> int) \<times> 'r"

subsection \<open>The documented effects\<close>

text \<open>
  \<open>XADD s MAXLEN ~ n * fs\<close> appends an entry with a new id; it may then drop old entries, but at
  least \<open>n\<close> entries remain, the new one among them.
\<close>

definition appended :: "string \<Rightarrow> fields \<Rightarrow> nat option \<Rightarrow> string
    \<Rightarrow> (string \<Rightarrow> stream_entry list) \<Rightarrow> (string \<Rightarrow> stream_entry list) \<Rightarrow> bool" where
  "appended s fs n i E E' \<longleftrightarrow> i \<notin> fst ` set (E s) \<and>
     (\<exists>k. E' = E(s := drop k (E s) @ [(i, fs)]) \<and>
       (k = 0 \<or> (\<exists>m. n = Some m \<and> m \<le> Suc (length (E s) - k))))"

definition acked :: "string \<Rightarrow> string \<Rightarrow> string list
    \<Rightarrow> (string \<Rightarrow> string \<Rightarrow> string \<Rightarrow> nat option) \<Rightarrow> (string \<Rightarrow> string \<Rightarrow> string \<Rightarrow> nat option)" where
  "acked s g is P = P(s := (P s)(g := (\<lambda>i. if i \<in> set is then None else P s g i)))"

text \<open>The entries of a list were delivered for the first time, or once more.\<close>

definition first_delivery :: "string \<Rightarrow> string \<Rightarrow> string set
    \<Rightarrow> (string \<Rightarrow> string \<Rightarrow> string \<Rightarrow> nat option) \<Rightarrow> (string \<Rightarrow> string \<Rightarrow> string \<Rightarrow> nat option)" where
  "first_delivery s g is P = P(s := (P s)(g := (\<lambda>i. if i \<in> is then Some 1 else P s g i)))"

definition redelivered :: "string \<Rightarrow> string \<Rightarrow> string
    \<Rightarrow> (string \<Rightarrow> string \<Rightarrow> string \<Rightarrow> nat option) \<Rightarrow> (string \<Rightarrow> string \<Rightarrow> string \<Rightarrow> nat option)" where
  "redelivered s g i P = P(s := (P s)(g := (P s g)(i := map_option Suc (P s g i))))"

lemma acked_iff: "acked s g is P s' g' i = (if s' = s \<and> g' = g \<and> i \<in> set is then None else P s' g' i)"
  by (simp add: acked_def)

lemma appended_mem: "appended s fs n i E E' \<Longrightarrow> (i, fs) \<in> set (E' s)"
  by (auto simp: appended_def)

lemma appended_other: "appended s fs n i E E' \<Longrightarrow> s' \<noteq> s \<Longrightarrow> E' s' = E s'"
  by (auto simp: appended_def)

text \<open>
  \<open>XDEL s i\<close> deletes the entry whose id \<open>i\<close> is; another text may stand for an id as well (Redis
  completes one that has no sequence number), so it deletes at most one entry.
\<close>

definition deleted :: "string \<Rightarrow> string \<Rightarrow> (string \<Rightarrow> stream_entry list) \<Rightarrow> (string \<Rightarrow> stream_entry list) \<Rightarrow> bool" where
  "deleted s i E E' \<longleftrightarrow> (\<exists>x. E' = E(s := filter (\<lambda>e. fst e \<noteq> x) (E s)) \<and> (i \<in> fst ` set (E s) \<longrightarrow> x = i))"

locale redis_stream_server =
  fixes S :: "'r redis_streams"
  assumes xadd_Inr: "xadd S s fs n r = (Inr i, r') \<Longrightarrow>
      appended s fs n i (entries S r) (entries S r') \<and> pel S r' = pel S r"
    and xadd_Inl: "xadd S s fs n r = (Inl e, r') \<Longrightarrow> catches RedisError e \<and> pel S r' = pel S r \<and>
      (entries S r' = entries S r \<or> (\<exists>i. appended s fs n i (entries S r) (entries S r')))"
    and xack_Inr: "xack S s g is r = (Inr k, r') \<Longrightarrow>
      entries S r' = entries S r \<and> pel S r' = acked s g is (pel S r)"
    and xack_Inl: "xack S s g is r = (Inl e, r') \<Longrightarrow> catches RedisError e \<and>
      entries S r' = entries S r \<and> (pel S r' = pel S r \<or> pel S r' = acked s g is (pel S r))"
    and xreadgroup_Inr: "xreadgroup S g c s cnt r = (Inr res, r') \<Longrightarrow>
      entries S r' = entries S r \<and>
      (\<forall>(s', es) \<in> set res. s' = s \<and> (\<forall>(i, fs) \<in> set es. (i, fs) \<in> set (entries S r s) \<and>
         pel S r s g i = None)) \<and>
      length (concat (map snd res)) \<le> cnt \<and> distinct (map fst (concat (map snd res))) \<and>
      pel S r' = first_delivery s g (fst ` set (concat (map snd res))) (pel S r)"
    and xreadgroup_Inl: "xreadgroup S g c s cnt r = (Inl e, r') \<Longrightarrow> catches RedisError e \<and>
      entries S r' = entries S r \<and>
      (\<exists>is. (\<forall>i \<in> is. pel S r s g i = None) \<and> pel S r' = first_delivery s g is (pel S r))"
    and xpending_range_same: "xpending_range S s g cnt r = (pending_reply, r') \<Longrightarrow>
      entries S r' = entries S r \<and> pel S r' = pel S r"
    and xpending_range_Inr: "xpending_range S s g cnt r = (Inr ps, r') \<Longrightarrow>
      length ps \<le> cnt \<and> distinct (map pe_message_id ps) \<and>
      (\<forall>p \<in> set ps. pel S r s g (pe_message_id p) = Some (pe_times_delivered p))"
    and xclaim_Inr: "xclaim S s g c t i r = (Inr es, r') \<Longrightarrow> entries S r' = entries S r \<and>
      ((\<exists>fs. es = [(i, fs)] \<and> (i, fs) \<in> set (entries S r s) \<and>
          pel S r' = redelivered s g i (pel S r)) \<or>
       (es = [] \<and> (pel S r' = pel S r \<or>
          (i \<notin> fst ` set (entries S r s) \<and> pel S r' = acked s g [i] (pel S r)))))"
    and xclaim_Inl: "xclaim S s g c t i r = (Inl e, r') \<Longrightarrow> catches RedisError e \<and>
      entries S r' = entries S r \<and> (pel S r' = pel S r \<or> pel S r' = redelivered s g i (pel S r) \<or>
        (i \<notin> fst ` set (entries S r s) \<and> pel S r' = acked s g [i] (pel S r)))"
    and xgroup_create_Inr: "xgroup_create S s g r = (Inr (), r') \<Longrightarrow> entries S r' = entries S r \<and>
      pel S r' = pel S r"
    and xgroup_create_Inl: "xgroup_create S s g r = (Inl e, r') \<Longrightarrow> catches RedisError e \<and>
      entries S r' = entries S r \<and> pel S r' = pel S r"
    and xrange_same: "xrange S s lo hi n r = (range_reply, r') \<Longrightarrow>
      entries S r' = entries S r \<and> pel S r' = pel S r"
    and xrange_Inr: "xrange S s lo hi n r = (Inr es, r') \<Longrightarrow> set es \<subseteq> set (entries S r s) \<and>
      (case n of None \<Rightarrow> True | Some k \<Rightarrow> length es \<le> k)"
    and xrange_id: "xrange S s i i None r = (Inr es, r') \<Longrightarrow> i \<in> fst ` set (entries S r s) \<Longrightarrow>
      es = filter (\<lambda>e. fst e = i) (entries S r s)"
    and xadd_xdel_Inr: "xadd_xdel S s fs n s' i' r = (Inr (i, k), r') \<Longrightarrow> s' \<noteq> s \<Longrightarrow>
      pel S r' = pel S r \<and> (\<exists>E. appended s fs n i (entries S r) E \<and> deleted s' i' E (entries S r'))"
    and xadd_xdel_Inl: "xadd_xdel S s fs n s' i' r = (Inl e, r') \<Longrightarrow> s' \<noteq> s \<Longrightarrow>
      catches RedisError e \<and> pel S r' = pel S r \<and>
      (entries S r' = entries S r \<or> (\<exists>i E. appended s fs n i (entries S r) E \<and>
        deleted s' i' E (entries S r')))"
    and xrange_start: "xrange S s ''-'' ''+'' (Some cnt) r = (Inr es, r') \<Longrightarrow> es = take cnt (entries S r s)"
    and xrange_after: "xrange S s (''('' @ i) ''+'' (Some cnt) r = (Inr es, r') \<Longrightarrow>
      entries S r s = xs @ (i, fs) # ys \<Longrightarrow> i \<notin> fst ` set xs \<Longrightarrow> es = take cnt ys"

text \<open>States from which the commands of a run do not raise.\<close>

locale reliable_stream_server = redis_stream_server S
  for S :: "'r redis_streams" +
  fixes up :: "'r \<Rightarrow> bool"
  assumes xadd_up: "up r \<Longrightarrow> \<exists>i r'. xadd S s fs n r = (Inr i, r') \<and> up r'"
    and xack_up: "up r \<Longrightarrow> \<exists>k r'. xack S s g is r = (Inr k, r') \<and> up r'"
    and xrange_up: "up r \<Longrightarrow> lo = ''-'' \<or> (\<exists>i \<in> fst ` set (entries S r s). lo = ''('' @ i) \<Longrightarrow>
      \<exists>es r'. xrange S s lo ''+'' n r = (Inr es, r') \<and> up r'"

subsection \<open>The reference server\<close>

definition ref_stream :: "string \<Rightarrow> stream_entry list \<Rightarrow> ref_state \<Rightarrow> ref_state" where
  "ref_stream s es r = r\<lparr>rs_streams := (rs_streams r)(s := es)\<rparr>"

definition ref_set_pel :: "string \<Rightarrow> string \<Rightarrow> (string \<times> nat) list \<Rightarrow> ref_state \<Rightarrow> ref_state" where
  "ref_set_pel s g ps r = r\<lparr>rs_pel := (rs_pel r)(s := (rs_pel r s)(g := ps))\<rparr>"

text \<open>Entry ids count up; an id that is in the stream already is skipped.\<close>

definition ref_new_id :: "ref_state \<Rightarrow> string \<Rightarrow> nat" where
  "ref_new_id r s = Suc (Max (insert (rs_next_id r) ((\<lambda>e. case py_int (fst e) of
     Some i \<Rightarrow> nat i | None \<Rightarrow> 0) ` set (rs_streams r s))))"

definition ref_xadd :: "string \<Rightarrow> fields \<Rightarrow> ref_state \<Rightarrow> string \<times> ref_state" where
  "ref_xadd s fs r = (let i = ref_new_id r s in
     (py_str (int i), (ref_stream s (rs_streams r s @ [(py_str (int i), fs)]) r)\<lparr>rs_next_id := i\<rparr>))"

definition ref_fresh :: "string \<Rightarrow> string \<Rightarrow> nat \<Rightarrow> ref_state \<Rightarrow> stream_entry list" where
  "ref_fresh g s n r = take n (filter (\<lambda>e. fst e \<notin> set (rs_delivered r s g) \<and>
     map_of (rs_pel r s g) (fst e) = None) (rs_streams r s))"

definition ref_xread :: "string \<Rightarrow> string \<Rightarrow> nat \<Rightarrow> ref_state
    \<Rightarrow> (string \<times> stream_entry list) list \<times> ref_state" where
  "ref_xread g s n r =
     (let fresh = ref_fresh g s n r; ids = map fst fresh
      in if fresh = [] \<or> \<not> distinct ids then ([], r)
         else ([(s, fresh)], (ref_set_pel s g (rs_pel r s g @ map (\<lambda>i. (i, 1)) ids) r)
                \<lparr>rs_delivered := (rs_delivered r)(s := (rs_delivered r s)(g := ids @ rs_delivered r s g))\<rparr>))"

definition ref_xack :: "string \<Rightarrow> string \<Rightarrow> string list \<Rightarrow> ref_state \<Rightarrow> int \<times> ref_state" where
  "ref_xack s g is r =
     (int (length (filter (\<lambda>p. fst p \<in> set is) (rs_pel r s g))),
      ref_set_pel s g (filter (\<lambda>p. fst p \<notin> set is) (rs_pel r s g)) r)"

definition ref_xpending :: "string \<Rightarrow> string \<Rightarrow> nat \<Rightarrow> ref_state \<Rightarrow> pending_entry list \<times> ref_state" where
  "ref_xpending s g n r =
     (let ps = take n (rs_pel r s g)
      in (if distinct (map fst (rs_pel r s g)) then
            map (\<lambda>(i, k). \<lparr>pe_message_id = i, pe_consumer = ''worker'',
              pe_time_since_delivered = rs_idle r, pe_times_delivered = k\<rparr>) ps
          else [], r))"

definition ref_xclaim :: "string \<Rightarrow> string \<Rightarrow> string \<Rightarrow> ref_state \<Rightarrow> stream_entry list \<times> ref_state" where
  "ref_xclaim s g i r =
     (case (map_of (rs_streams r s) i, map_of (rs_pel r s g) i) of
        (Some fs, Some k) \<Rightarrow> ([(i, fs)], ref_set_pel s g (AList.update i (Suc k) (rs_pel r s g)) r)
      | _ \<Rightarrow> ([], r))"

text \<open>
  An id that is in no entry is completed as Redis completes a number of milliseconds: a range from
  it to itself has all its sequence numbers, and a deletion takes the sequence number 0.
\<close>

definition ref_at :: "string \<Rightarrow> stream_entry list \<Rightarrow> stream_entry list" where
  "ref_at i es = (case filter (\<lambda>e. fst e = i) es of
      [] \<Rightarrow> filter (\<lambda>e. take (Suc (length i)) (fst e) = i @ ''-'') es
    | found \<Rightarrow> found)"

definition ref_xdel :: "string \<Rightarrow> stream_entry list \<Rightarrow> stream_entry list" where
  "ref_xdel i es = (case filter (\<lambda>e. fst e = i) es of
      [] \<Rightarrow> filter (\<lambda>e. fst e \<noteq> i @ ''-0'') es
    | _ \<Rightarrow> filter (\<lambda>e. fst e \<noteq> i) es)"

definition ref_xrange :: "string \<Rightarrow> string \<Rightarrow> nat option \<Rightarrow> stream_entry list \<Rightarrow> stream_entry list" where
  "ref_xrange lo hi n es =
     (let found = if lo = hi then ref_at lo es
                  else if take 1 lo = ''('' then drop 1 (dropWhile (\<lambda>e. fst e \<noteq> drop 1 lo) es)
                  else es
      in case n of None \<Rightarrow> found | Some k \<Rightarrow> take k found)"

definition ref_pel :: "ref_state \<Rightarrow> string \<Rightarrow> string \<Rightarrow> string \<Rightarrow> nat option" where
  "ref_pel r s g = map_of (rs_pel r s g)"

definition ref_streams :: "ref_state redis_streams" where
  "ref_streams = \<lparr>
     entries = rs_streams,
     pel = ref_pel,
     xadd = (\<lambda>s fs n. ref_cmd (ref_xadd s fs)),
     xgroup_create = (\<lambda>s g. ref_cmd (\<lambda>r. ((), r))),
     xreadgroup = (\<lambda>g c s n. ref_cmd (ref_xread g s n)),
     xack = (\<lambda>s g is. ref_cmd (ref_xack s g is)),
     xpending_range = (\<lambda>s g n. ref_cmd (ref_xpending s g n)),
     xclaim = (\<lambda>s g c t i. ref_cmd (ref_xclaim s g i)),
     xrange = (\<lambda>s lo hi n. ref_cmd (\<lambda>r.
       (ref_xrange lo hi n (rs_streams r s), r))),
     xadd_xdel = (\<lambda>s fs n s' i. ref_cmd (\<lambda>r. case ref_xadd s fs r of
       (j, r1) \<Rightarrow> ((j, 1), ref_stream s' (ref_xdel i (rs_streams r1 s')) r1)))\<rparr>"

lemma ref_cmd_run: "ref_cmd f r = (Inr y, r') \<Longrightarrow>
    \<exists>r1. f r = (y, r1) \<and> rs_streams r' = rs_streams r1 \<and> ref_pel r' = ref_pel r1"
  by (auto simp: ref_cmd_Inr ref_pel_def fun_eq_iff)

lemma ref_cmd_raised: "ref_cmd f r = (Inl e, r') \<Longrightarrow>
    catches RedisError e \<and> rs_streams r' = rs_streams r \<and> ref_pel r' = ref_pel r"
  by (auto simp: ref_cmd_Inl ref_pel_def fun_eq_iff)

lemma ref_cmd_same:
  "ref_cmd f r = (x, r') \<Longrightarrow> (\<And>r. rs_streams (snd (f r)) = rs_streams r \<and> ref_pel (snd (f r)) = ref_pel r) \<Longrightarrow>
   rs_streams r' = rs_streams r \<and> ref_pel r' = ref_pel r"
  by (cases x) (metis ref_cmd_raised, metis ref_cmd_run snd_conv)

lemma ref_new_id_fresh: "py_str (int (ref_new_id r s)) \<notin> fst ` set (rs_streams r s)"
proof
  let ?f = "\<lambda>e :: stream_entry. case py_int (fst e) of Some i \<Rightarrow> nat i | None \<Rightarrow> 0"
  let ?M = "insert (rs_next_id r) (?f ` set (rs_streams r s))"
  assume "py_str (int (ref_new_id r s)) \<in> fst ` set (rs_streams r s)"
  then obtain e where e: "e \<in> set (rs_streams r s)" "fst e = py_str (int (ref_new_id r s))" by auto
  then have "?f e = ref_new_id r s" by simp
  moreover have "?f e \<le> Max ?M" using e(1) by (intro Max_ge) auto
  ultimately show False by (simp add: ref_new_id_def)
qed

lemma map_of_keep: "map_of (filter (\<lambda>p. fst p \<notin> A) xs) i = (if i \<in> A then None else map_of xs i)"
  by (induction xs) auto

lemma ref_stream_sel [simp]: "rs_streams (ref_stream s es r) = (rs_streams r)(s := es)"
  "ref_pel (ref_stream s es r) = ref_pel r"
  by (simp_all add: ref_stream_def ref_pel_def fun_eq_iff)

lemma ref_set_pel_sel [simp]: "rs_streams (ref_set_pel s g ps r) = rs_streams r"
  "ref_pel (ref_set_pel s g ps r) = (ref_pel r)(s := (ref_pel r s)(g := map_of ps))"
  by (auto simp: ref_set_pel_def ref_pel_def fun_eq_iff)

lemma map_of_rs_pel: "map_of (rs_pel r s g) = ref_pel r s g"
  by (simp add: ref_pel_def)

lemma ref_keep_sel [simp]: "ref_pel (r\<lparr>rs_next_id := n\<rparr>) = ref_pel r"
  "ref_pel (r\<lparr>rs_delivered := d\<rparr>) = ref_pel r"
  by (simp_all add: ref_pel_def fun_eq_iff)

lemma ref_xadd_appended: "ref_xadd s fs r = (i, r1) \<Longrightarrow>
    appended s fs n i (rs_streams r) (rs_streams r1) \<and> ref_pel r1 = ref_pel r"
  using ref_new_id_fresh [of r s]
  by (auto simp: ref_xadd_def Let_def appended_def intro: exI [of _ 0])

lemma ref_xack_acked: "ref_xack s g is r = (k, r1) \<Longrightarrow>
    rs_streams r1 = rs_streams r \<and> ref_pel r1 = acked s g is (ref_pel r)"
  by (auto simp: ref_xack_def acked_def fun_eq_iff map_of_keep map_of_rs_pel)

lemma ref_fresh_mem: "e \<in> set (ref_fresh g s n r) \<Longrightarrow>
    e \<in> set (rs_streams r s) \<and> ref_pel r s g (fst e) = None"
  by (auto simp: ref_fresh_def ref_pel_def dest!: in_set_takeD)

lemma map_of_once: "map_of (map (\<lambda>i. (i, Suc 0)) is) i = (if i \<in> set is then Some (Suc 0) else None)"
  by (induction "is") auto

lemma ref_pel_first:
  "\<forall>i \<in> set is. ref_pel r s g i = None \<Longrightarrow>
   ref_pel (ref_set_pel s g (rs_pel r s g @ map (\<lambda>i. (i, 1)) is) r) = first_delivery s g (set is) (ref_pel r)"
  by (auto simp: first_delivery_def fun_eq_iff map_add_def map_of_once map_of_rs_pel split: option.splits)

lemma ref_xread_first:
  assumes "ref_xread g s n r = (res, r1)"
  shows "rs_streams r1 = rs_streams r \<and>
    (\<forall>(s', es) \<in> set res. s' = s \<and> (\<forall>(i, fs) \<in> set es. (i, fs) \<in> set (rs_streams r s) \<and>
       ref_pel r s g i = None)) \<and>
    length (concat (map snd res)) \<le> n \<and> distinct (map fst (concat (map snd res))) \<and>
    ref_pel r1 = first_delivery s g (fst ` set (concat (map snd res))) (ref_pel r)"
proof (cases "ref_fresh g s n r = [] \<or> \<not> distinct (map fst (ref_fresh g s n r))")
  case True
  with assms show ?thesis by (auto simp: ref_xread_def Let_def first_delivery_def)
next
  case False
  let ?ids = "map fst (ref_fresh g s n r)"
  from False assms have "res = [(s, ref_fresh g s n r)]"
    and r1: "rs_streams r1 = rs_streams r"
      "ref_pel r1 = ref_pel (ref_set_pel s g (rs_pel r s g @ map (\<lambda>i. (i, 1)) ?ids) r)"
    by (auto simp: ref_xread_def Let_def)
  moreover have "ref_pel r1 = first_delivery s g (set ?ids) (ref_pel r)"
    using ref_fresh_mem unfolding r1(2) by (intro ref_pel_first) auto
  moreover have "length (ref_fresh g s n r) \<le> n" by (simp add: ref_fresh_def)
  ultimately show ?thesis using False ref_fresh_mem by fastforce
qed

lemma ref_xclaim_cases:
  assumes "ref_xclaim s g i r = (es, r1)"
  shows "rs_streams r1 = rs_streams r \<and>
    ((\<exists>fs. es = [(i, fs)] \<and> (i, fs) \<in> set (rs_streams r s) \<and>
        ref_pel r1 = redelivered s g i (ref_pel r)) \<or>
     (es = [] \<and> r1 = r))"
  using assms
  by (auto simp: ref_xclaim_def redelivered_def fun_eq_iff AList.update_conv' map_of_rs_pel
      dest: map_of_SomeD split: option.splits)

lemma ref_xpending_reply: "ref_xpending s g n r = (ps, r1) \<Longrightarrow> r1 = r \<and>
    length ps \<le> n \<and> distinct (map pe_message_id ps) \<and>
    (\<forall>p \<in> set ps. ref_pel r s g (pe_message_id p) = Some (pe_times_delivered p))"
  by (auto simp: ref_xpending_def Let_def case_prod_unfold comp_def distinct_take
      simp flip: take_map map_of_rs_pel dest!: in_set_takeD split: if_splits)

lemma ref_at_sub: "set (ref_at i es) \<subseteq> set es"
  by (auto simp: ref_at_def dest!: sym [of "filter _ _"] split: list.splits)
    (metis (mono_tags, lifting) filter_is_subset list.set_intros subset_iff)+

lemma ref_at_id: "i \<in> fst ` set es \<Longrightarrow> ref_at i es = filter (\<lambda>e. fst e = i) es"
  by (auto simp: ref_at_def filter_empty_conv split: list.splits)

lemma ref_xdel_deleted: "deleted s i E (E(s := ref_xdel i (E s)))"
  by (auto simp: deleted_def ref_xdel_def filter_empty_conv split: list.splits)

lemma ref_xrange_sub: "set (ref_xrange lo hi n es) \<subseteq> set es"
  using ref_at_sub
  by (auto simp: ref_xrange_def Let_def dest!: in_set_takeD in_set_dropD dest: set_dropWhileD
      split: option.splits if_splits)

lemma ref_xrange_length: "n = Some k \<Longrightarrow> length (ref_xrange lo hi n es) \<le> k"
  by (simp add: ref_xrange_def)

lemma dropWhile_key:
  "i \<notin> fst ` set xs \<Longrightarrow> dropWhile (\<lambda>e. fst e \<noteq> i) (xs @ (i, fs) # ys) = (i, fs) # ys"
  by (induction xs) auto

lemma ref_xrange_after:
  "i \<notin> fst ` set xs \<Longrightarrow> ref_xrange (CHR ''('' # i) ''+'' (Some k) (xs @ (i, fs) # ys) = take k ys"
  by (auto simp: ref_xrange_def dropWhile_key)

lemma first_delivery_none: "P = first_delivery s g {} P"
  by (simp add: first_delivery_def fun_eq_iff)

interpretation ref: redis_stream_server ref_streams
proof (unfold_locales, goal_cases)
  case (1 s fs n r i r')
  then show ?case by (auto simp: ref_streams_def dest!: ref_cmd_run ref_xadd_appended)
next
  case (5 g c s cnt r res r')
  then obtain r1 where "ref_xread g s cnt r = (res, r1)" "rs_streams r' = rs_streams r1"
    "ref_pel r' = ref_pel r1" by (auto simp: ref_streams_def dest: ref_cmd_run)
  with ref_xread_first [of g s cnt r res r1] show ?case by (simp add: ref_streams_def)
next
  case (6 g c s cnt r e r')
  then have "catches RedisError e" "rs_streams r' = rs_streams r" "ref_pel r' = ref_pel r"
    by (auto simp: ref_streams_def dest: ref_cmd_raised)
  then show ?case
    using first_delivery_none [of "ref_pel r" s g] by (auto simp: ref_streams_def)
next
  case (7 s g cnt r reply r')
  have "rs_streams (snd (ref_xpending s g cnt r)) = rs_streams r \<and>
      ref_pel (snd (ref_xpending s g cnt r)) = ref_pel r" for r
    using ref_xpending_reply [of s g cnt r] by (metis prod.collapse)
  with 7 show ?case by (simp add: ref_streams_def) (metis (no_types, lifting) ref_cmd_same)
next
  case (14 s lo hi n r es r')
  then have "es = ref_xrange lo hi n (rs_streams r s)" by (auto simp: ref_streams_def dest!: ref_cmd_run)
  with ref_xrange_sub [of lo hi n] ref_xrange_length [of n] show ?case
    by (auto simp: ref_streams_def split: option.splits)
next
  case (15 s i r es r')
  then have "es = ref_at i (rs_streams r s)"
    by (auto simp: ref_streams_def ref_xrange_def dest!: ref_cmd_run)
  with 15(2) show ?case by (simp add: ref_streams_def ref_at_id)
next
  case (18 s k r es r')
  then show ?case by (auto simp: ref_streams_def ref_xrange_def dest!: ref_cmd_run)
next
  case (19 s i k r es r' xs fs ys)
  then have "es = ref_xrange (''('' @ i) ''+'' (Some k) (rs_streams r s)"
    by (auto simp: ref_streams_def dest!: ref_cmd_run)
  with 19 show ?case by (simp add: ref_streams_def ref_xrange_after)
next
  case (13 s lo hi n r reply r')
  then show ?case by (auto simp: ref_streams_def dest!: ref_cmd_same)
next
  case (16 s fs n s' i' r i k r')
  then obtain r1 where "ref_xadd s fs r = (i, r1)"
    "rs_streams r' = (rs_streams r1)(s' := ref_xdel i' (rs_streams r1 s'))"
    "ref_pel r' = ref_pel r1"
    by (auto simp: ref_streams_def dest!: ref_cmd_run split: prod.splits)
  with ref_xadd_appended [of s fs r i r1 n] ref_xdel_deleted [of s' i' "rs_streams r1"] show ?case
    by (auto simp: ref_streams_def)
qed (auto simp: ref_streams_def dest!: ref_cmd_run ref_cmd_raised ref_xack_acked ref_xclaim_cases
       ref_xpending_reply)

interpretation ref: reliable_stream_server ref_streams ref_up
  by unfold_locales
    (auto simp: ref_streams_def ref_up_def ref_cmd_def ref_xadd_def ref_xack_def Let_def
       ref_stream_def ref_set_pel_def)

end
