(* ===== verification/Json_Roundtrip.thy ===== *)
theory Json_Roundtrip
  imports Json
begin

text \<open>\<open>loads\<close> reads back what \<open>dumps\<close> wrote.\<close>

subsection \<open>Strings\<close>

text \<open>A Unicode scalar value: a code point that is not a surrogate.\<close>

definition scalar :: "nat \<Rightarrow> bool" where
  "scalar c = (c < 1114112 \<and> \<not> (55296 \<le> c \<and> c \<le> 57343))"

lemma char_code_small: "(of_char c :: nat) < 256"
  by (cases c) simp

lemma scalar_lit [simp]: "list_all scalar (lit s)"
proof -
  have "scalar (of_char c)" for c :: char
    using char_code_small [of c] unfolding scalar_def by linarith
  then show ?thesis by (simp add: lit_def list_all_iff)
qed

lemma hex_value_digit [simp]: "d < 16 \<Longrightarrow> hex_value (hex_digit d) = Some d"
  by (simp add: hex_value_def hex_digit_def)

lemma hex4_value: "n < 65536 \<Longrightarrow>
    4096 * (n div 4096 mod 16) + 256 * (n div 256 mod 16) + 16 * (n div 16 mod 16) + n mod 16 = (n :: nat)"
proof -
  assume "n < 65536"
  define a b where "a = n div 16" and "b = a div 16"
  have n: "n = 16 * a + n mod 16" and a: "a = 16 * b + a mod 16" and b: "b = 16 * (b div 16) + b mod 16"
    by (simp_all add: a_def b_def)
  have "n div 256 = b" "n div 4096 = b div 16" by (simp_all add: a_def b_def flip: div_mult2_eq)
  moreover have "b div 16 < 16" using \<open>n < 65536\<close> n a b by linarith
  moreover have "4096 * (b div 16) + 256 * (b mod 16) + 16 * (a mod 16) + n mod 16 = n"
    using n a b by linarith
  ultimately show ?thesis by (simp flip: a_def)
qed

lemma read_hex4_hex4 [simp]: "n < 65536 \<Longrightarrow> read_hex4 (hex4 n @ s) = Some (n, s)"
  using hex4_value [of n] by (simp add: hex4_def)

lemma read_unicode_bmp:
  "n < 65536 \<Longrightarrow> scalar n \<Longrightarrow> read_unicode (hex4 n @ s) = Some (n, s)"
  by (auto simp: read_unicode_def scalar_def)

lemma surrogate_value:
  "65536 \<le> c \<Longrightarrow> c < 1114112 \<Longrightarrow>
   65536 + (c - 65536) div 1024 mod 1024 * 1024 + (c - 65536) mod 1024 = (c :: nat)"
proof -
  assume c: "65536 \<le> c" "c < 1114112"
  have "c - 65536 = (c - 65536) div 1024 * 1024 + (c - 65536) mod 1024" by simp
  moreover from this c have "(c - 65536) div 1024 < 1024" by linarith
  ultimately show ?thesis using c by simp
qed

lemma read_unicode_pair:
  assumes "65536 \<le> c" and "c < 1114112"
  shows "read_unicode (hex4 (55296 + (c - 65536) div 1024 mod 1024) @
     unicode_escape (56320 + (c - 65536) mod 1024) @ s) = Some (c, s)"
proof -
  let ?hi = "55296 + (c - 65536) div 1024 mod 1024" and ?lo = "56320 + (c - 65536) mod 1024"
  have hi: "(c - 65536) div 1024 mod 1024 < 1024" and lo: "(c - 65536) mod 1024 < 1024" by simp_all
  have "read_hex4 (hex4 ?hi @ unicode_escape ?lo @ s) = Some (?hi, unicode_escape ?lo @ s)"
    using hi by (intro read_hex4_hex4) linarith
  moreover have "read_hex4 (hex4 ?lo @ s) = Some (?lo, s)"
    using lo by (intro read_hex4_hex4) linarith
  moreover have "?hi \<le> 56319" "?lo \<le> 57343" using hi lo by linarith+
  ultimately show ?thesis
    using surrogate_value [OF assms] by (simp add: read_unicode_def unicode_escape_def)
qed

lemma scan_string_escape:
  assumes "scalar c"
  shows "scan_string (escape_code c @ s) = map_option (apfst (Cons c)) (scan_string s)"
proof -
  let ?short = "c = 34 \<or> c = 92 \<or> c = 10 \<or> c = 13 \<or> c = 9 \<or> c = 12 \<or> c = 8"
  consider (pair) "65536 \<le> c" | (short) ?short
    | (plain) "32 \<le> c" "c \<le> 126" "c \<noteq> 34" "c \<noteq> 92"
    | (bmp) "c < 65536" "\<not> ?short" "\<not> (32 \<le> c \<and> c \<le> 126)" by linarith
  then show ?thesis
  proof cases
    case pair
    with assms have "c < 1114112" by (simp add: scalar_def)
    from read_unicode_pair [OF pair this] pair show ?thesis
      by (subst scan_string.simps) (simp add: escape_code_def unicode_escape_def [of "55296 + _"])
  next
    case bmp
    then have "escape_code c = unicode_escape c" unfolding escape_code_def by presburger
    then show ?thesis using assms bmp
      by (subst scan_string.simps) (simp add: unicode_escape_def read_unicode_bmp)
  next
    case plain
    then have "escape_code c = [c]" by (simp add: escape_code_def)
    then show ?thesis using plain by (subst scan_string.simps) simp
  next
    case short
    then show ?thesis
      by (subst scan_string.simps) (auto simp: escape_code_def simple_escape_def)
  qed
qed

lemma scan_string_dumps:
  "list_all scalar s \<Longrightarrow> scan_string (concat (map escape_code s) @ 34 # rest) = Some (s, rest)"
proof (induction s)
  case Nil
  show ?case by (subst scan_string.simps) simp
next
  case (Cons c s)
  then show ?case by (simp add: scan_string_escape)
qed

subsection \<open>Numbers and words\<close>

text \<open>What may follow a value inside a document.\<close>

definition delim :: "pystr \<Rightarrow> bool" where
  "delim s = (s = [] \<or> hd s = 44 \<or> hd s = 93 \<or> hd s = 125)"

lemma takeWhile_delim:
  "delim rest \<Longrightarrow> \<not> P 44 \<Longrightarrow> \<not> P 93 \<Longrightarrow> \<not> P 125 \<Longrightarrow> takeWhile P (s @ rest) = takeWhile P s"
  by (cases rest) (auto simp: delim_def takeWhile_tail)

lemma not_digit_delim [simp]: "\<not> is_digit 44" "\<not> is_digit 93" "\<not> is_digit 125"
  by (simp_all add: is_digit_def)

lemma int_part_delim:
  assumes "int_part s = Some (i, s')" and "delim rest"
  shows "int_part (s @ rest) = Some (i, s' @ rest)"
proof -
  have "s \<noteq> []" using assms(1) by (auto simp: int_part_def Let_def)
  then obtain c t where s: "s = c # t" by (cases s) auto
  have "length (takeWhile is_digit t) \<le> length t" by (rule length_takeWhile_le)
  with assms show ?thesis
    using takeWhile_delim [OF assms(2), of is_digit "[]"]
    by (cases t) (auto simp: s int_part_def Let_def takeWhile_delim
        takeWhile_delim [OF assms(2), of is_digit "_ # _", simplified] split: if_splits)
qed

lemma frac_part_delim:
  assumes "delim rest"
  shows "frac_part (s @ rest) = apsnd (\<lambda>x. x @ rest) (frac_part s)"
proof (cases s)
  case Nil
  with assms show ?thesis
    by (cases rest) (auto simp: frac_part_def delim_def)
next
  case (Cons c t)
  have "length (takeWhile is_digit t) \<le> length t" by (rule length_takeWhile_le)
  with Cons assms show ?thesis
    by (auto simp: frac_part_def takeWhile_delim Let_def)
qed

lemma exp_part_delim:
  assumes "delim rest"
  shows "exp_part (s @ rest) = apsnd (\<lambda>x. x @ rest) (exp_part s)"
proof (cases s)
  case Nil
  with assms show ?thesis
    by (cases rest) (auto simp: exp_part_def delim_def Let_def)
next
  case (Cons c t)
  note [simp] = takeWhile_delim [OF assms]
  show ?thesis
  proof (cases t)
    case Nil
    with Cons assms show ?thesis
      by (cases rest) (auto simp: exp_part_def Let_def delim_def)
  next
    case (Cons d t')
    have "length (takeWhile is_digit t') \<le> length t'" by (rule length_takeWhile_le)
    with Cons \<open>s = c # t\<close> assms show ?thesis
      using takeWhile_delim [OF assms, of is_digit "d # t'"]
      by (auto simp: exp_part_def Let_def)
  qed
qed

lemma scan_number_delim:
  assumes "scan_number fl s = Some (j, [])" and "delim rest"
  shows "scan_number fl (s @ rest) = Some (j, rest)"
proof -
  from assms(1) obtain i s1 where i: "int_part s = Some (i, s1)"
    by (auto simp: scan_number_def split: option.splits)
  obtain f s2 where f: "frac_part s1 = (f, s2)" by fastforce
  obtain e s3 where e: "exp_part s2 = (e, s3)" by fastforce
  from assms i f e show ?thesis
    by (auto simp: scan_number_def int_part_delim [OF i assms(2)] frac_part_delim exp_part_delim
        split: if_splits)
qed

lemma scan_word_none:
  "s \<noteq> [] \<Longrightarrow> (\<And>w j. (w, j) \<in> set ws \<Longrightarrow> w \<noteq> [] \<and> hd (lit w) \<noteq> hd s) \<Longrightarrow> scan_word ws s = None"
proof (induction ws)
  case Nil
  then show ?case by (simp add: scan_word_def)
next
  case (Cons x ws)
  obtain w j where x: "x = (w, j)" by fastforce
  from x Cons.prems(2) [of w j] have "w \<noteq> []" "hd (lit w) \<noteq> hd s" by simp_all
  with Cons.prems(1) have "strip_word w s = None"
    by (cases w; cases s) (auto simp: strip_word_def lit_def)
  moreover have "scan_word ws s = None" by (rule Cons.IH) (use Cons.prems in auto)
  ultimately show ?case using x by (simp add: scan_word_def)
qed

definition float_repr :: "(string \<Rightarrow> string option) \<Rightarrow> string \<Rightarrow> bool" where
  "float_repr fl r = (r \<in> {''nan'', ''inf'', ''-inf''} \<or> scan_number fl (lit r) = Some (JFloat r, []))"

lemma scan_number_start:
  "scan_number fl s = Some x \<Longrightarrow> s \<noteq> [] \<and> (hd s = 45 \<or> is_digit (hd s))"
  by (cases s) (auto simp: scan_number_def int_part_def Let_def split: option.splits if_splits)

lemma scan_scalar_number:
  assumes "scan_number fl s = Some (j, [])" and "delim rest"
  shows "scan_scalar fl (s @ rest) = Some (j, rest)"
proof -
  from scan_number_start [OF assms(1)] have s: "s \<noteq> []" "hd s = 45 \<or> is_digit (hd s)" by auto
  have "scan_word [(''null'', JNull), (''true'', JBool True), (''false'', JBool False)] (s @ rest)
      = None"
    by (rule scan_word_none) (use s in \<open>auto simp: lit_def is_digit_def\<close>)
  with scan_number_delim [OF assms] show ?thesis by (simp add: scan_scalar_def)
qed

lemma digit_code [simp]: "d < 10 \<Longrightarrow> of_char (digit_char d) = (48 + d :: nat)"
  by (simp add: digit_char_def)

lemma lit_str_of_nat_digits: "list_all is_digit (lit (str_of_nat n))"
proof (induction n rule: str_of_nat.induct)
  case (1 n)
  then show ?case
    by (cases "n < 10") (auto simp: str_of_nat.simps [of n] lit_def is_digit_def list_all_iff)
qed

lemma str_of_nat_no_zero: "0 < n \<Longrightarrow> hd (lit (str_of_nat n)) \<noteq> 48"
proof (induction n rule: str_of_nat.induct)
  case (1 n)
  show ?case
  proof (cases "n < 10")
    case True
    with 1 show ?thesis by (simp add: str_of_nat.simps [of n] lit_def)
  next
    case False
    with 1 have "hd (lit (str_of_nat (n div 10))) \<noteq> 48" by simp
    moreover have "str_of_nat (n div 10) \<noteq> []" using str_of_nat_digits [of "n div 10"] by auto
    ultimately show ?thesis using False by (simp add: str_of_nat.simps [of n] hd_append)
  qed
qed

lemma chars_lit [simp]: "chars (lit s) = s"
  by (simp add: chars_def lit_def comp_def)

lemma int_part_digits:
  assumes "list_all is_digit ds" and "ds \<noteq> []" and "hd ds = 48 \<Longrightarrow> ds = [48]"
  shows "int_part ds = Some (ds, []) \<and> int_part (45 # ds) = Some (45 # ds, [])"
proof -
  have "takeWhile is_digit ds = ds" using assms(1) by (simp add: list_all_iff)
  moreover obtain d t where ds: "ds = d # t" using assms(2) by (cases ds) auto
  moreover have "d \<noteq> 45" using assms(1) ds by (auto simp: is_digit_def)
  ultimately show ?thesis using assms(3) by (auto simp: int_part_def Let_def)
qed

lemma int_part_py_str: "int_part (lit (py_str i)) = Some (lit (py_str i), [])"
proof -
  have "lit (str_of_nat n) = [48]" if "hd (lit (str_of_nat n)) = 48" for n
  proof -
    from that have "n = 0" using str_of_nat_no_zero [of n] by blast
    then show ?thesis by (simp add: str_of_nat.simps [of 0] lit_def)
  qed
  moreover have "lit (str_of_nat n) \<noteq> []" for n using str_of_nat_digits [of n] by auto
  ultimately have "int_part (lit (str_of_nat n)) = Some (lit (str_of_nat n), []) \<and>
      int_part (45 # lit (str_of_nat n)) = Some (45 # lit (str_of_nat n), [])" for n
    using int_part_digits [OF lit_str_of_nat_digits] by blast
  then show ?thesis by (simp add: py_str_def lit_def)
qed

lemma scan_number_py_str: "scan_number fl (lit (py_str i)) = Some (JInt i, [])"
  by (simp add: scan_number_def int_part_py_str frac_part_def exp_part_def)

subsection \<open>Values\<close>

text \<open>
  What the program serialises: strings of Unicode scalar values, floats that are their own
  \<open>repr\<close>, and dictionaries without repeated keys.
\<close>

fun wf_json :: "(string \<Rightarrow> string option) \<Rightarrow> json \<Rightarrow> bool" where
  "wf_json fl (JFloat r) = float_repr fl r"
| "wf_json fl (JStr s) = list_all scalar s"
| "wf_json fl (JList xs) = list_all (wf_json fl) xs"
| "wf_json fl (JDict kvs) =
     (distinct (map fst kvs) \<and> list_all (\<lambda>(k, v). list_all scalar k \<and> wf_json fl v) kvs)"
| "wf_json fl _ = True"

definition member_text :: "pystr \<times> json \<Rightarrow> pystr" where
  "member_text kv = dumps_str (fst kv) @ [58, 32] @ dumps (snd kv)"

lemma dumps_dict: "dumps (JDict kvs) = [123] @ joined (map member_text kvs) @ [125]"
proof -
  have "(\<lambda>(k, v). dumps_str k @ [58, 32] @ v) \<circ> map_prod id dumps = member_text"
    by (auto simp: member_text_def)
  then show ?thesis by simp
qed

lemma joined_simps [simp]:
  "joined [] = []" "joined [x] = x" "joined (x # y # ys) = x @ [44, 32] @ joined (y # ys)"
  by (simp_all add: joined_def)

lemma skip_ws_code [simp]: "\<not> json_space c \<Longrightarrow> skip_ws (c # s) = c # s"
  "json_space c \<Longrightarrow> skip_ws (c # s) = skip_ws s" "skip_ws [] = []"
  by (simp_all add: skip_ws_def)

lemma json_space_code [simp]: "\<not> json_space 44" "\<not> json_space 93" "\<not> json_space 125"
  "\<not> json_space 34" "\<not> json_space 91" "\<not> json_space 123" "\<not> json_space 58" "json_space 32"
  by (simp_all add: json_space_def)

text \<open>The first character of a document is not a space, and not a closing bracket.\<close>

lemma dumps_start:
  assumes "wf_json fl j"
  shows "\<exists>c s. dumps j = c # s \<and> \<not> json_space c \<and> c \<noteq> 93 \<and> c \<noteq> 125"
proof (cases j)
  case (JInt i)
  from scan_number_start [OF scan_number_py_str, of i] show ?thesis
    by (cases "lit (py_str i)") (auto simp: JInt json_space_def is_digit_def)
next
  case (JFloat r)
  then have "r \<in> {''nan'', ''inf'', ''-inf''} \<or> scan_number fl (lit r) = Some (JFloat r, [])"
    using assms by (simp add: float_repr_def)
  then show ?thesis
    using scan_number_start [of fl "lit r"]
    by (cases "lit r") (auto simp: JFloat dumps_float_def json_space_def is_digit_def lit_def)
qed (auto simp: lit_def dumps_str_def json_space_def)

lemma skip_ws_dumps: "wf_json fl j \<Longrightarrow> skip_ws (dumps j @ s) = dumps j @ s"
  using dumps_start by fastforce

text \<open>What \<open>scan_once\<close> must do with one value, given enough fuel.\<close>

definition scans :: "(string \<Rightarrow> string option) \<Rightarrow> json \<Rightarrow> bool" where
  "scans fl j = (\<forall>n rest. length (dumps j) < n \<longrightarrow> delim rest \<longrightarrow>
     scan_once fl n (dumps j @ rest) = Some (j, rest))"

lemma scansD: "scans fl j \<Longrightarrow> length (dumps j) < n \<Longrightarrow> delim rest \<Longrightarrow>
    scan_once fl n (dumps j @ rest) = Some (j, rest)"
  by (simp add: scans_def)

lemma delim_codes [simp]: "delim (44 # s)" "delim (93 # s)" "delim (125 # s)" "delim []"
  by (simp_all add: delim_def)

lemma scans_scalar:
  assumes "\<And>rest. delim rest \<Longrightarrow> scan_scalar fl (dumps j @ rest) = Some (j, rest)"
    and "dumps j \<noteq> []" and "hd (dumps j) \<notin> {34, 123, 91}"
  shows "scans fl j"
  unfolding scans_def
proof (intro allI impI)
  fix n rest
  assume "length (dumps j) < n" and "delim rest"
  then obtain m where "n = Suc m" by (cases n) auto
  with assms \<open>delim rest\<close> show "scan_once fl n (dumps j @ rest) = Some (j, rest)"
    by (cases "dumps j") auto
qed

lemma scan_array_scans:
  assumes "list_all (scans fl) (x # xs)" and "list_all (wf_json fl) (x # xs)"
    and "length (joined (map dumps (x # xs))) + 1 < n"
  shows "scan_array fl n acc (joined (map dumps (x # xs)) @ 93 # rest) =
    Some (JList (acc @ x # xs), rest)"
  using assms
proof (induction xs arbitrary: x n acc)
  case Nil
  then obtain m where "n = Suc m" by (cases n) auto
  with Nil scansD [of fl x m "93 # rest"] show ?case by simp
next
  case (Cons y ys)
  then obtain m where n: "n = Suc m" by (cases n) auto
  let ?tail = "joined (map dumps (y # ys)) @ 93 # rest"
  have "scan_once fl m (dumps x @ 44 # 32 # ?tail) = Some (x, 44 # 32 # ?tail)"
    using Cons.prems n by (intro scansD) auto
  moreover have "skip_ws ?tail = ?tail"
    using skip_ws_dumps [of fl y] Cons.prems(2) by (cases ys) auto
  moreover have "scan_array fl m (acc @ [x]) ?tail = Some (JList ((acc @ [x]) @ y # ys), rest)"
    using Cons.prems n by (intro Cons.IH) auto
  ultimately show ?case using n by simp
qed

lemma scan_string_key:
  "list_all scalar k \<Longrightarrow> \<exists>s. dumps_str k @ rest = 34 # s \<and> scan_string s = Some (k, rest)"
  using scan_string_dumps [of k rest] by (simp add: dumps_str_def)

lemma scan_member:
  assumes "scans fl (snd x)" and "wf_json fl (snd x)" and "list_all scalar (fst x)"
    and "length (member_text x) < Suc m" and "delim rest" and "rest \<noteq> []"
  shows "scan_object fl (Suc m) acc (member_text x @ rest) =
    (let acc' = dict_insert (fst x) (snd x) acc in
     if hd rest = 125 then Some (JDict acc', tl rest)
     else if hd rest = 44 then scan_object fl m acc' (skip_ws (tl rest)) else None)"
proof -
  obtain c t where rest: "rest = c # t" using assms(6) by (cases rest) auto
  have c: "\<not> json_space c" using assms(5) rest by (auto simp: delim_def json_space_def)
  obtain s where s: "dumps_str (fst x) @ 58 # 32 # dumps (snd x) @ rest = 34 # s"
    "scan_string s = Some (fst x, 58 # 32 # dumps (snd x) @ rest)"
    using scan_string_key [OF assms(3)] by blast
  have "scan_once fl m (dumps (snd x) @ rest) = Some (snd x, rest)"
    using assms by (intro scansD) (auto simp: member_text_def)
  with s rest c skip_ws_dumps [OF assms(2)] show ?thesis
    by (simp add: member_text_def Let_def)
qed

lemma scan_object_scans:
  assumes "list_all (\<lambda>(k, v). scans fl v \<and> wf_json fl v \<and> list_all scalar k) (x # xs)"
    and "distinct (map fst (acc @ x # xs))"
    and "length (joined (map member_text (x # xs))) + 1 < n"
  shows "scan_object fl n acc (joined (map member_text (x # xs)) @ 125 # rest) =
    Some (JDict (acc @ x # xs), rest)"
  using assms
proof (induction xs arbitrary: x n acc)
  case Nil
  then obtain m where n: "n = Suc m" by (cases n) auto
  have "dict_insert (fst x) (snd x) acc = acc @ [x]"
    using Nil.prems(2) by (auto simp: dict_insert_def)
  with Nil n scan_member [of fl x m "125 # rest" acc] show ?case
    by (cases x) (simp add: Let_def)
next
  case (Cons y ys)
  then obtain m where n: "n = Suc m" by (cases n) auto
  let ?tail = "joined (map member_text (y # ys)) @ 125 # rest"
  have acc: "dict_insert (fst x) (snd x) acc = acc @ [x]"
    using Cons.prems(2) by (auto simp: dict_insert_def)
  have tail: "skip_ws ?tail = ?tail"
    by (cases ys) (simp_all add: member_text_def dumps_str_def)
  have "scan_object fl m (acc @ [x]) ?tail = Some (JDict ((acc @ [x]) @ y # ys), rest)"
    using Cons.prems n by (intro Cons.IH) auto
  with Cons.prems n acc tail scan_member [of fl x m "44 # 32 # ?tail" acc] show ?case
    by (cases x) (simp add: Let_def)
qed

lemma scans_all: "wf_json fl j \<Longrightarrow> scans fl j"
proof (induction j)
  case (JInt i)
  show ?case
    using scan_scalar_number [OF scan_number_py_str] scan_number_start [OF scan_number_py_str, of i]
    by (intro scans_scalar) (auto simp: is_digit_def)
next
  case (JFloat r)
  then consider "r \<in> {''nan'', ''inf'', ''-inf''}"
    | "scan_number fl (lit r) = Some (JFloat r, [])" by (auto simp: float_repr_def)
  then show ?case
  proof cases
    case 1
    then show ?thesis
      by (intro scans_scalar)
        (auto simp: dumps_float_def lit_def scan_scalar_def scan_word_def strip_word_def
          scan_number_def int_part_def is_digit_def)
  next
    case 2
    then have "r \<notin> {''nan'', ''inf'', ''-inf''}"
      by (auto simp: scan_number_def int_part_def lit_def is_digit_def)
    with 2 scan_scalar_number [OF 2] scan_number_start [OF 2] show ?thesis
      by (intro scans_scalar) (auto simp: dumps_float_def is_digit_def)
  qed
next
  case (JStr s)
  have "scan_once fl n (dumps (JStr s) @ rest) = Some (JStr s, rest)" if "0 < n" for n rest
    using JStr scan_string_dumps [of s rest] that by (cases n) (auto simp: dumps_str_def)
  then show ?case by (auto simp: scans_def)
next
  case (JList xs)
  show ?case
    unfolding scans_def
  proof (intro allI impI)
    fix n rest
    assume n: "length (dumps (JList xs)) < n"
    then obtain m where m: "n = Suc m" by (cases n) auto
    show "scan_once fl n (dumps (JList xs) @ rest) = Some (JList xs, rest)"
    proof (cases xs)
      case Nil
      with m show ?thesis by simp
    next
      case (Cons y ys)
      have "list_all (scans fl) xs" using JList by (auto simp: list_all_iff)
      then have "scan_array fl m [] (joined (map dumps xs) @ 93 # rest) = Some (JList xs, rest)"
        using scan_array_scans [of fl y ys m "[]" rest] JList.prems n m Cons by simp
      moreover from dumps_start [of fl y] obtain c s where
        "joined (map dumps xs) @ 93 # rest = c # s" "\<not> json_space c" "c \<noteq> 93"
        using JList.prems Cons by (cases ys) auto
      ultimately show ?thesis using m by simp
    qed
  qed
next
  case (JDict kvs)
  show ?case
    unfolding scans_def dumps_dict
  proof (intro allI impI)
    fix n rest
    assume n: "length ([123] @ joined (map member_text kvs) @ [125]) < n"
    then obtain m where m: "n = Suc m" by (cases n) auto
    show "scan_once fl n (([123] @ joined (map member_text kvs) @ [125]) @ rest) =
        Some (JDict kvs, rest)"
    proof (cases kvs)
      case Nil
      with m show ?thesis by simp
    next
      case (Cons y ys)
      have "list_all (\<lambda>(k, v). scans fl v \<and> wf_json fl v \<and> list_all scalar k) kvs"
        using JDict by (fastforce simp: list_all_iff)
      then have "scan_object fl m [] (joined (map member_text kvs) @ 125 # rest) =
          Some (JDict kvs, rest)"
        using scan_object_scans [of fl y ys "[]" m rest] JDict.prems n m Cons by simp
      moreover obtain s where "joined (map member_text kvs) @ 125 # rest = 34 # s"
        using Cons by (cases ys) (auto simp: member_text_def dumps_str_def)
      ultimately show ?thesis using m by simp
    qed
  qed
qed (intro scans_scalar; auto simp: lit_def scan_scalar_def scan_word_def strip_word_def)+

lemma loads_dumps_value: "wf_json fl j \<Longrightarrow> loads fl (dumps j) = Some j"
  using scansD [OF scans_all, of fl j "2 * length (dumps j) + 1" "[]"] skip_ws_dumps [of fl j "[]"]
  by (simp add: loads_def)

end
