(* ===== verification/Message_Queue.thy ===== *)
theory Message_Queue
  imports World Redis_Streams Json_Roundtrip
begin

text \<open>
  The message queue of app/modules/order/queue_manager.py over Redis streams: \<open>Message\<close>,
  \<open>MessageQueue\<close> and \<open>ConsumerGroup\<close>.

  The value of \<open>time.time()\<close> is an argument, as the \<open>repr\<close> of a float. \<open>fl\<close> is Python's
  \<open>float\<close> on strings (see Json); \<open>None\<close> is a \<open>ValueError\<close>. \<open>int\<close> is read for ASCII strings.
\<close>

record message =
  m_id :: string
  m_stream :: string
  m_data :: json
  m_attempts :: int
  m_created_at :: string

record message_queue =
  mq_stream_name :: string
  mq_max_len :: nat
  mq_dead_letter_stream :: string

definition message_queue :: "string \<Rightarrow> nat \<Rightarrow> message_queue" where
  "message_queue stream_name max_len =
     \<lparr>mq_stream_name = stream_name, mq_max_len = max_len,
      mq_dead_letter_stream = stream_name @ '':dead''\<rparr>"

definition default_queue :: message_queue where
  "default_queue = message_queue ''pending_orders_queue'' 100000"

subsection \<open>Writing\<close>

definition enqueue_payload :: "string \<Rightarrow> json \<Rightarrow> fields" where
  "enqueue_payload now data =
     [(''data'', dumps data), (''created_at'', lit now), (''attempts'', lit ''0'')]"

definition enqueue :: "'r redis_streams \<Rightarrow> message_queue \<Rightarrow> string \<Rightarrow> json
    \<Rightarrow> 'r world \<Rightarrow> (exn + string) \<times> 'r world" where
  "enqueue S q now data =
     on_redis (xadd S (mq_stream_name q) (enqueue_payload now data) (Some (mq_max_len q)))"

definition dead_letter_payload :: "message_queue \<Rightarrow> string \<Rightarrow> json \<Rightarrow> int \<Rightarrow> string \<Rightarrow> fields" where
  "dead_letter_payload q now data event_id reason =
     [(''event_id'', lit (py_str event_id)), (''data'', dumps data), (''reason'', lit reason),
      (''original_stream'', lit (mq_stream_name q)), (''created_at'', lit now)]"

definition enqueue_dead_letter :: "'r redis_streams \<Rightarrow> message_queue \<Rightarrow> string \<Rightarrow> json \<Rightarrow> int \<Rightarrow> string
    \<Rightarrow> 'r world \<Rightarrow> (exn + string) \<times> 'r world" where
  "enqueue_dead_letter S q now data event_id reason =
     on_redis (xadd S (mq_dead_letter_stream q) (dead_letter_payload q now data event_id reason)
       (Some (mq_max_len q)))"

subsection \<open>Reading\<close>

definition field_get :: "fields \<Rightarrow> string \<Rightarrow> pystr \<Rightarrow> pystr" where
  "field_get fs k dflt = (case map_of fs k of None \<Rightarrow> dflt | Some v \<Rightarrow> v)"

definition json_field :: "(string \<Rightarrow> string option) \<Rightarrow> fields \<Rightarrow> exn + json" where
  "json_field fl fs = (case loads fl (field_get fs ''data'' (lit ''{}'')) of
      None \<Rightarrow> Inl (Exn ValueError ''JSONDecodeError'') | Some j \<Rightarrow> Inr j)"

definition int_field :: "fields \<Rightarrow> string \<Rightarrow> exn + int" where
  "int_field fs k = (case map_of fs k of
      None \<Rightarrow> Inr 0
    | Some v \<Rightarrow> (case py_int (chars v) of
        None \<Rightarrow> Inl (Exn ValueError ''invalid literal for int()'') | Some i \<Rightarrow> Inr i))"

definition float_field :: "(string \<Rightarrow> string option) \<Rightarrow> fields \<Rightarrow> string \<Rightarrow> string \<Rightarrow> exn + string" where
  "float_field fl fs k dflt = (case map_of fs k of
      None \<Rightarrow> Inr dflt
    | Some v \<Rightarrow> (case fl (chars v) of
        None \<Rightarrow> Inl (Exn ValueError ''could not convert string to float'') | Some x \<Rightarrow> Inr x))"

text \<open>One message from the entry of a new or a claimed message; \<open>attempts\<close> differs.\<close>

definition to_message :: "(string \<Rightarrow> string option) \<Rightarrow> string \<Rightarrow> string \<Rightarrow> (fields \<Rightarrow> exn + int)
    \<Rightarrow> stream_entry \<Rightarrow> exn + message" where
  "to_message fl now stream attempts e = (case e of (msg_id, fs) \<Rightarrow>
     (case json_field fl fs of
        Inl err \<Rightarrow> Inl err
      | Inr data \<Rightarrow> (case attempts fs of
          Inl err \<Rightarrow> Inl err
        | Inr k \<Rightarrow> (case float_field fl fs ''created_at'' now of
            Inl err \<Rightarrow> Inl err
          | Inr t \<Rightarrow> Inr \<lparr>m_id = msg_id, m_stream = stream, m_data = data, m_attempts = k,
              m_created_at = t\<rparr>))))"

fun map_result :: "('a \<Rightarrow> 'e + 'b) \<Rightarrow> 'a list \<Rightarrow> 'e + 'b list" where
  "map_result f [] = Inr []"
| "map_result f (x # xs) = (case f x of
      Inl e \<Rightarrow> Inl e
    | Inr y \<Rightarrow> (case map_result f xs of Inl e \<Rightarrow> Inl e | Inr ys \<Rightarrow> Inr (y # ys)))"

record consumer_group =
  cg_stream_name :: string
  cg_group_name :: string
  cg_consumer_name :: string

text \<open>\<open>ConsumerGroup.__init__\<close>; \<open>fresh\<close> is the name drawn when none is given.\<close>

definition consumer_group :: "message_queue \<Rightarrow> string \<Rightarrow> string \<Rightarrow> string \<Rightarrow> consumer_group" where
  "consumer_group q group_name consumer_name fresh =
     \<lparr>cg_stream_name = mq_stream_name q, cg_group_name = group_name,
      cg_consumer_name = (if consumer_name = '''' then fresh else consumer_name)\<rparr>"

fun contains_str :: "string \<Rightarrow> string \<Rightarrow> bool" where
  "contains_str w [] = (w = [])"
| "contains_str w (c # s) = (take (length w) (c # s) = w \<or> contains_str w s)"

definition ensure_group :: "'r redis_streams \<Rightarrow> consumer_group \<Rightarrow> 'r world \<Rightarrow> (exn + unit) \<times> 'r world" where
  "ensure_group S c =
     try_io (on_redis (xgroup_create S (cg_stream_name c) (cg_group_name c)))
       (\<lambda>e. if catches ResponseError e then
              (if \<not> contains_str ''BUSYGROUP'' (exn_str e) then raise_io e else return_io ())
            else raise_io e)"

definition create_group :: "'r redis_streams \<Rightarrow> message_queue \<Rightarrow> string \<Rightarrow> string \<Rightarrow> string
    \<Rightarrow> 'r world \<Rightarrow> (exn + consumer_group) \<times> 'r world" where
  "create_group S q group_name consumer_name fresh =
     (let c = consumer_group q group_name consumer_name fresh
      in bind_io (ensure_group S c) (\<lambda>_. return_io c))"

definition read_messages :: "'r redis_streams \<Rightarrow> (string \<Rightarrow> string option) \<Rightarrow> string
    \<Rightarrow> consumer_group \<Rightarrow> nat \<Rightarrow> 'r world \<Rightarrow> (exn + message list) \<times> 'r world" where
  "read_messages S fl now c count =
     bind_io (on_redis (xreadgroup S (cg_group_name c) (cg_consumer_name c) (cg_stream_name c) count))
       (\<lambda>result.
          lift_io (map_result (\<lambda>(stream, e). to_message fl now stream (\<lambda>fs. int_field fs ''attempts'') e)
            (concat (map (\<lambda>(stream, es). map (Pair stream) es) result))))"

definition acknowledge :: "'r redis_streams \<Rightarrow> consumer_group \<Rightarrow> string
    \<Rightarrow> 'r world \<Rightarrow> (exn + bool) \<times> 'r world" where
  "acknowledge S c message_id =
     bind_io (on_redis (xack S (cg_stream_name c) (cg_group_name c) [message_id])) (\<lambda>result.
     return_io (result > 0))"

definition acknowledge_batch :: "'r redis_streams \<Rightarrow> consumer_group \<Rightarrow> string list
    \<Rightarrow> 'r world \<Rightarrow> (exn + int) \<times> 'r world" where
  "acknowledge_batch S c message_ids =
     (if message_ids = [] then return_io 0
      else on_redis (xack S (cg_stream_name c) (cg_group_name c) message_ids))"

definition get_pending :: "'r redis_streams \<Rightarrow> consumer_group \<Rightarrow> nat
    \<Rightarrow> 'r world \<Rightarrow> (exn + pending_entry list) \<times> 'r world" where
  "get_pending S c count = on_redis (xpending_range S (cg_stream_name c) (cg_group_name c) count)"

text \<open>The reply of \<open>XPENDING\<close> in its short form, and the dictionary built from it; \<open>xpending\<close> is the command.\<close>

record pending_summary =
  ps_count :: int
  ps_min_id :: "string option"
  ps_max_id :: "string option"
  ps_by_consumer :: "(string \<times> int) list"

definition get_pending_summary :: "(string \<Rightarrow> string \<Rightarrow> 'r \<Rightarrow>
      (exn + int \<times> string option \<times> string option \<times> (string \<times> int) list) \<times> 'r) \<Rightarrow> consumer_group
    \<Rightarrow> 'r world \<Rightarrow> (exn + pending_summary) \<times> 'r world" where
  "get_pending_summary xpending c =
     bind_io (on_redis (xpending (cg_stream_name c) (cg_group_name c))) (\<lambda>(pending, min_id, max_id, consumers).
     return_io \<lparr>ps_count = pending, ps_min_id = min_id, ps_max_id = max_id, ps_by_consumer = consumers\<rparr>)"

fun claim_entries :: "'r redis_streams \<Rightarrow> (string \<Rightarrow> string option) \<Rightarrow> string \<Rightarrow> consumer_group
    \<Rightarrow> int \<Rightarrow> pending_entry list \<Rightarrow> 'r world \<Rightarrow> (exn + message list) \<times> 'r world" where
  "claim_entries S fl now c min_idle_time [] = return_io []"
| "claim_entries S fl now c min_idle_time (p # ps) =
     (if pe_time_since_delivered p \<ge> min_idle_time then
        bind_io (on_redis (xclaim S (cg_stream_name c) (cg_group_name c) (cg_consumer_name c)
          min_idle_time (pe_message_id p))) (\<lambda>result.
        bind_io (lift_io (map_result (to_message fl now (cg_stream_name c)
          (\<lambda>_. Inr (int (pe_times_delivered p)))) result)) (\<lambda>ms.
        bind_io (claim_entries S fl now c min_idle_time ps) (\<lambda>rest. return_io (ms @ rest))))
      else claim_entries S fl now c min_idle_time ps)"

definition claim_stale_message :: "'r redis_streams \<Rightarrow> (string \<Rightarrow> string option) \<Rightarrow> string
    \<Rightarrow> consumer_group \<Rightarrow> int \<Rightarrow> nat \<Rightarrow> 'r world \<Rightarrow> (exn + message list) \<times> 'r world" where
  "claim_stale_message S fl now c min_idle_time count =
     bind_io (on_redis (xpending_range S (cg_stream_name c) (cg_group_name c) count))
       (\<lambda>pending. claim_entries S fl now c min_idle_time pending)"

subsection \<open>What is read is what was written\<close>

lemma map_result_Inr_length: "map_result f xs = Inr ys \<Longrightarrow> length ys = length xs"
  by (induction xs arbitrary: ys) (auto split: sum.splits)

lemma field_of_payload [simp]:
  "field_get (enqueue_payload now data) ''data'' d = dumps data"
  "map_of (enqueue_payload now data) ''attempts'' = Some (lit (py_str 0))"
  "map_of (enqueue_payload now data) ''created_at'' = Some (lit now)"
  by (simp_all add: enqueue_payload_def field_get_def) code_simp

lemma enqueued_message:
  assumes "wf_json fl data" and "fl now = Some now"
  shows "to_message fl t stream (\<lambda>fs. int_field fs ''attempts'') (i, enqueue_payload now data) =
    Inr \<lparr>m_id = i, m_stream = stream, m_data = data, m_attempts = 0, m_created_at = now\<rparr>"
  using assms
  by (simp add: to_message_def json_field_def int_field_def float_field_def loads_dumps_value)

end
