(* ===== verification/Outbox.thy ===== *)
theory Outbox
  imports Message_Queue
begin

text \<open>
  The outbox relay of app/modules/order/tasks.py: claim a batch of events, publish each to the
  stream or to the dead letter stream, and write the outcomes back.

  \<open>claim_env\<close> holds what one run of the relay gets from its environment: the clock, the rows
  other transactions have locked, the order PostgreSQL gives to rows with equal \<open>created_at\<close>
  (\<open>re_ties\<close>, a reordering) and to the rows of \<open>RETURNING\<close>, the exceptions of the statements, and
  what the other sessions commit while the events are being published.
\<close>

definition MAX_OUTBOX_RETRIES :: int where "MAX_OUTBOX_RETRIES = 5"

definition LOCK_TIMEOUT_MINUTES :: int where "LOCK_TIMEOUT_MINUTES = 5"

record relay_env =
  re_now :: int
  re_locked :: "int \<Rightarrow> bool"
  re_ties :: "outbox_event_row list \<Rightarrow> outbox_event_row list"
  re_returning :: "outbox_event_row list \<Rightarrow> outbox_event_row list"
  re_claim_fault :: "exn option"
  re_clock :: "int \<Rightarrow> string"
  re_others :: "db \<Rightarrow> db"
  re_update_fault :: "exn option"

record claimed_event =
  ce_id :: int
  ce_data :: json
  ce_retry_count :: "int option"

subsection \<open>Claiming\<close>

definition claimable :: "int \<Rightarrow> outbox_event_row \<Rightarrow> bool" where
  "claimable now e = (let stale_lock = now - LOCK_TIMEOUT_MINUTES * 60 in
     oe_status e = ES_PENDING \<or>
     (oe_status e = ES_PROCESSING \<and>
      (case oe_locked_at e of None \<Rightarrow> False | Some t \<Rightarrow> t < stale_lock)))"

definition claimed_ids :: "relay_env \<Rightarrow> nat \<Rightarrow> db \<Rightarrow> int list" where
  "claimed_ids E limit_s d = map oe_id (take limit_s (sort_key oe_created_at
     (re_ties E (filter (\<lambda>e. claimable (re_now E) e \<and> \<not> re_locked E (oe_id e)) (outbox_events d)))))"

definition mark_claimed :: "int \<Rightarrow> outbox_event_row \<Rightarrow> outbox_event_row" where
  "mark_claimed now e = e\<lparr>oe_status := ES_PROCESSING, oe_locked_at := Some now\<rparr>"

definition claim_update :: "int \<Rightarrow> int list \<Rightarrow> db \<Rightarrow> db" where
  "claim_update now ids d = d\<lparr>outbox_events :=
     update_where (\<lambda>e. oe_id e \<in> set ids) (mark_claimed now) (outbox_events d)\<rparr>"

definition claimed_event :: "outbox_event_row \<Rightarrow> claimed_event" where
  "claimed_event e = \<lparr>ce_id = oe_id e, ce_data = oe_data e, ce_retry_count = oe_retry_count e\<rparr>"

definition claim_process_events :: "relay_env \<Rightarrow> nat
    \<Rightarrow> 'r world \<Rightarrow> (exn + claimed_event list) \<times> 'r world" where
  "claim_process_events E limit_s =
     bind_io (get_io (\<lambda>w. claimed_ids E limit_s (w_session w))) (\<lambda>ids.
     bind_io (flush_change (claim_update (re_now E) ids)) (\<lambda>_.
     bind_io (get_io (\<lambda>w. re_returning E
       (filter (\<lambda>e. oe_id e \<in> set ids) (outbox_events (w_session w))))) (\<lambda>rows.
     bind_io (commit (re_claim_fault E)) (\<lambda>_.
     return_io (map claimed_event rows)))))"

subsection \<open>Publishing one event\<close>

definition validate_event_data :: "json \<Rightarrow> exn + json" where
  "validate_event_data data = (case data of
      JDict kvs \<Rightarrow>
        (case map_of kvs (lit ''amount'') of
           None \<Rightarrow> Inl (Exn InvalidOutboxPayload ''Missing amount'')
         | Some (JInt i) \<Rightarrow>
             if i \<le> 0 then Inl (Exn InvalidOutboxPayload ''Amount must be positive'') else Inr data
         | Some (JFloat r) \<Rightarrow>
             if float_nonpos r then Inl (Exn InvalidOutboxPayload ''Amount must be positive'')
             else Inr data
         | Some _ \<Rightarrow> Inl (Exn InvalidOutboxPayload ''Amount must be numeric''))
    | _ \<Rightarrow> Inl (Exn InvalidOutboxPayload ''Payload must be a dictionary''))"

record outbox_update =
  ou_id :: int
  ou_status :: event_status
  ou_retry_count :: int
  ou_last_error :: "string option"

definition retries :: "claimed_event \<Rightarrow> int" where
  "retries e = (case ce_retry_count e of None \<Rightarrow> 0 | Some n \<Rightarrow> n)"

text \<open>The update after a Redis error: one attempt more, and FAILED when they are used up.\<close>

definition retry_update :: "claimed_event \<Rightarrow> string \<Rightarrow> string \<Rightarrow> outbox_update" where
  "retry_update e last_error error =
     (let attempts = retries e + 1 in
      if attempts \<ge> MAX_OUTBOX_RETRIES then
        \<lparr>ou_id = ce_id e, ou_status = ES_FAILED, ou_retry_count = attempts, ou_last_error = Some last_error\<rparr>
      else
        \<lparr>ou_id = ce_id e, ou_status = ES_PENDING, ou_retry_count = attempts, ou_last_error = Some error\<rparr>)"

definition process_single_outbox_event :: "'r redis_streams \<Rightarrow> message_queue \<Rightarrow> string \<Rightarrow> claimed_event
    \<Rightarrow> 'r world \<Rightarrow> (exn + outbox_update) \<times> 'r world" where
  "process_single_outbox_event S q now e =
     (case validate_event_data (ce_data e) of
        Inl exc \<Rightarrow>
          try_io
            (bind_io (enqueue_dead_letter S q now (ce_data e) (ce_id e) (exn_str exc)) (\<lambda>_.
             return_io \<lparr>ou_id = ce_id e, ou_status = ES_FAILED, ou_retry_count = retries e,
               ou_last_error = Some (exn_str exc)\<rparr>))
            (\<lambda>redis_exc. if catches RedisError redis_exc then
               return_io (retry_update e
                 (''DLQ Redis error after max retries: '' @ exn_str redis_exc)
                 (''Validation failed ('' @ exn_str exc @ '') + DLQ Redis error: '' @ exn_str redis_exc))
             else raise_io redis_exc)
      | Inr validated_data \<Rightarrow>
          try_io
            (bind_io (enqueue S q now validated_data) (\<lambda>_.
             return_io \<lparr>ou_id = ce_id e, ou_status = ES_PUBLISHED, ou_retry_count = retries e,
               ou_last_error = None\<rparr>))
            (\<lambda>exc. if catches RedisError exc then
               return_io (retry_update e
                 (''Max retries ('' @ py_str MAX_OUTBOX_RETRIES @ '') reached. Last error: '' @ exn_str exc)
                 (exn_str exc))
             else raise_io exc))"

subsection \<open>Writing the outcomes back\<close>

definition mark_published :: "outbox_event_row \<Rightarrow> outbox_event_row" where
  "mark_published e = e\<lparr>oe_status := ES_PUBLISHED, oe_locked_at := None, oe_last_error := None\<rparr>"

definition publish_update :: "int list \<Rightarrow> db \<Rightarrow> db" where
  "publish_update ids d = d\<lparr>outbox_events :=
     update_where (\<lambda>e. oe_id e \<in> set ids) mark_published (outbox_events d)\<rparr>"

definition mark_error :: "outbox_update \<Rightarrow> outbox_event_row \<Rightarrow> outbox_event_row" where
  "mark_error up e = e\<lparr>oe_status := ou_status up, oe_retry_count := Some (ou_retry_count up),
     oe_last_error := ou_last_error up, oe_locked_at := None\<rparr>"

text \<open>The bulk update by primary key runs the statement once for each item.\<close>

definition error_update :: "outbox_update list \<Rightarrow> db \<Rightarrow> db" where
  "error_update ups d = d\<lparr>outbox_events := fold (\<lambda>up. update_where (\<lambda>e. oe_id e = ou_id up) (mark_error up))
     ups (outbox_events d)\<rparr>"

definition process_outbox_updates :: "exn option \<Rightarrow> outbox_update list
    \<Rightarrow> 'r world \<Rightarrow> (exn + unit) \<times> 'r world" where
  "process_outbox_updates fault updates =
     (if updates = [] then return_io ()
      else
        let published_ids = map ou_id (filter (\<lambda>item. ou_status item = ES_PUBLISHED) updates);
            error_updates = filter (\<lambda>item. ou_status item \<noteq> ES_PUBLISHED) updates
        in bind_io (if published_ids \<noteq> [] then flush_change (publish_update published_ids)
                    else return_io ()) (\<lambda>_.
           bind_io (if error_updates \<noteq> [] then flush_change (error_update error_updates)
                    else return_io ()) (\<lambda>_.
           commit fault)))"

fun process_events :: "'r redis_streams \<Rightarrow> message_queue \<Rightarrow> (int \<Rightarrow> string) \<Rightarrow> claimed_event list
    \<Rightarrow> 'r world \<Rightarrow> (exn + outbox_update list) \<times> 'r world" where
  "process_events S q clock [] = return_io []"
| "process_events S q clock (e # es) =
     bind_io (process_single_outbox_event S q (clock (ce_id e)) e) (\<lambda>result.
     bind_io (process_events S q clock es) (\<lambda>updates. return_io (result # updates)))"

definition process_outbox_event :: "'r redis_streams \<Rightarrow> relay_env
    \<Rightarrow> 'r world \<Rightarrow> (exn + int) \<times> 'r world" where
  "process_outbox_event S E =
     bind_io (get_db (claim_process_events E 100)) (\<lambda>events.
     if events = [] then return_io 0
     else
       bind_io (process_events S default_queue (re_clock E) events) (\<lambda>updates.
       bind_io (others (re_others E)) (\<lambda>_.
       bind_io (get_db (process_outbox_updates (re_update_fault E) updates)) (\<lambda>_.
       return_io (int (length events))))))"

subsection \<open>The keys of the updates\<close>

interpretation claim_keys: keyed_update oe_id "mark_claimed now"
  by unfold_locales (simp add: mark_claimed_def)

interpretation publish_keys: keyed_update oe_id mark_published
  by unfold_locales (simp add: mark_published_def)

interpretation error_keys: keyed_update oe_id "mark_error up"
  by unfold_locales (simp add: mark_error_def)

end
