(* ===== verification/Samples.thy ===== *)
theory Samples
  imports Payments
begin

text \<open>
  Concrete users, pools, attempts and worlds, on which the witnesses of the properties run the
  model. Redis is the reference server \<open>ref_sets\<close>.
\<close>

definition sample_user :: user_row where
  "sample_user = \<lparr>u_id = 7, u_telegram_id = None, u_username = Some (lit ''alice''),
     u_hashed_password = Some (lit ''h''), u_name = lit ''Alice'', u_admin = False, u_is_active = True,
     u_joined_at = 0\<rparr>"

definition sample_db :: db where
  "sample_db = empty_db\<lparr>users := [sample_user]\<rparr>"

definition sample_attempt :: attempt where
  "sample_attempt = \<lparr>at_query_fault = None, at_pick = hd, at_others = id, at_flush_fault = None,
     at_order_id = 1, at_intent_id = 1, at_now = 1000\<rparr>"

definition sample_pool :: ref_state where
  "sample_pool = ref_empty\<lparr>rs_sets := (\<lambda>k. if k = ''amounts'' \<or> k = ''free_amounts''
       then [''1500001'', ''1500002''] else [])\<rparr>"

definition sample_world :: "ref_state world" where
  "sample_world = \<lparr>w_committed = sample_db, w_session = sample_db, w_redis = sample_pool\<rparr>"

definition sample_order_result :: "(exn + order_row option) \<times> ref_state world" where
  "sample_order_result = create_order_service ref_sets (\<lambda>_. sample_attempt) 7 1500000 3 sample_world"

definition sample_endpoint_result :: "(exn + order_row) \<times> ref_state world" where
  "sample_endpoint_result =
     create_order ref_sets (\<lambda>_. sample_attempt) None None 7 1500000 sample_world"

text \<open>A Redis server that is down for \<open>SPOP\<close>.\<close>

definition down_sets :: "ref_state redis_sets" where
  "down_sets = ref_sets\<lparr>spop := (\<lambda>k r. (Inl (Exn RedisConnectionError ''connection refused''), r))\<rparr>"

lemma down_set_server: "redis_set_server down_sets"
  using ref.redis_set_server_axioms unfolding redis_set_server_def down_sets_def by simp

lemmas sample_defs = sample_user_def sample_db_def sample_attempt_def sample_pool_def
  sample_world_def

lemma sample_order_created:
  "fst sample_order_result = Inr (Some (new_order sample_attempt 7 1500000))"
  by code_simp

lemma sample_endpoint_created:
  "fst sample_endpoint_result = Inr (new_order sample_attempt 7 1500000)"
  by code_simp

lemma valid_sample_db [simp]: "valid_db sample_db"
  by code_simp

lemma sample_pool_fresh: "pool_fresh (smembers ref_sets sample_pool)"
proof -
  have "py_str 1500001 = ''1500001''" "py_str 1500002 = ''1500002''" by code_simp code_simp
  then show ?thesis
    by (auto simp: pool_fresh_def pool_disjoint_def ref_sets_def sample_pool_def
        intro: exI [of _ 1500001] exI [of _ 1500002])
qed

subsection \<open>A payment that is due\<close>

definition sample_driver :: driver where
  "sample_driver v = (case v of JInt i \<Rightarrow> if int4 i then Some i else None | _ \<Rightarrow> None)"

definition sample_race :: race where
  "sample_race = \<lparr>rc_check_fault = None, rc_before_lock = id, rc_lock_fault = None,
     rc_after_lock = id, rc_flush_fault = None, rc_commit_fault = None\<rparr>"

definition sample_sms :: sms_transaction_row where
  "sample_sms = \<lparr>st_id = 5, st_sms_amount = 1500001, st_sms_inventory = 2000000,
     st_sms_date = lit ''1403.01.01'', st_sms_time = lit ''12:00'', st_webhook_payload = lit ''sms''\<rparr>"

definition due_intent :: payment_intent_row where
  "due_intent = new_payment_intent sample_attempt 1500000 1500001"

definition due_db :: db where
  "due_db = add_order (new_order sample_attempt 7 1500000) due_intent
     (sample_db\<lparr>sms_transactions := [sample_sms]\<rparr>)"

definition due_pool :: ref_state where
  "due_pool = ref_empty\<lparr>rs_sets := (\<lambda>k. if k = ''pending_orders'' then [''1500001'']
       else if k = ''amounts'' \<or> k = ''free_amounts'' then [''1500002''] else [])\<rparr>"

definition due_world :: "ref_state world" where
  "due_world = \<lparr>w_committed = due_db, w_session = due_db, w_redis = due_pool\<rparr>"

definition due_message :: "(pystr \<times> json) list" where
  "due_message = [(lit ''transaction_id'', JInt 5), (lit ''trace_id'', JStr (lit ''tx_1'')),
     (lit ''amount'', JInt 1500001), (lit ''type'', JStr (lit ''payment''))]"

definition paid_result :: "(exn + bool) \<times> ref_state world" where
  "paid_result = handle_payment ref_sets sample_driver sample_race (JDict due_message) due_world"

lemma paid_result_True: "fst paid_result = Inr True"
  by code_simp

lemma valid_due_db [simp]: "valid_db due_db"
  by code_simp

lemma due_message_get [simp]:
  "dict_get due_message ''transaction_id'' = JInt 5" "dict_get due_message ''amount'' = JInt 1500001"
  by code_simp code_simp

lemma idle_due_world [simp]: "idle due_world"
  by (simp add: idle_def due_world_def)

lemma due_world_sel [simp]: "w_committed due_world = due_db" "w_session due_world = due_db"
  "w_redis due_world = due_pool"
  by (simp_all add: due_world_def)

lemma sample_driver_int [simp]: "int4 i \<Longrightarrow> sample_driver (JInt i) = Some i"
  by (simp add: sample_driver_def)

lemma sample_race_sel [simp]:
  "rc_check_fault sample_race = None" "rc_before_lock sample_race = id"
  "rc_lock_fault sample_race = None" "rc_after_lock sample_race = id"
  "rc_flush_fault sample_race = None" "rc_commit_fault sample_race = None"
  by (simp_all add: sample_race_def)

text \<open>The same payment when the commit fails, and when another worker was faster.\<close>

definition failing_commit :: race where
  "failing_commit = sample_race\<lparr>rc_commit_fault := Some (Exn OperationalError ''server closed'')\<rparr>"

definition failed_result :: "(exn + bool) \<times> ref_state world" where
  "failed_result = handle_payment ref_sets sample_driver failing_commit (JDict due_message) due_world"

lemma failed_result_Inl: "fst failed_result
    = Inl (Exn CriticalRejectMessage ''Unexpected error server closed'')"
  by code_simp

text \<open>Another session creates the order 2 and attaches the SMS 5 to it.\<close>

definition faster_worker :: "db \<Rightarrow> db" where
  "faster_worker d = add_order
     (order_paid (new_order (sample_attempt\<lparr>at_order_id := 2\<rparr>) 7 1500000))
     (attach_sms 5 (new_payment_intent (sample_attempt\<lparr>at_order_id := 2, at_intent_id := 2\<rparr>) 1500000 1500003)) d"

definition racing :: race where
  "racing = sample_race\<lparr>rc_after_lock := faster_worker\<rparr>"

lemma valid_raced_db [simp]: "valid_db (faster_worker due_db)"
  by code_simp

text \<open>A confirmation of the due payment, and two uses of one amount.\<close>

definition confirmed_result :: "(exn + payment_intent_row) \<times> ref_state world" where
  "confirmed_result = confirm_payment ref_sets sample_race 1 1 due_world"

lemma confirmed_result_Inr: "fst confirmed_result = Inr (set_paid due_intent)"
  by code_simp

definition sample_amount :: allocated_amount where
  "sample_amount = \<lparr>aa_value = 1500001, aa_source = REDIS\<rparr>"

definition first_use :: "(exn + allocated_amount option) \<times> ref_state world" where
  "first_use = get_unique_amount ref_sets sample_attempt None sample_world"

definition freed_use :: "(exn + bool) \<times> ref_state" where
  "freed_use = smove ref_sets ''pending_orders'' ''free_amounts'' (py_str 1500001)
     (w_redis (snd first_use))"

definition second_use :: "(exn + allocated_amount option) \<times> ref_state world" where
  "second_use = get_unique_amount ref_sets sample_attempt None
     (snd first_use\<lparr>w_redis := snd freed_use\<rparr>)"

lemma sample_uses:
  "fst first_use = Inr (Some sample_amount)" "fst freed_use = Inr True"
  "fst second_use = Inr (Some sample_amount)" "aa_value sample_amount = 1500001"
  "aa_source sample_amount = REDIS"
  by (code_simp+)

end
