(* ===== verification/Outbox_Samples.thy ===== *)
theory Outbox_Samples
  imports Outbox Samples
begin

text \<open>
  Concrete outbox events and environments, on which the witnesses of the outbox and worker
  properties run the model. Redis is the reference server \<open>ref_streams\<close>.
\<close>

definition sample_event :: outbox_event_row where
  "sample_event = \<lparr>oe_id = 11, oe_status = ES_PENDING, oe_data = JDict due_message,
     oe_created_at = 900, oe_retry_count = Some 0, oe_locked_at = None, oe_last_error = None\<rparr>"

definition bad_event :: outbox_event_row where
  "bad_event = sample_event\<lparr>oe_id := 12, oe_data := JDict [(lit ''type'', JStr (lit ''payment''))]\<rparr>"

definition settled_event :: outbox_event_row where
  "settled_event = sample_event\<lparr>oe_id := 13, oe_status := ES_PUBLISHED\<rparr>"

definition outbox_db :: db where
  "outbox_db = due_db\<lparr>outbox_events := [sample_event, bad_event, settled_event]\<rparr>"

definition outbox_world :: "ref_state world" where
  "outbox_world = \<lparr>w_committed = outbox_db, w_session = outbox_db, w_redis = due_pool\<rparr>"

definition calm_env :: relay_env where
  "calm_env = \<lparr>re_now = 1000, re_locked = (\<lambda>_. False), re_ties = id, re_returning = id,
     re_claim_fault = None, re_clock = (\<lambda>_. ''1000.5''), re_others = id, re_update_fault = None\<rparr>"

definition relay_result :: "(exn + int) \<times> ref_state world" where
  "relay_result = process_outbox_event ref_streams calm_env outbox_world"

definition claim_result_2 :: "(exn + claimed_event list) \<times> ref_state world" where
  "claim_result_2 = claim_process_events calm_env 1 outbox_world"

definition single_result :: "(exn + outbox_update) \<times> ref_state world" where
  "single_result = process_single_outbox_event ref_streams default_queue ''1000.5''
     (claimed_event sample_event) outbox_world"

text \<open>A run during which another relay records an event of its own and claims it.\<close>

definition other_event :: outbox_event_row where
  "other_event = sample_event\<lparr>oe_id := 14, oe_status := ES_PROCESSING, oe_locked_at := Some 1000\<rparr>"

definition busy_env :: relay_env where
  "busy_env = calm_env\<lparr>re_others := (\<lambda>d. d\<lparr>outbox_events := outbox_events d @ [other_event]\<rparr>)\<rparr>"

definition busy_result :: "(exn + int) \<times> ref_state world" where
  "busy_result = process_outbox_event ref_streams busy_env outbox_world"

text \<open>A run so slow that another relay takes its first event over and publishes it.\<close>

definition taken_over :: outbox_event_row where
  "taken_over = mark_published (mark_claimed 1000 sample_event)"

definition late_env :: relay_env where
  "late_env = calm_env\<lparr>re_others := publish_update [11]\<rparr>"

text \<open>A Redis server that is down for \<open>XADD\<close>.\<close>

definition down_streams :: "ref_state redis_streams" where
  "down_streams = ref_streams\<lparr>
     xadd := (\<lambda>s fs n r. (Inl (Exn RedisConnectionError ''connection refused''), r))\<rparr>"

lemma down_stream_server: "redis_stream_server down_streams"
  using ref.redis_stream_server_axioms unfolding redis_stream_server_def down_streams_def by simp

lemma relay_result_Inr: "fst relay_result = Inr 2"
  by code_simp

lemma claim_result_2_Inr: "fst claim_result_2 = Inr [claimed_event sample_event]"
  by code_simp

lemma single_result_Inr: "fst single_result = Inr
    \<lparr>ou_id = 11, ou_status = ES_PUBLISHED, ou_retry_count = 0, ou_last_error = None\<rparr>"
  by code_simp

lemma valid_outbox_db [simp]: "valid_db outbox_db"
  by code_simp

lemma outbox_world_sel [simp]: "w_committed outbox_world = outbox_db" "idle outbox_world"
  "w_redis outbox_world = due_pool"
  by (simp_all add: outbox_world_def idle_def)

lemma outbox_events_db: "outbox_events outbox_db = [sample_event, bad_event, settled_event]"
  by (simp add: outbox_db_def)

lemma busy_claims: "claimed_ids busy_env 100 outbox_db = [11, 12]"
  by code_simp

lemma busy_others: "re_others busy_env d = d\<lparr>outbox_events := outbox_events d @ [other_event]\<rparr>"
  by (simp add: busy_env_def)

lemma sample_ids: "oe_id sample_event = 11" "oe_id bad_event = 12" "oe_id settled_event = 13"
  "oe_id other_event = 14"
  by (simp_all add: sample_event_def bad_event_def settled_event_def other_event_def)

lemma busy_now: "re_now busy_env = 1000"
  by (simp add: busy_env_def calm_env_def)

lemma busy_result_changed: "w_committed (snd busy_result) \<noteq> outbox_db"
proof -
  have "map oe_id (outbox_events (w_committed (snd busy_result))) = [11, 12, 13, 14]" by code_simp
  moreover have "map oe_id (outbox_events outbox_db) = [11, 12, 13]" by code_simp
  ultimately show ?thesis by auto
qed

lemma calm_env_sel [simp]: "re_now calm_env = 1000" "re_locked calm_env i = False"
  "re_ties calm_env = id" "re_returning calm_env = id" "re_others calm_env = id"
  "re_claim_fault calm_env = None" "re_update_fault calm_env = None"
  by (simp_all add: calm_env_def)

end
