(* ===== verification/Queue_Delivery.thy ===== *)
theory Queue_Delivery
  imports Outbox_Samples
begin

text \<open>
  What the queue delivers: a read returns messages with the data that was enqueued, and counts a
  first delivery for each.
\<close>

lemma map_result_mem:
  "map_result f xs = Inr ys \<Longrightarrow> y \<in> set ys \<Longrightarrow> \<exists>x \<in> set xs. f x = Inr y"
  by (induction xs arbitrary: ys) (auto split: sum.splits)

lemma to_message_sel:
  "to_message fl t stream att (i, fs) = Inr m \<Longrightarrow> m_id m = i \<and> m_stream m = stream \<and>
    json_field fl fs = Inr (m_data m) \<and> att fs = Inr (m_attempts m)"
  by (auto simp: to_message_def split: sum.splits)

context redis_stream_server
begin

text \<open>Every message of a read stands for an entry that was not delivered to the group before.\<close>

lemma read_entry:
  assumes "read_messages S fl t c n w = (Inr ms, w')" and "m \<in> set ms"
  obtains fs where "(m_id m, fs) \<in> set (entries S (w_redis w) (cg_stream_name c))"
    "to_message fl t (cg_stream_name c) (\<lambda>fs. int_field fs ''attempts'') (m_id m, fs) = Inr m"
    "pel S (w_redis w) (cg_stream_name c) (cg_group_name c) (m_id m) = None"
    "pel S (w_redis w') (cg_stream_name c) (cg_group_name c) (m_id m) = Some 1"
proof -
  let ?s = "cg_stream_name c" and ?g = "cg_group_name c" and ?n = "cg_consumer_name c"
  obtain x r where run: "xreadgroup S ?g ?n ?s n (w_redis w) = (x, r)" by fastforce
  with assms(1) obtain res where res: "xreadgroup S ?g ?n ?s n (w_redis w) = (Inr res, w_redis w')"
    and ms: "map_result (\<lambda>(stream, e). to_message fl t stream (\<lambda>fs. int_field fs ''attempts'') e)
      (concat (map (\<lambda>(stream, es). map (Pair stream) es) res)) = Inr ms"
    by (auto simp: read_messages_def io_defs split: sum.splits prod.splits)
  from map_result_mem [OF ms assms(2)] obtain stream es e where
    e: "(stream, es) \<in> set res" "e \<in> set es"
      "to_message fl t stream (\<lambda>fs. int_field fs ''attempts'') e = Inr m" by auto
  obtain fs where [simp]: "e = (m_id m, fs)" using e(3) to_message_sel by (cases e) blast
  have "e \<in> set (concat (map snd res))" using e by force
  then have "m_id m \<in> fst ` set (concat (map snd res))" by force
  with xreadgroup_Inr [OF res] e show ?thesis
    by (intro that [of fs]) (auto simp: first_delivery_def dest: bspec [of _ _ "(stream, es)"])
qed

lemma enqueue_entry:
  assumes "enqueue S q now data w = (Inr i, w1)"
  shows "(i, enqueue_payload now data) \<in> set (entries S (w_redis w1) (mq_stream_name q)) \<and>
    (\<forall>fs. (i, fs) \<in> set (entries S (w_redis w1) (mq_stream_name q)) \<longrightarrow> fs = enqueue_payload now data)"
proof -
  from assms have "xadd S (mq_stream_name q) (enqueue_payload now data) (Some (mq_max_len q)) (w_redis w)
      = (Inr i, w_redis w1)"
    by (auto simp: enqueue_def dest: on_redis_world)
  from xadd_Inr [OF this] show ?thesis
    by (auto simp: appended_def dest!: in_set_dropD) (force+)
qed

end

text \<open>
  What is enqueued is what is read: when \<open>enqueue\<close> has returned an id, a consumer group that
  then reads the message with this id gets the data that was enqueued, with no attempts and the
  time of the enqueue; it had not been delivered to the group before and it is delivered once now.
\<close>

lemma enqueued_data_is_read_back:
  assumes "redis_stream_server S" and "enqueue S q now data w = (Inr i, w1)"
    and "wf_json fl data" and "fl now = Some now" and "cg_stream_name c = mq_stream_name q"
    and "read_messages S fl t c n w1 = (Inr ms, w2)" and "m \<in> set ms" and "m_id m = i"
  shows "m = \<lparr>m_id = i, m_stream = mq_stream_name q, m_data = data, m_attempts = 0,
      m_created_at = now\<rparr> \<and>
    pel S (w_redis w1) (mq_stream_name q) (cg_group_name c) i = None \<and>
    pel S (w_redis w2) (mq_stream_name q) (cg_group_name c) i = Some 1"
proof -
  from redis_stream_server.read_entry [OF assms(1,6,7)] obtain fs where
    fs: "(i, fs) \<in> set (entries S (w_redis w1) (mq_stream_name q))"
      "to_message fl t (mq_stream_name q) (\<lambda>fs. int_field fs ''attempts'') (i, fs) = Inr m"
      "pel S (w_redis w1) (mq_stream_name q) (cg_group_name c) i = None"
      "pel S (w_redis w2) (mq_stream_name q) (cg_group_name c) i = Some 1"
    using assms(5,8) by auto
  with redis_stream_server.enqueue_entry [OF assms(1,2)] have "fs = enqueue_payload now data" by blast
  with fs enqueued_message [OF assms(3,4), of t "mq_stream_name q" i] show ?thesis by simp
qed

definition sample_group :: consumer_group where
  "sample_group = consumer_group default_queue ''orders_processors'' ''worker-1'' ''''"

definition enqueued :: "(exn + string) \<times> ref_state world" where
  "enqueued = enqueue ref_streams default_queue ''1000.5'' (JDict due_message) due_world"

definition read_back :: "(exn + message list) \<times> ref_state world" where
  "read_back = read_messages ref_streams Some ''1001.5'' sample_group 10 (snd enqueued)"

definition due_queue_message :: message where
  "due_queue_message = \<lparr>m_id = ''2'', m_stream = ''pending_orders_queue'', m_data = JDict due_message,
     m_attempts = 0, m_created_at = ''1000.5''\<rparr>"

lemma sample_delivery: "fst enqueued = Inr ''2''" "fst read_back = Inr [due_queue_message]"
  by (code_simp+)

lemma enqueued_data_is_read_back_witness:
  "fst read_back = Inr [due_queue_message] \<and>
   due_queue_message = \<lparr>m_id = ''2'', m_stream = ''pending_orders_queue'', m_data = JDict due_message,
     m_attempts = 0, m_created_at = ''1000.5''\<rparr> \<and>
   pel ref_streams (w_redis (snd read_back)) ''pending_orders_queue'' ''orders_processors'' ''2'' = Some 1"
proof -
  have queue: "mq_stream_name default_queue = ''pending_orders_queue''" "cg_group_name sample_group = ''orders_processors''"
    "cg_stream_name sample_group = mq_stream_name default_queue"
    by (simp_all add: sample_group_def consumer_group_def default_queue_def message_queue_def)
  have runs: "enqueue ref_streams default_queue ''1000.5'' (JDict due_message) due_world = (Inr ''2'', snd enqueued)"
    "read_messages ref_streams Some ''1001.5'' sample_group 10 (snd enqueued)
      = (Inr [due_queue_message], snd read_back)"
    using sample_delivery by (simp_all add: prod_eq_iff enqueued_def read_back_def)
  have data: "wf_json Some (JDict due_message)" by code_simp
  from enqueued_data_is_read_back [OF ref.redis_stream_server_axioms runs(1) data refl queue(3) runs(2)]
  show ?thesis by (simp add: sample_delivery queue due_queue_message_def)
qed

end
