(* ===== verification/Worker.thy ===== *)
theory Worker
  imports Payments Queue_Delivery
begin

text \<open>
  The worker of app/worker.py: it claims stale messages, reads new ones, runs the handler of the
  message type, acknowledges what was handled, leaves a failure for a later attempt, and moves
  it to the dead letter stream when the attempts are used up.

  A handler takes the message and the world and returns a bool, \<open>None\<close>, or raises. \<open>batch_env\<close>
  holds the clock readings of one iteration.
\<close>

type_synonym 'r handler = "message \<Rightarrow> 'r world \<Rightarrow> (exn + bool option) \<times> 'r world"

record 'r worker =
  wk_queue :: message_queue
  wk_group_name :: string
  wk_worker_id :: string
  wk_max_retries :: int
  wk_handlers :: "(string \<times> 'r handler) list"
  wk_default_handler :: "'r handler option"

definition register_handler :: "string \<Rightarrow> 'r handler \<Rightarrow> 'r worker \<Rightarrow> 'r worker" where
  "register_handler message_type h K = K\<lparr>wk_handlers := AList.update message_type h (wk_handlers K)\<rparr>"

definition set_default_handler :: "'r handler \<Rightarrow> 'r worker \<Rightarrow> 'r worker" where
  "set_default_handler h K = K\<lparr>wk_default_handler := Some h\<rparr>"

definition new_worker :: "message_queue \<Rightarrow> string \<Rightarrow> string \<Rightarrow> int \<Rightarrow> 'r worker" where
  "new_worker q group_name worker_id max_retries =
     \<lparr>wk_queue = q, wk_group_name = group_name, wk_worker_id = worker_id,
      wk_max_retries = max_retries, wk_handlers = [], wk_default_handler = None\<rparr>"

text \<open>A list or a dictionary is not hashable, so that \<open>in\<close> raises; other values find no name.\<close>

definition get_handler :: "'r worker \<Rightarrow> json \<Rightarrow> exn + 'r handler option" where
  "get_handler K data = (case data_get data ''type'' of
      Inl e \<Rightarrow> Inl e
    | Inr msg_type \<Rightarrow>
        if \<not> truthy msg_type then Inr (wk_default_handler K)
        else (case msg_type of
            JStr s \<Rightarrow> (case map_of (map (\<lambda>(k, h). (lit k, h)) (wk_handlers K)) s of
               Some h \<Rightarrow> Inr (Some h) | None \<Rightarrow> Inr (wk_default_handler K))
          | JList _ \<Rightarrow> Inl (Exn TypeError ''unhashable type'')
          | JDict _ \<Rightarrow> Inl (Exn TypeError ''unhashable type'')
          | _ \<Rightarrow> Inr (wk_default_handler K)))"

definition process_message :: "'r worker \<Rightarrow> message \<Rightarrow> 'r world \<Rightarrow> (exn + bool) \<times> 'r world" where
  "process_message K m =
     bind_io (lift_io (data_get (m_data m) ''trace_id'')) (\<lambda>_.
     bind_io (lift_io (get_handler K (m_data m))) (\<lambda>handler.
     case handler of
       None \<Rightarrow> return_io False
     | Some h \<Rightarrow>
         try_io
           (bind_io (h m) (\<lambda>result. return_io (case result of None \<Rightarrow> True | Some b \<Rightarrow> b)))
           (\<lambda>e. if catches IgnoreAndAckMessage e then return_io True
                else if catches CriticalRejectMessage e then return_io False
                else if catches Exception_cls e then return_io False
                else raise_io e)))"

subsection \<open>Failures\<close>

definition dead_fields :: "message \<Rightarrow> string \<Rightarrow> fields" where
  "dead_fields m now =
     [(''data'', dumps (m_data m)), (''original_id'', lit (m_id m)),
      (''attempts'', lit (py_str (m_attempts m))), (''failed_at'', lit now)]"

definition move_to_dead_letter :: "'r redis_streams \<Rightarrow> 'r worker \<Rightarrow> string \<Rightarrow> message
    \<Rightarrow> 'r world \<Rightarrow> (exn + string) \<times> 'r world" where
  "move_to_dead_letter S K now m =
     on_redis (xadd S (mq_dead_letter_stream (wk_queue K)) (dead_fields m now) None)"

definition handle_failure :: "'r redis_streams \<Rightarrow> 'r worker \<Rightarrow> consumer_group \<Rightarrow> string \<Rightarrow> message
    \<Rightarrow> 'r world \<Rightarrow> (exn + unit) \<times> 'r world" where
  "handle_failure S K c now m =
     bind_io (lift_io (data_get (m_data m) ''trace_id'')) (\<lambda>_.
     if m_attempts m \<ge> wk_max_retries K then
       try_io
         (bind_io (move_to_dead_letter S K now m) (\<lambda>_.
          bind_io (acknowledge S c (m_id m)) (\<lambda>_. return_io ())))
         (\<lambda>dlq_err. if catches Exception_cls dlq_err then return_io () else raise_io dlq_err)
     else return_io ())"

subsection \<open>A batch\<close>

text \<open>The body of both loops of \<open>_process_batch\<close>.\<close>

definition work_message :: "'r redis_streams \<Rightarrow> 'r worker \<Rightarrow> consumer_group \<Rightarrow> string \<Rightarrow> message
    \<Rightarrow> 'r world \<Rightarrow> (exn + unit) \<times> 'r world" where
  "work_message S K c now m =
     bind_io (lift_io (data_get (m_data m) ''amount'')) (\<lambda>amount.
     bind_io (lift_io (data_get (m_data m) ''trace_id'')) (\<lambda>_.
     if \<not> truthy amount then
       bind_io (move_to_dead_letter S K now m) (\<lambda>_.
       bind_io (acknowledge S c (m_id m)) (\<lambda>_. return_io ()))
     else
       bind_io (process_message K m) (\<lambda>ok.
       if ok then bind_io (acknowledge S c (m_id m)) (\<lambda>_. return_io ())
       else handle_failure S K c now m)))"

fun work_messages :: "'r redis_streams \<Rightarrow> 'r worker \<Rightarrow> consumer_group \<Rightarrow> (string \<Rightarrow> string)
    \<Rightarrow> message list \<Rightarrow> 'r world \<Rightarrow> (exn + unit) \<times> 'r world" where
  "work_messages S K c clock [] = return_io ()"
| "work_messages S K c clock (m # ms) =
     bind_io (work_message S K c (clock (m_id m)) m) (\<lambda>_. work_messages S K c clock ms)"

record batch_env =
  be_claim_now :: string
  be_read_now :: string
  be_clock :: "string \<Rightarrow> string"

definition process_batch :: "'r redis_streams \<Rightarrow> (string \<Rightarrow> string option) \<Rightarrow> 'r worker
    \<Rightarrow> consumer_group \<Rightarrow> batch_env \<Rightarrow> 'r world \<Rightarrow> (exn + unit) \<times> 'r world" where
  "process_batch S fl K c E =
     bind_io (claim_stale_message S fl (be_claim_now E) c 6000 10) (\<lambda>stale.
     bind_io (work_messages S K c (be_clock E) stale) (\<lambda>_.
     bind_io (read_messages S fl (be_read_now E) c 10) (\<lambda>messages.
     work_messages S K c (be_clock E) messages)))"

subsection \<open>The loop\<close>

text \<open>One element of the list for each time \<open>self.running\<close> is found true.\<close>

fun run_worker :: "'r redis_streams \<Rightarrow> (string \<Rightarrow> string option) \<Rightarrow> 'r worker \<Rightarrow> consumer_group
    \<Rightarrow> batch_env list \<Rightarrow> 'r world \<Rightarrow> (exn + unit) \<times> 'r world" where
  "run_worker S fl K c [] = return_io ()"
| "run_worker S fl K c (E # Es) =
     bind_io
       (try_io (process_batch S fl K c E)
          (\<lambda>e. if catches RedisTimeoutError e then return_io ()
               else if catches Exception_cls e then return_io () else raise_io e))
       (\<lambda>_. run_worker S fl K c Es)"

definition start_worker :: "'r redis_streams \<Rightarrow> (string \<Rightarrow> string option) \<Rightarrow> 'r worker \<Rightarrow> string
    \<Rightarrow> batch_env list \<Rightarrow> 'r world \<Rightarrow> (exn + unit) \<times> 'r world" where
  "start_worker S fl K fresh Es =
     bind_io (create_group S (wk_queue K) (wk_group_name K) (wk_worker_id K) fresh) (\<lambda>consumer.
     run_worker S fl K consumer Es)"

text \<open>The worker of \<open>main\<close>: payments are handled by \<open>handle_payment\<close>.\<close>

definition payment_handler :: "'r redis_sets \<Rightarrow> driver \<Rightarrow> (message \<Rightarrow> race) \<Rightarrow> 'r handler" where
  "payment_handler R bind_int races m =
     bind_io (handle_payment R bind_int (races m) (m_data m)) (\<lambda>b. return_io (Some b))"

definition payment_worker :: "'r redis_sets \<Rightarrow> driver \<Rightarrow> (message \<Rightarrow> race) \<Rightarrow> 'r worker" where
  "payment_worker R bind_int races =
     register_handler ''payment'' (payment_handler R bind_int races)
       (new_worker default_queue ''orders_processors'' ''worker-1'' 3)"

subsection \<open>The messages of a batch\<close>

text \<open>The messages the loops come to, each with the world it was met in.\<close>

fun visits :: "'r redis_streams \<Rightarrow> 'r worker \<Rightarrow> consumer_group \<Rightarrow> (string \<Rightarrow> string)
    \<Rightarrow> message list \<Rightarrow> 'r world \<Rightarrow> (message \<times> 'r world) list" where
  "visits S K c clock [] w = []"
| "visits S K c clock (m # ms) w = (m, w) #
     (case work_message S K c (clock (m_id m)) m w of
        (Inl e, w') \<Rightarrow> [] | (Inr _, w') \<Rightarrow> visits S K c clock ms w')"

definition batch_visits :: "'r redis_streams \<Rightarrow> (string \<Rightarrow> string option) \<Rightarrow> 'r worker
    \<Rightarrow> consumer_group \<Rightarrow> batch_env \<Rightarrow> 'r world \<Rightarrow> (message \<times> 'r world) list" where
  "batch_visits S fl K c E w = (case claim_stale_message S fl (be_claim_now E) c 6000 10 w of
      (Inl e, w1) \<Rightarrow> []
    | (Inr stale, w1) \<Rightarrow> visits S K c (be_clock E) stale w1 @
        (case work_messages S K c (be_clock E) stale w1 of
           (Inl e, w2) \<Rightarrow> []
         | (Inr u, w2) \<Rightarrow> (case read_messages S fl (be_read_now E) c 10 w2 of
              (Inl e, w3) \<Rightarrow> []
            | (Inr messages, w3) \<Rightarrow> visits S K c (be_clock E) messages w3)))"

fun run_visits :: "'r redis_streams \<Rightarrow> (string \<Rightarrow> string option) \<Rightarrow> 'r worker
    \<Rightarrow> consumer_group \<Rightarrow> batch_env list \<Rightarrow> 'r world \<Rightarrow> (message \<times> 'r world) list" where
  "run_visits S fl K c [] w = []"
| "run_visits S fl K c (E # Es) w =
     batch_visits S fl K c E w @ run_visits S fl K c Es (snd (process_batch S fl K c E w))"

lemma run_worker_step: "run_worker S fl K c (E # Es) w = run_worker S fl K c Es (snd (process_batch S fl K c E w))"
  by (auto simp: io_combinators split: prod.splits sum.splits)

end
