(* ===== verification/Worker_Safety.thy ===== *)
theory Worker_Safety
  imports Worker
begin

text \<open>
  The worker loses no message: what leaves the pending entries list of the group was handled, or
  is in the dead letter stream, whatever Redis and the handlers do. The contract of a handler is
  that it leaves the streams alone; it is an assumption of the locale \<open>queue_worker\<close>.
\<close>

definition in_pel :: "'r redis_streams \<Rightarrow> consumer_group \<Rightarrow> 'r world \<Rightarrow> string \<Rightarrow> bool" where
  "in_pel S c w i = (pel S (w_redis w) (cg_stream_name c) (cg_group_name c) i \<noteq> None)"

definition dead_stream :: "'r worker \<Rightarrow> string" where
  "dead_stream K = mq_dead_letter_stream (wk_queue K)"

definition buried :: "'r redis_streams \<Rightarrow> 'r worker \<Rightarrow> 'r world \<Rightarrow> message \<Rightarrow> bool" where
  "buried S K w m \<longleftrightarrow> (\<exists>j t. (j, dead_fields m t) \<in> set (entries S (w_redis w) (dead_stream K)))"

text \<open>The worker is done with a message it met in the world \<open>v\<close>.\<close>

definition settled :: "'r redis_streams \<Rightarrow> 'r worker \<Rightarrow> message \<Rightarrow> 'r world \<Rightarrow> 'r world \<Rightarrow> bool" where
  "settled S K m v w \<longleftrightarrow> (\<exists>a. json_get (m_data m) ''amount'' = Some a \<and>
     (if truthy a then \<exists>b v'. process_message K m v = (Inr b, v') \<and>
        (b \<or> (wk_max_retries K \<le> m_attempts m \<and> buried S K w m))
      else buried S K w m))"

text \<open>Every stream but the dead letter stream is as it was, and that one has only grown.\<close>

definition grows :: "'r redis_streams \<Rightarrow> 'r worker \<Rightarrow> 'r world \<Rightarrow> 'r world \<Rightarrow> bool" where
  "grows S K w w' \<longleftrightarrow> (\<forall>s. s \<noteq> dead_stream K \<longrightarrow> entries S (w_redis w') s = entries S (w_redis w) s) \<and>
     set (entries S (w_redis w) (dead_stream K)) \<subseteq> set (entries S (w_redis w') (dead_stream K))"

lemma grows_same: "entries S (w_redis w') = entries S (w_redis w) \<Longrightarrow> grows S K w w'"
  by (simp add: grows_def)

lemma grows_trans: "grows S K w1 w2 \<Longrightarrow> grows S K w2 w3 \<Longrightarrow> grows S K w1 w3"
  by (auto simp: grows_def)

lemma buried_grows: "buried S K w m \<Longrightarrow> grows S K w w' \<Longrightarrow> buried S K w' m"
  by (auto simp: buried_def grows_def)

lemma settled_grows: "settled S K m v w \<Longrightarrow> grows S K w w' \<Longrightarrow> settled S K m v w'"
  by (auto simp: settled_def intro: buried_grows split: if_splits)

lemma data_get_Inr [simp]: "data_get data k = Inr a \<longleftrightarrow> json_get data k = Some a"
  by (auto simp: data_get_def split: option.splits)

locale queue_worker = redis_stream_server S
  for S :: "'r redis_streams" +
  fixes K :: "'r worker" and c :: consumer_group
  assumes consumes: "cg_stream_name c = mq_stream_name (wk_queue K)"
    and dead_apart: "dead_stream K \<noteq> mq_stream_name (wk_queue K)"
    and handler_keeps: "get_handler K data = Inr (Some h) \<Longrightarrow> h m w = (x, w') \<Longrightarrow>
      entries S (w_redis w') = entries S (w_redis w) \<and> pel S (w_redis w') = pel S (w_redis w)"
begin

lemma process_keeps:
  assumes "process_message K m w = (x, w')"
  shows "entries S (w_redis w') = entries S (w_redis w) \<and> pel S (w_redis w') = pel S (w_redis w)"
proof (cases "\<exists>h. get_handler K (m_data m) = Inr (Some h)")
  case True
  then obtain h where h: "get_handler K (m_data m) = Inr (Some h)" by blast
  obtain y v where run: "h m w = (y, v)" by fastforce
  with assms h have "w' = w \<or> w' = v"
    by (auto simp: process_message_def io_defs split: sum.splits option.splits if_splits)
  with handler_keeps [OF h run] show ?thesis by auto
next
  case False
  with assms have "w' = w"
    by (auto simp: process_message_def io_defs split: sum.splits option.splits)
  then show ?thesis by simp
qed

lemma move_result:
  assumes "move_to_dead_letter S K t m w = (x, w')"
  shows "grows S K w w' \<and> pel S (w_redis w') = pel S (w_redis w) \<and>
    (\<forall>i. x = Inr i \<longrightarrow> buried S K w' m)"
proof -
  have run: "xadd S (dead_stream K) (dead_fields m t) None (w_redis w) = (x, w_redis w')"
    using assms by (auto simp: move_to_dead_letter_def dead_stream_def dest: on_redis_world)
  show ?thesis
  proof (cases x)
    case (Inl e)
    with xadd_Inl [of "dead_stream K" "dead_fields m t" None] run show ?thesis
      by (fastforce simp: appended_def grows_def)
  next
    case (Inr i)
    with xadd_Inr [of "dead_stream K" "dead_fields m t" None] run show ?thesis
      by (fastforce simp: appended_def grows_def buried_def)
  qed
qed

definition acked_pel :: "string \<Rightarrow> 'r world \<Rightarrow> 'r world \<Rightarrow> bool" where
  "acked_pel i w w' \<longleftrightarrow> pel S (w_redis w') =
     acked (cg_stream_name c) (cg_group_name c) [i] (pel S (w_redis w))"

lemma acknowledge_result:
  assumes "acknowledge S c i w = (x, w')"
  shows "entries S (w_redis w') = entries S (w_redis w) \<and>
    (pel S (w_redis w') = pel S (w_redis w) \<or> acked_pel i w w') \<and> (\<forall>b. x = Inr b \<longrightarrow> acked_pel i w w')"
proof -
  obtain y where run: "xack S (cg_stream_name c) (cg_group_name c) [i] (w_redis w) = (y, w_redis w')"
    and x: "x = (case y of Inl e \<Rightarrow> Inl e | Inr k \<Rightarrow> Inr (k > 0))"
    using assms by (auto simp: acknowledge_def bind_io_def return_io_def split: prod.splits sum.splits
        dest!: on_redis_world)
  show ?thesis
  proof (cases y)
    case (Inl e)
    with xack_Inl run x show ?thesis by (auto simp: acked_pel_def)
  next
    case (Inr k)
    with xack_Inr run x show ?thesis by (auto simp: acked_pel_def)
  qed
qed

text \<open>What one pass of a loop does to the lists: at most it acknowledges its message, settled.\<close>

lemma failure_result:
  assumes "handle_failure S K c t m w = (x, w')"
  shows "grows S K w w' \<and> (pel S (w_redis w') = pel S (w_redis w) \<or>
    (acked_pel (m_id m) w w' \<and> wk_max_retries K \<le> m_attempts m \<and> buried S K w' m))"
proof (cases "data_get (m_data m) ''trace_id''")
  case (Inl e)
  with assms show ?thesis by (auto simp: handle_failure_def io_defs grows_same)
next
  case (Inr tr)
  show ?thesis
  proof (cases "wk_max_retries K \<le> m_attempts m")
    case True
    obtain y v where move: "move_to_dead_letter S K t m w = (y, v)" by fastforce
    note moved = move_result [OF this]
    obtain z v' where ack: "acknowledge S c (m_id m) v = (z, v')" by fastforce
    note acked = acknowledge_result [OF this]
    have "w' = v \<or> (w' = v' \<and> (\<exists>j. y = Inr j))"
      using assms Inr True move ack
      by (auto simp: handle_failure_def io_combinators split: sum.splits if_splits)
    then show ?thesis
    proof
      assume "w' = v"
      with moved show ?thesis by simp
    next
      assume w': "w' = v' \<and> (\<exists>j. y = Inr j)"
      have "grows S K v v'" using acked by (simp add: grows_same)
      with moved acked w' True show ?thesis
        by (auto simp: acked_pel_def intro: grows_trans buried_grows)
    qed
  next
    case False
    with assms Inr show ?thesis by (auto simp: handle_failure_def io_defs grows_same)
  qed
qed

lemma acked_settled:
  assumes "acked_pel (m_id m) w w'" and "in_pel S c w i"
  shows "in_pel S c w' i \<or> i = m_id m"
  using assms by (auto simp: acked_pel_def in_pel_def acked_iff)

lemma work_result:
  assumes "work_message S K c t m w = (x, w')"
  shows "grows S K w w' \<and> (pel S (w_redis w') = pel S (w_redis w) \<or>
    (acked_pel (m_id m) w w' \<and> settled S K m w w'))"
proof (cases "data_get (m_data m) ''amount''")
  case (Inl e)
  with assms show ?thesis by (auto simp: work_message_def io_defs grows_same)
next
  case (Inr a)
  then obtain tr where tr: "data_get (m_data m) ''trace_id'' = Inr tr"
    by (cases "m_data m") (auto simp: data_get_def split: option.splits)
  from Inr have a: "json_get (m_data m) ''amount'' = Some a" by simp
  note step = assms [unfolded work_message_def Inr tr]
  show ?thesis
  proof (cases "truthy a")
    case False
    obtain y v where move: "move_to_dead_letter S K t m w = (y, v)" by fastforce
    note moved = move_result [OF this]
    obtain z v' where ack: "acknowledge S c (m_id m) v = (z, v')" by fastforce
    note acked = acknowledge_result [OF this]
    have "w' = v \<or> (w' = v' \<and> (\<exists>j. y = Inr j))"
      using step False move ack by (auto simp: io_combinators split: sum.splits)
    moreover have "grows S K v v'" using acked by (simp add: grows_same)
    ultimately show ?thesis using moved acked a False
      by (auto simp: acked_pel_def settled_def intro: grows_trans buried_grows)
  next
    case True
    obtain y v where proc: "process_message K m w = (y, v)" by fastforce
    note kept = process_keeps [OF this]
    show ?thesis
    proof (cases y)
      case (Inl e)
      with step True proc have "w' = v" by (simp add: io_combinators)
      with kept show ?thesis by (simp add: grows_same)
    next
      case (Inr ok)
      show ?thesis
      proof (cases ok)
        case True
        obtain z v' where ack: "acknowledge S c (m_id m) v = (z, v')" by fastforce
        with step \<open>truthy a\<close> proc Inr True have "w' = v'"
          by (auto simp: io_combinators split: sum.splits)
        with acknowledge_result [OF ack] kept True Inr proc a \<open>truthy a\<close> show ?thesis
          by (auto simp: acked_pel_def settled_def grows_same)
      next
        case False
        with step \<open>truthy a\<close> proc Inr have "handle_failure S K c t m v = (x, w')"
          by (simp add: io_combinators)
        from failure_result [OF this] kept False Inr proc a \<open>truthy a\<close>
          grows_trans [of S K w v w'] grows_same [of S v w K] show ?thesis
          by (auto simp: acked_pel_def settled_def)
      qed
    qed
  qed
qed

text \<open>The messages that leave the pending list during a loop were met by it, and are settled.\<close>

definition kept_or_settled :: "(message \<times> 'r world) list \<Rightarrow> 'r world \<Rightarrow> 'r world \<Rightarrow> bool" where
  "kept_or_settled vs w w' \<longleftrightarrow> (\<forall>i. in_pel S c w i \<longrightarrow> in_pel S c w' i \<or>
     (\<exists>(m, v) \<in> set vs. m_id m = i \<and> settled S K m v w'))"

lemma kept_or_settled_refl: "pel S (w_redis w') = pel S (w_redis w) \<Longrightarrow> kept_or_settled vs w w'"
  by (simp add: kept_or_settled_def in_pel_def)

lemma kept_or_settled_trans:
  assumes "kept_or_settled vs w1 w2" and "kept_or_settled vs' w2 w3" and "grows S K w2 w3"
  shows "kept_or_settled (vs @ vs') w1 w3"
  unfolding kept_or_settled_def
proof (intro allI impI)
  fix i
  assume "in_pel S c w1 i"
  with assms(1) have "in_pel S c w2 i \<or> (\<exists>(m, v) \<in> set vs. m_id m = i \<and> settled S K m v w2)"
    by (simp add: kept_or_settled_def)
  then show "in_pel S c w3 i \<or> (\<exists>(m, v) \<in> set (vs @ vs'). m_id m = i \<and> settled S K m v w3)"
    using assms(2) settled_grows [OF _ assms(3)] by (fastforce simp: kept_or_settled_def)
qed

lemma kept_or_settled_work:
  "work_message S K c t m w = (x, w') \<Longrightarrow> kept_or_settled [(m, w)] w w'"
  using work_result [of t m w x w'] acked_settled [of m w w']
  by (auto simp: kept_or_settled_def in_pel_def)

lemma loop_result:
  assumes "work_messages S K c clock ms w = (x, w')"
  shows "grows S K w w' \<and> kept_or_settled (visits S K c clock ms w) w w' \<and>
    (\<forall>(m, v) \<in> set (visits S K c clock ms w). kept_or_settled (visits S K c clock ms w) v w')"
  using assms
proof (induction ms arbitrary: w)
  case Nil
  then show ?case by (simp add: return_io_def grows_same kept_or_settled_refl)
next
  case (Cons m ms)
  let ?t = "clock (m_id m)"
  obtain y v where work: "work_message S K c ?t m w = (y, v)" by fastforce
  note result = work_result [OF work] and one = kept_or_settled_work [OF work]
  show ?case
  proof (cases y)
    case (Inl e)
    with Cons.prems work have "w' = v" by (simp add: bind_io_def)
    with result one Inl work show ?thesis by simp
  next
    case (Inr u)
    with Cons.prems work have "work_messages S K c clock ms v = (x, w')" by (simp add: bind_io_def)
    note rest = Cons.IH [OF this]
    have visits: "visits S K c clock (m # ms) w = [(m, w)] @ visits S K c clock ms v"
      using work Inr by simp
    have step: "kept_or_settled (visits S K c clock (m # ms) w) w w'"
      unfolding visits using one rest by (intro kept_or_settled_trans [of _ _ v]) auto
    have later: "kept_or_settled (visits S K c clock (m # ms) w) v' w'"
      if "(m', v') \<in> set (visits S K c clock ms v)" for m' v'
      using rest that unfolding visits kept_or_settled_def by fastforce
    from step later rest result visits show ?thesis
      by (auto intro: grows_trans)
  qed
qed

lemma xclaim_reply:
  assumes "xclaim S s g n t i r = (y, r')"
  shows "entries S r' = entries S r \<and> (pel S r' = pel S r \<or> pel S r' = redelivered s g i (pel S r) \<or>
    (i \<notin> fst ` set (entries S r s) \<and> pel S r' = acked s g [i] (pel S r)))"
proof (cases y)
  case (Inl e)
  from xclaim_Inl [OF assms [unfolded Inl]] show ?thesis by simp
next
  case (Inr es)
  from xclaim_Inr [OF assms [unfolded Inr]] show ?thesis by auto
qed

lemma claim_entries_step:
  assumes "claim_entries S fl now c t (p # ps) w = (x, w')" and "pe_time_since_delivered p \<ge> t"
    and "on_redis (xclaim S (cg_stream_name c) (cg_group_name c) (cg_consumer_name c) t (pe_message_id p)) w
      = (y, v)"
  shows "w' = v \<or> (\<exists>x'. claim_entries S fl now c t ps v = (x', w'))"
proof (cases y)
  case (Inl e)
  with assms show ?thesis by (simp add: bind_io_def)
next
  case (Inr es)
  let ?ms = "map_result (to_message fl now (cg_stream_name c) (\<lambda>_. Inr (int (pe_times_delivered p)))) es"
  obtain x' v' where rest: "claim_entries S fl now c t ps v = (x', v')" by fastforce
  with assms Inr show ?thesis
    by (cases ?ms; cases x') (auto simp: bind_io_def lift_io_def return_io_def)
qed

lemma claim_entries_result:
  assumes "claim_entries S fl now c t ps w = (x, w')"
  shows "entries S (w_redis w') = entries S (w_redis w) \<and> (\<forall>i. in_pel S c w i \<longrightarrow>
    in_pel S c w' i \<or> i \<notin> fst ` set (entries S (w_redis w) (cg_stream_name c)))"
  using assms
proof (induction ps arbitrary: x w)
  case Nil
  then show ?case by (simp add: return_io_def)
next
  case (Cons p ps)
  show ?case
  proof (cases "pe_time_since_delivered p \<ge> t")
    case False
    with Cons show ?thesis by simp
  next
    case True
    let ?s = "cg_stream_name c" and ?g = "cg_group_name c" and ?i = "pe_message_id p"
    obtain y v where run: "on_redis (xclaim S ?s ?g (cg_consumer_name c) t ?i) w = (y, v)" by fastforce
    then have r: "xclaim S ?s ?g (cg_consumer_name c) t ?i (w_redis w) = (y, w_redis v)"
      by (auto dest: on_redis_world)
    have same: "entries S (w_redis v) = entries S (w_redis w)"
      and pel: "pel S (w_redis v) = pel S (w_redis w) \<or>
        pel S (w_redis v) = redelivered ?s ?g ?i (pel S (w_redis w)) \<or>
        (?i \<notin> fst ` set (entries S (w_redis w) ?s) \<and>
         pel S (w_redis v) = acked ?s ?g [?i] (pel S (w_redis w)))"
      using xclaim_reply [OF r] by simp_all
    have one: "in_pel S c v i \<or> i \<notin> fst ` set (entries S (w_redis w) ?s)" if "in_pel S c w i" for i
      using pel that by (auto simp: in_pel_def redelivered_def acked_iff image_iff split: if_splits)
    have "w' = v \<or> (\<exists>x'. claim_entries S fl now c t ps v = (x', w'))"
      using claim_entries_step [OF Cons.prems True run] .
    then show ?thesis
    proof
      assume "w' = v"
      with same one show ?thesis by simp
    next
      assume "\<exists>x'. claim_entries S fl now c t ps v = (x', w')"
      then obtain x' where "claim_entries S fl now c t ps v = (x', w')" ..
      from Cons.IH [OF this] same one show ?thesis by auto
    qed
  qed
qed

lemma claim_stale_result:
  assumes "claim_stale_message S fl now c t n w = (x, w')"
  shows "entries S (w_redis w') = entries S (w_redis w) \<and> (\<forall>i. in_pel S c w i \<longrightarrow>
    in_pel S c w' i \<or> i \<notin> fst ` set (entries S (w_redis w) (cg_stream_name c)))"
proof -
  obtain y v where run: "on_redis (xpending_range S (cg_stream_name c) (cg_group_name c) n) w = (y, v)"
    by fastforce
  then have "entries S (w_redis v) = entries S (w_redis w)" "pel S (w_redis v) = pel S (w_redis w)"
    using xpending_range_same [of "cg_stream_name c" "cg_group_name c" n "w_redis w" y "w_redis v"]
    by (auto dest: on_redis_world)
  moreover from assms run have "w' = v \<or> (\<exists>ps. claim_entries S fl now c t ps v = (x, w'))"
    by (auto simp: claim_stale_message_def bind_io_def split: sum.splits)
  ultimately show ?thesis using claim_entries_result [of fl now t _ v x w'] by (auto simp: in_pel_def)
qed

lemma read_result:
  assumes "read_messages S fl now c n w = (x, w')"
  shows "entries S (w_redis w') = entries S (w_redis w) \<and> (\<forall>i. in_pel S c w i \<longrightarrow> in_pel S c w' i)"
proof -
  let ?read = "xreadgroup S (cg_group_name c) (cg_consumer_name c) (cg_stream_name c) n"
  obtain y v where run: "on_redis ?read w = (y, v)" by fastforce
  with assms have v: "w' = v" by (auto simp: read_messages_def io_combinators split: sum.splits)
  from run have r: "?read (w_redis w) = (y, w_redis v)" by (auto dest: on_redis_world)
  show ?thesis
  proof (cases y)
    case (Inl e)
    with xreadgroup_Inl r v show ?thesis by (fastforce simp: in_pel_def first_delivery_def)
  next
    case (Inr res)
    with r v xreadgroup_Inr [of "cg_group_name c" "cg_consumer_name c" "cg_stream_name c" n "w_redis w" res]
    show ?thesis by (auto simp: in_pel_def first_delivery_def)
  qed
qed

lemma kept_or_settled_same:
  "\<forall>i. in_pel S c w i \<longrightarrow> in_pel S c w1 i \<Longrightarrow> kept_or_settled vs w1 w' \<Longrightarrow> kept_or_settled vs w w'"
  unfolding kept_or_settled_def by blast

text \<open>The two loops of a batch, after the stale messages were claimed.\<close>

lemma loops_result:
  assumes stale: "work_messages S K c clock stale w = (x, w2)"
    and fresh: "work_messages S K c clock fresh w3 = (y, w')"
    and read: "grows S K w2 w3" "\<forall>i. in_pel S c w2 i \<longrightarrow> in_pel S c w3 i"
    and v: "v = w \<or> (\<exists>m. (m, v) \<in> set (visits S K c clock stale w) \<union> set (visits S K c clock fresh w3))"
  shows "kept_or_settled (visits S K c clock stale w @ visits S K c clock fresh w3) v w'"
proof -
  note one = loop_result [OF stale] and two = loop_result [OF fresh]
  have "kept_or_settled (visits S K c clock fresh w3) w2 w'"
    using kept_or_settled_same [OF read(2)] two by blast
  moreover have "grows S K w2 w'" using read(1) two by (blast intro: grows_trans)
  ultimately have "kept_or_settled (visits S K c clock stale w @ visits S K c clock fresh w3) u w'"
    if "kept_or_settled (visits S K c clock stale w) u w2" for u
    using that by (intro kept_or_settled_trans [of _ _ w2]) auto
  moreover have "kept_or_settled (vs @ visits S K c clock fresh w3) u w'"
    if "kept_or_settled (visits S K c clock fresh w3) u w'" for u vs
    using that by (fastforce simp: kept_or_settled_def)
  ultimately show ?thesis using v one two by blast
qed

lemma batch_result:
  assumes run: "process_batch S fl K c E w = (x, w')"
    and v: "v = w \<or> (\<exists>m. (m, v) \<in> set (batch_visits S fl K c E w))" and i: "in_pel S c v i"
  shows "in_pel S c w' i \<or> i \<notin> fst ` set (entries S (w_redis w) (cg_stream_name c)) \<or>
    (\<exists>(m, u) \<in> set (batch_visits S fl K c E w). m_id m = i \<and> settled S K m u w')"
proof -
  let ?claim = "claim_stale_message S fl (be_claim_now E) c 6000 10"
  let ?read = "read_messages S fl (be_read_now E) c 10" and ?loop = "work_messages S K c (be_clock E)"
  obtain y w1 where claim: "?claim w = (y, w1)" by fastforce
  note claimed = claim_stale_result [OF claim]
  show ?thesis
  proof (cases y)
    case (Inl e)
    with run claim v have "w' = w1" "v = w" by (auto simp: process_batch_def bind_io_def batch_visits_def)
    with claimed i show ?thesis by auto
  next
    case (Inr stale)
    obtain z w2 where loop: "?loop stale w1 = (z, w2)" by fastforce
    have after: "in_pel S c w' i \<or> (\<exists>(m, u) \<in> set (batch_visits S fl K c E w). m_id m = i \<and> settled S K m u w')"
      if "kept_or_settled (batch_visits S fl K c E w) u w'" "in_pel S c u i" for u
      using that by (auto simp: kept_or_settled_def)
    have kept: "kept_or_settled (batch_visits S fl K c E w) u w'"
      if "u = w1 \<or> (\<exists>m. (m, u) \<in> set (batch_visits S fl K c E w))" for u
    proof (cases z)
      case (Inl e)
      with run claim Inr loop have "w' = w2" "batch_visits S fl K c E w = visits S K c (be_clock E) stale w1"
        by (auto simp: process_batch_def bind_io_def batch_visits_def)
      with loop_result [OF loop] that show ?thesis by auto
    next
      case z: (Inr q)
      obtain b w3 where read: "?read w2 = (b, w3)" by fastforce
      note reading = read_result [OF this]
      show ?thesis
      proof (cases b)
        case (Inl e)
        with run claim Inr loop z read have "w' = w3"
          and visits: "batch_visits S fl K c E w = visits S K c (be_clock E) stale w1"
          by (auto simp: process_batch_def bind_io_def batch_visits_def)
        moreover have "kept_or_settled (visits S K c (be_clock E) stale w1) u w2"
          using loop_result [OF loop] that visits by auto
        ultimately show ?thesis using reading grows_same [of S w3 w2 K] settled_grows
          by (fastforce simp: kept_or_settled_def)
      next
        case b: (Inr fresh)
        with run claim Inr loop z read have rest: "?loop fresh w3 = (x, w')"
          and visits: "batch_visits S fl K c E w
            = visits S K c (be_clock E) stale w1 @ visits S K c (be_clock E) fresh w3"
          by (auto simp: process_batch_def bind_io_def batch_visits_def)
        from loops_result [OF loop rest _ _, of u] reading grows_same [of S w3 w2 K] that show ?thesis
          unfolding visits by auto
      qed
    qed
    show ?thesis
    proof (cases "v = w")
      case True
      with claimed i after [OF kept, of w1] show ?thesis by auto
    next
      case False
      with v after [OF kept, of v] i show ?thesis by auto
    qed
  qed
qed

lemma batch_grows:
  assumes "process_batch S fl K c E w = (x, w')"
  shows "grows S K w w'"
proof -
  let ?loop = "work_messages S K c (be_clock E)"
  obtain y w1 where claim: "claim_stale_message S fl (be_claim_now E) c 6000 10 w = (y, w1)" by fastforce
  with claim_stale_result have one: "grows S K w w1" by (blast intro: grows_same)
  show ?thesis
  proof (cases y)
    case (Inl e)
    with assms claim one show ?thesis by (simp add: process_batch_def bind_io_def)
  next
    case (Inr stale)
    obtain z w2 where loop: "?loop stale w1 = (z, w2)" by fastforce
    with one loop_result have two: "grows S K w w2" by (blast intro: grows_trans)
    obtain b w3 where read: "read_messages S fl (be_read_now E) c 10 w2 = (b, w3)" by fastforce
    with two read_result have three: "grows S K w w3" by (blast intro: grows_same grows_trans)
    obtain u w4 where rest: "?loop (case b of Inr ms \<Rightarrow> ms | Inl e \<Rightarrow> []) w3 = (u, w4)" by fastforce
    with three loop_result have four: "grows S K w w4" by (blast intro: grows_trans)
    have "w' = w2 \<or> w' = w3 \<or> w' = w4"
      using assms claim Inr loop read rest by (cases z; cases b) (auto simp: process_batch_def bind_io_def)
    with two three four show ?thesis by blast
  qed
qed

lemma loop_only_grows: "run_worker S fl K c Es w = (x, w') \<Longrightarrow> x = Inr () \<and> grows S K w w'"
proof (induction Es arbitrary: w)
  case Nil
  then show ?case by (auto simp: return_io_def grows_same)
next
  case (Cons E Es)
  obtain y w1 where batch: "process_batch S fl K c E w = (y, w1)" by fastforce
  with Cons.prems have "run_worker S fl K c Es w1 = (x, w')"
    by (simp add: run_worker_step del: run_worker.simps)
  from Cons.IH [OF this] batch_grows [OF batch] show ?case by (blast intro: grows_trans)
qed

text \<open>The same over a whole run of the worker, with the errors of its batches.\<close>

lemma run_result:
  assumes "run_worker S fl K c Es w = (x, w')"
    and "v = w \<or> (\<exists>m. (m, v) \<in> set (run_visits S fl K c Es w))" and "in_pel S c v i"
  shows "x = Inr () \<and> grows S K w w' \<and>
    (in_pel S c w' i \<or> i \<notin> fst ` set (entries S (w_redis w) (cg_stream_name c)) \<or>
     (\<exists>(m, u) \<in> set (run_visits S fl K c Es w). m_id m = i \<and> settled S K m u w'))"
  using assms
proof (induction Es arbitrary: w v)
  case Nil
  then show ?case by (auto simp: return_io_def grows_same)
next
  case (Cons E Es)
  obtain y w1 where batch: "process_batch S fl K c E w = (y, w1)" by fastforce
  with Cons.prems(1) have rest: "run_worker S fl K c Es w1 = (x, w')"
    by (simp add: run_worker_step del: run_worker.simps)
  have grown: "x = Inr () \<and> grows S K w1 w'"
    using loop_only_grows [OF rest] .
  note first = batch_grows [OF batch]
  have same: "entries S (w_redis w1) (cg_stream_name c) = entries S (w_redis w) (cg_stream_name c)"
    using first dead_apart consumes by (simp add: grows_def)
  let ?trimmed = "i \<notin> fst ` set (entries S (w_redis w) (cg_stream_name c))"
  let ?settled = "\<exists>(m, u) \<in> set (run_visits S fl K c (E # Es) w). m_id m = i \<and> settled S K m u w'"
  have later: "in_pel S c w' i \<or> ?trimmed \<or> ?settled"
    if "u = w1 \<or> (\<exists>m. (m, u) \<in> set (run_visits S fl K c Es w1))" "in_pel S c u i" for u
    using Cons.IH [OF rest that] same batch by auto
  have "in_pel S c w' i \<or> ?trimmed \<or> ?settled"
  proof (cases "v = w \<or> (\<exists>m. (m, v) \<in> set (batch_visits S fl K c E w))")
    case True
    from batch_result [OF batch True Cons.prems(3)] show ?thesis
    proof (elim disjE)
      assume "\<exists>(m, u) \<in> set (batch_visits S fl K c E w). m_id m = i \<and> settled S K m u w1"
      with grown settled_grows show ?thesis by fastforce
    qed (use later [of w1] in auto)
  next
    case False
    with Cons.prems(2) batch later [of v] Cons.prems(3) show ?thesis by auto
  qed
  with grown first show ?case by (blast intro: grows_trans)
qed

end

end
