(* ===== verification/Payment_Settlement.thy ===== *)
theory Payment_Settlement
  imports Payments Samples
begin

text \<open>
  What settling a payment guarantees: one SMS pays one order once, under redelivery and under
  concurrent workers; every failure leaves the database alone; and what happens to the amount
  in Redis.
\<close>

subsection \<open>The outcomes of the handler\<close>

definition others_effect :: "race \<Rightarrow> (db \<Rightarrow> db) set" where
  "others_effect C = {id, rc_before_lock C, rc_after_lock C \<circ> rc_before_lock C}"

lemma payment_failure_cls: "exn_cls (payment_failure e) \<in> {IgnoreAndAckMessage, CriticalRejectMessage}"
  by (simp add: payment_failure_def)

lemma handle_payment_dict:
  "handle_payment R bind_int C (JDict kvs) w =
    (case take_payment R bind_int C (dict_get kvs ''amount'') (dict_get kvs ''transaction_id'') w of
       (Inl e, v) \<Rightarrow> (Inl (payment_failure e), v\<lparr>w_session := w_committed v\<rparr>)
     | (Inr b, v) \<Rightarrow> (Inr b, v\<lparr>w_session := w_committed v\<rparr>))"
  by (simp add: handle_payment_def get_db_def data_get_def io_defs split: prod.splits sum.splits)

lemma handle_payment_no_dict:
  "\<not> is_dict data \<Longrightarrow> \<exists>m. handle_payment R bind_int C data w =
     (Inl (Exn CriticalRejectMessage m), w\<lparr>w_session := w_committed w\<rparr>)"
  by (cases data) (auto simp: handle_payment_def get_db_def data_get_def io_defs payment_failure_def
      subclass_eval)

lemma take_payment_True:
  assumes "take_payment R bind_int C amount tid w = (Inr b, v)"
  obtains (old) p where "b" "v = w\<lparr>w_committed := w_session w\<rparr>"
      "process_pending_payment bind_int C amount tid w = (Inr (p, False), w)"
  | (paid) p w1 ok r where "b" "process_pending_payment bind_int C amount tid w = (Inr (p, True), w1)"
      "smove R ''pending_orders'' ''free_amounts'' (number_str amount) (w_redis w1) = (Inr ok, r)"
      "v = w1\<lparr>w_committed := w_session w1, w_redis := r\<rparr>"
  using assms process_old
  by (fastforce simp: take_payment_def io_defs split: prod.splits sum.splits if_splits option.splits)

lemma take_payment_Inl:
  assumes "take_payment R bind_int C amount tid w = (Inl e, v)"
  obtains (failed) "process_pending_payment bind_int C amount tid w = (Inl e, v)"
  | (commit_failed) x w1 where "rc_commit_fault C = Some e" "v = w1"
      "process_pending_payment bind_int C amount tid w = (Inr x, w1)"
  | (smove_failed) p w1 r where
      "process_pending_payment bind_int C amount tid w = (Inr (p, True), w1)"
      "smove R ''pending_orders'' ''free_amounts'' (number_str amount) (w_redis w1) = (Inl e, r)"
      "v = w1\<lparr>w_committed := w_session w1, w_redis := r\<rparr>"
  using assms
  by (fastforce simp: take_payment_def io_defs split: prod.splits sum.splits if_splits option.splits)

lemma idle_handle_payment: "handle_payment R bind_int C data w = (x, w') \<Longrightarrow> idle w'"
  unfolding handle_payment_def by (rule get_db_idle)

text \<open>
  The row lock: while it is held, no other session changes the intent and the order that the
  locking query returned.
\<close>

definition locks_held :: "driver \<Rightarrow> race \<Rightarrow> json \<Rightarrow> bool" where
  "locks_held bind_int C amount \<longleftrightarrow> (\<forall>d p ord. pending_for_amount bind_int amount d = Inr [(p, ord)] \<longrightarrow>
     p \<in> set (payment_intents (rc_after_lock C d)) \<and> ord \<in> set (orders (rc_after_lock C d)))"

text \<open>
  The tables when the intent \<open>p\<close> was paid and all else is kept: its row and its order's row are
  PAID, and the row carries the SMS, when there is one.
\<close>

definition paid_tables :: "int option \<Rightarrow> payment_intent_row \<Rightarrow> db \<Rightarrow> db" where
  "paid_tables sms p d = d\<lparr>
     payment_intents := map (\<lambda>q. if pi_id q \<noteq> pi_id p then q
       else case sms of None \<Rightarrow> q\<lparr>pi_status := OS_PAID\<rparr>
         | Some t \<Rightarrow> q\<lparr>pi_status := OS_PAID, pi_sms_transaction_id := Some t\<rparr>) (payment_intents d),
     orders := map (\<lambda>ord. if o_id ord = pi_order_id p then ord\<lparr>o_status := OS_PAID\<rparr> else ord) (orders d)\<rparr>"

lemmas explicit_rows = attach_sms_def set_paid_def order_paid_def

lemma settle_attach: "settle (attach_sms t) p d = paid_tables (Some t) p d"
  by (simp add: settle_def paid_tables_def update_where_def explicit_rows if_distrib cong: if_cong)

lemma settle_set_paid: "settle set_paid p d = paid_tables None p d"
  by (simp add: settle_def paid_tables_def update_where_def explicit_rows if_distrib cong: if_cong)

text \<open>
  C5. A payment settles exactly one order: when the handler returns for a message, the SMS of the
  message belongs to exactly one payment intent. Either it did before, and then neither the
  database nor Redis changed; or one intent that was PENDING with the exact amount of the message
  became PAID with this SMS and its order PAID, every other row is as the other sessions left it,
  and an \<open>SMOVE\<close> of the amount from \<open>pending_orders\<close> to \<open>free_amounts\<close> is what was done to Redis,
  which frees the amount if it was in \<open>pending_orders\<close>. This holds whatever the other sessions commit, as
  long as they respect the row lock.
\<close>

theorem payment_settles_one_order:
  assumes run: "handle_payment R bind_int C (JDict kvs) w = (Inr b, w')"
    and idle: "idle w" and lock: "locks_held bind_int C (dict_get kvs ''amount'')"
    and valid: "valid_db (w_committed w)"
  shows "b \<and> idle w' \<and> (\<exists>t p'. bind_int (dict_get kvs ''transaction_id'') = Some t \<and>
    filter (\<lambda>q. pi_sms_transaction_id q = Some t) (payment_intents (w_committed w')) = [p'] \<and>
    (w' = w \<or>
     (\<exists>i p ord ok. bind_int (dict_get kvs ''amount'') = Some i \<and>
        pi_status p = OS_PENDING \<and> pi_exact_amount p = i \<and>
        p \<in> set (payment_intents (rc_before_lock C (w_committed w))) \<and>
        p' = p\<lparr>pi_status := OS_PAID, pi_sms_transaction_id := Some t\<rparr> \<and> o_id ord = pi_order_id p \<and>
        ord\<lparr>o_status := OS_PAID\<rparr> \<in> set (orders (w_committed w')) \<and> valid_db (w_committed w') \<and>
        w_committed w' = paid_tables (Some t) p (rc_after_lock C (rc_before_lock C (w_committed w))) \<and>
        smove R ''pending_orders'' ''free_amounts'' (number_str (dict_get kvs ''amount'')) (w_redis w)
          = (Inr ok, w_redis w'))))"
proof -
  let ?amount = "dict_get kvs ''amount''" and ?tid = "dict_get kvs ''transaction_id''"
  obtain v where take: "take_payment R bind_int C ?amount ?tid w = (Inr b, v)"
    and w': "w' = v\<lparr>w_session := w_committed v\<rparr>"
    using run by (auto simp: handle_payment_dict split: prod.splits sum.splits)
  from take show ?thesis
  proof (cases rule: take_payment_True)
    case (old p)
    with process_old [OF old(3)] w' idle show ?thesis by (auto simp: idle_def)
  next
    case (paid p' w1 ok r)
    from paid(2) obtain t p ord where t: "bind_int ?tid = Some t" and p': "p' = attach_sms t p"
      and rows: "pending_for_amount bind_int ?amount (rc_before_lock C (w_session w)) = Inr [(p, ord)]"
      and w1: "w1 = w\<lparr>w_committed := rc_after_lock C (rc_before_lock C (w_committed w)),
         w_session := settle (attach_sms t) p (rc_after_lock C (rc_before_lock C (w_session w)))\<rparr>"
      and valid': "valid_db (w_session w1)"
      by (rule process_new)
    from rows obtain i where i: "bind_int ?amount = Some i" "payable i p" "o_id ord = pi_order_id p"
      "p \<in> set (payment_intents (rc_before_lock C (w_session w)))"
      by (rule pending_for_amount_single)
    let ?d = "rc_after_lock C (rc_before_lock C (w_session w))"
    from lock rows have kept: "p \<in> set (payment_intents ?d)" "ord \<in> set (orders ?d)"
      by (auto simp: locks_held_def)
    have "filter (\<lambda>q. pi_sms_transaction_id q = Some t) (payment_intents (w_session w1)) = [p']"
      using valid' settled_intent [OF kept(1), of "attach_sms t"] p' w1
      by (intro intent_of_sms) simp_all
    moreover have "order_paid ord \<in> set (orders (w_session w1))"
      using kept(2) i(3) w1 by (auto simp: settle_def set_update_where)
    ultimately show ?thesis
      using paid t p' i w1 w' valid' idle by (auto simp: idle_def settle_attach payable_def explicit_rows)
  qed
qed

lemma sample_locks_held: "locks_held sample_driver sample_race amount"
  unfolding locks_held_def by (auto elim: pending_for_amount_single)

lemma paid_run: "handle_payment ref_sets sample_driver sample_race (JDict due_message) due_world
    = (Inr True, snd paid_result)"
  using paid_result_True by (simp add: prod_eq_iff paid_result_def)

theorem payment_settles_one_order_witness:
  "\<exists>p'. filter (\<lambda>q. pi_sms_transaction_id q = Some 5)
     (payment_intents (w_committed (snd paid_result))) = [p']"
  using payment_settles_one_order [OF paid_run idle_due_world sample_locks_held]
  by (auto simp: sample_driver_def split: if_splits)

lemma take_payment_attached:
  assumes take: "take_payment R bind_int C amount tid w = (Inr b, v)"
    and lock: "locks_held bind_int C amount" and idle: "idle w"
  shows "truthy tid \<and> (\<exists>t p'. bind_int tid = Some t \<and> pi_sms_transaction_id p' = Some t \<and>
    p' \<in> set (payment_intents (w_committed v)))"
  using take
proof (cases rule: take_payment_True)
  case (old p)
  from process_old [OF old(3)] obtain t where "truthy tid" "bind_int tid = Some t"
    "p \<in> set (payment_intents (w_session w))" "pi_sms_transaction_id p = Some t"
    by (blast dest: filter_singleD)
  with old show ?thesis by auto
next
  case (paid p' w1 ok r)
  from paid(2) obtain t p ord where t: "truthy tid" "bind_int tid = Some t"
    and rows: "pending_for_amount bind_int amount (rc_before_lock C (w_session w)) = Inr [(p, ord)]"
    and w1: "w_session w1 = settle (attach_sms t) p (rc_after_lock C (rc_before_lock C (w_session w)))"
    by (elim process_new) simp
  from lock rows have "p \<in> set (payment_intents (rc_after_lock C (rc_before_lock C (w_session w))))"
    by (auto simp: locks_held_def)
  from settled_intent [OF this, of "attach_sms t"] have
    "attach_sms t p \<in> set (payment_intents (w_committed v))" using w1 paid(4) by simp
  with t show ?thesis by (metis attach_sms_sel(1))
qed

text \<open>
  C6. Redelivery is harmless: once the handler has returned for a message, processing the same
  message again, at any later time and whatever else was committed in between, returns and
  changes neither the database nor Redis, as long as nobody took an SMS off an intent.
\<close>

theorem payment_redelivery_is_ignored:
  assumes run: "handle_payment R bind_int C (JDict kvs) w = (Inr b, w')"
    and idle: "idle w" and lock: "locks_held bind_int C (dict_get kvs ''amount'')"
    and valid: "valid_db (w_committed w)"
    and later: "idle w2" "valid_db (w_committed w2)"
    and kept: "\<And>p. p \<in> set (payment_intents (w_committed w')) \<Longrightarrow> pi_sms_transaction_id p \<noteq> None \<Longrightarrow>
      pi_sms_transaction_id p \<in> pi_sms_transaction_id ` set (payment_intents (w_committed w2))"
    and no_faults: "rc_check_fault C2 = None" "rc_commit_fault C2 = None"
  shows "handle_payment R bind_int C2 (JDict kvs) w2 = (Inr True, w2)"
proof -
  let ?tid = "dict_get kvs ''transaction_id''"
  obtain v where take: "take_payment R bind_int C (dict_get kvs ''amount'') ?tid w = (Inr b, v)"
    and "w_committed w' = w_committed v"
    using run by (auto simp: handle_payment_dict split: prod.splits sum.splits)
  with take_payment_attached [OF take lock idle] have truthy: "truthy ?tid"
    and "\<exists>t p'. bind_int ?tid = Some t \<and> pi_sms_transaction_id p' = Some t \<and>
      p' \<in> set (payment_intents (w_committed w'))" by auto
  from this(2) obtain t q where t: "bind_int ?tid = Some t" and q: "q \<in> set (payment_intents (w_committed w2))"
    "pi_sms_transaction_id q = Some t" using kept by (metis imageE option.discI)
  with later(2) have "filter (\<lambda>q. pi_sms_transaction_id q = Some t) (payment_intents (w_committed w2)) = [q]"
    by (intro intent_of_sms)
  with t truthy later(1) no_faults show ?thesis
    by (simp add: handle_payment_dict take_payment_def process_pending_payment_def io_defs faulty_def
        already_processed_def bound_def result_one_or_none_def idle_def commit_def)
qed

theorem payment_redelivery_is_ignored_witness:
  "handle_payment ref_sets sample_driver sample_race (JDict due_message) (snd paid_result)
    = (Inr True, snd paid_result)"
proof (rule payment_redelivery_is_ignored [OF paid_run idle_due_world sample_locks_held])
  show "idle (snd paid_result)" by (rule idle_handle_payment [OF paid_run])
  show "valid_db (w_committed (snd paid_result))" by code_simp
qed auto

text \<open>
  C17. What a failed run leaves behind: the handler raises only the two signals of the worker, and
  afterwards the committed database is what the other sessions made of it and Redis is untouched,
  unless the payment was committed and it was the last Redis command that raised.
\<close>

theorem payment_failure_is_clean:
  assumes "handle_payment R bind_int C data w = (Inl e, w')" and "idle w"
  shows "idle w' \<and> exn_cls e \<in> {IgnoreAndAckMessage, CriticalRejectMessage} \<and>
    ((\<exists>f \<in> others_effect C. w_committed w' = f (w_committed w) \<and> w_redis w' = w_redis w) \<or>
     (\<exists>x t p e'. w_committed w' = settle (attach_sms t) p (rc_after_lock C (rc_before_lock C (w_committed w))) \<and>
       smove R ''pending_orders'' ''free_amounts'' x (w_redis w) = (Inl e', w_redis w')))"
proof (cases data)
  case (JDict kvs)
  let ?amount = "dict_get kvs ''amount''" and ?tid = "dict_get kvs ''transaction_id''"
  obtain e' v where take: "take_payment R bind_int C ?amount ?tid w = (Inl e', v)"
    and w': "w' = v\<lparr>w_session := w_committed v\<rparr>" and e: "e = payment_failure e'"
    using assms(1) by (auto simp: JDict handle_payment_dict split: prod.splits sum.splits)
  from take have "(\<exists>f \<in> others_effect C. w_committed v = f (w_committed w) \<and> w_redis v = w_redis w) \<or>
     (\<exists>x t p e'. w_committed v = settle (attach_sms t) p (rc_after_lock C (rc_before_lock C (w_committed w))) \<and>
       smove R ''pending_orders'' ''free_amounts'' x (w_redis w) = (Inl e', w_redis v))"
  proof (cases rule: take_payment_Inl)
    case failed
    from process_Inl [OF failed] show ?thesis unfolding others_effect_def by auto
  next
    case (commit_failed x w1)
    obtain p new where x: "x = (p, new)" by fastforce
    show ?thesis
    proof (cases new)
      case True
      with commit_failed x obtain t q where "w1 = w\<lparr>w_committed := rc_after_lock C (rc_before_lock C (w_committed w)),
         w_session := settle (attach_sms t) q (rc_after_lock C (rc_before_lock C (w_session w)))\<rparr>"
        by (auto elim: process_new)
      with commit_failed show ?thesis by (auto simp: others_effect_def)
    next
      case False
      with commit_failed x process_old [of bind_int C ?amount ?tid w p w1] have "w1 = w" by simp
      with commit_failed show ?thesis by (auto simp: others_effect_def)
    qed
  next
    case (smove_failed p w1 r)
    from smove_failed(1) obtain t q where "w1 = w\<lparr>w_committed := rc_after_lock C (rc_before_lock C (w_committed w)),
         w_session := settle (attach_sms t) q (rc_after_lock C (rc_before_lock C (w_session w)))\<rparr>"
      by (elim process_new)
    with smove_failed assms(2) show ?thesis by (auto simp: idle_def)
  qed
  with w' e payment_failure_cls [of e'] show ?thesis by (simp add: idle_def)
qed (use assms handle_payment_no_dict [of data R bind_int C w] in
      \<open>auto simp: idle_def others_effect_def\<close>)

theorem payment_failure_is_clean_witness:
  "idle (snd failed_result) \<and> ((\<exists>f \<in> others_effect failing_commit.
       w_committed (snd failed_result) = f due_db \<and> w_redis (snd failed_result) = due_pool) \<or>
     (\<exists>x e'. smove ref_sets ''pending_orders'' ''free_amounts'' x due_pool
       = (Inl e', w_redis (snd failed_result))))"
proof -
  have "handle_payment ref_sets sample_driver failing_commit (JDict due_message) due_world
    = (Inl (Exn CriticalRejectMessage ''Unexpected error server closed''), snd failed_result)"
    using failed_result_Inl by (simp add: prod_eq_iff failed_result_def)
  from payment_failure_is_clean [OF this idle_due_world] show ?thesis by auto
qed

subsection \<open>Two workers on one SMS\<close>

lemma fits_settle:
  "fits_columns d \<Longrightarrow> int4 t \<Longrightarrow> fits_columns (settle (attach_sms t) p d)"
  by (auto simp: fits_columns_def settle_def list_all_iff set_update_where fits_payment_intent_def
      fits_order_def order_paid_def attach_sms_def set_paid_def)

lemma attached_twice:
  assumes "p \<in> set (payment_intents d)" "q \<in> set (payment_intents d)" "pi_id q \<noteq> pi_id p"
    and "pi_sms_transaction_id q = Some t"
  shows "\<not> uq_sms_transaction_id (settle (attach_sms t) p d)"
proof
  let ?ps = "payment_intents (settle (attach_sms t) p d)"
  assume "uq_sms_transaction_id (settle (attach_sms t) p d)"
  then have "distinct (non_nulls pi_sms_transaction_id ?ps)" by (simp add: uq_sms_transaction_id_def)
  from filter_non_null [OF this, of "attach_sms t p" t] filter_non_null [OF this, of q t]
  have "attach_sms t p = q"
    using assms settled_intent [OF assms(1), of "attach_sms t"]
    by (auto simp: settle_def set_update_where)
  with assms(3) show False by auto
qed

text \<open>
  C18. A race between two workers is resolved by the database: if, between the check and the
  update, another session has attached the SMS to another intent, the handler acknowledges the
  message and changes nothing: the intent it had locked stays PENDING.
\<close>

theorem concurrent_payment_is_ignored:
  assumes idle: "idle w"
    and message: "truthy (dict_get kvs ''transaction_id'')" "bind_int (dict_get kvs ''transaction_id'') = Some t"
      "int4 t"
    and unprocessed: "\<And>q. q \<in> set (payment_intents (w_committed w)) \<Longrightarrow> pi_sms_transaction_id q \<noteq> Some t"
    and locked: "pending_for_amount bind_int (dict_get kvs ''amount'') (rc_before_lock C (w_committed w))
      = Inr [(p, ord)]" "locks_held bind_int C (dict_get kvs ''amount'')"
    and faster: "q \<in> set (payment_intents (rc_after_lock C (rc_before_lock C (w_committed w))))"
      "pi_sms_transaction_id q = Some t" "pi_id q \<noteq> pi_id p"
    and valid: "valid_db (rc_after_lock C (rc_before_lock C (w_committed w)))"
    and no_faults: "rc_check_fault C = None" "rc_lock_fault C = None" "rc_flush_fault C = None"
  shows "\<exists>m w'. handle_payment R bind_int C (JDict kvs) w = (Inl (Exn IgnoreAndAckMessage m), w') \<and>
    w_committed w' = rc_after_lock C (rc_before_lock C (w_committed w)) \<and> w_redis w' = w_redis w \<and>
    p \<in> set (payment_intents (w_committed w')) \<and> pi_status p = OS_PENDING"
proof -
  let ?d = "rc_after_lock C (rc_before_lock C (w_committed w))"
  have p: "p \<in> set (payment_intents ?d)" using locked by (auto simp: locks_held_def)
  from locked(1) have pending: "pi_status p = OS_PENDING"
    by (rule pending_for_amount_single) (simp add: payable_def)
  have "flush (settle (attach_sms t) p ?d) = Inl (Exn IntegrityError ''constraint violated'')"
    using attached_twice [OF p faster(1,3,2)] fits_settle valid message(3)
    by (simp add: flush_def integrity_def valid_db_def)
  moreover have "already_processed bind_int (dict_get kvs ''transaction_id'') (w_committed w) = Inr None"
    using unprocessed message(2)
    by (auto simp: already_processed_def bound_def filter_empty_conv)
  ultimately show ?thesis
    using message locked(1) no_faults idle p pending
    by (simp add: handle_payment_dict take_payment_def process_pending_payment_def io_defs faulty_def
        idle_def flush_change_def result_one_def bound_def payment_failure_def subclass_eval)
qed

theorem concurrent_payment_is_ignored_witness:
  "\<exists>m w'. handle_payment ref_sets sample_driver racing (JDict due_message) due_world
      = (Inl (Exn IgnoreAndAckMessage m), w') \<and>
    w_committed w' = faster_worker due_db \<and> due_intent \<in> set (payment_intents (w_committed w'))"
proof -
  let ?q = "attach_sms 5 (new_payment_intent (sample_attempt\<lparr>at_order_id := 2, at_intent_id := 2\<rparr>) 1500000 1500003)"
  have due: "pending_for_amount sample_driver (JInt 1500001) due_db
      = Inr [(due_intent, new_order sample_attempt 7 1500000)]"
    by code_simp
  have locks: "locks_held sample_driver racing amount" for amount
    unfolding locks_held_def racing_def faster_worker_def
    by (auto elim: pending_for_amount_single simp: add_order_def)
  have "?q \<in> set (payment_intents (faster_worker due_db))" "pi_id ?q \<noteq> pi_id due_intent"
    by (simp_all add: faster_worker_def add_order_def new_payment_intent_def due_intent_def
        sample_attempt_def)
  moreover have "\<And>q. q \<in> set (payment_intents due_db) \<Longrightarrow> pi_sms_transaction_id q \<noteq> Some 5"
    by (auto simp: due_db_def add_order_def sample_db_def empty_db_def due_intent_def
        new_payment_intent_def)
  ultimately show ?thesis
    using due locks
      concurrent_payment_is_ignored [of due_world due_message sample_driver 5 racing due_intent
        "new_order sample_attempt 7 1500000" ?q ref_sets]
    by (auto simp: racing_def int4_def)
qed

subsection \<open>The amount in Redis\<close>

lemma redis_process_pending_payment [keeps_intro]:
  "keeps (redis_inv Q) (process_pending_payment bind_int C amount tid)"
  unfolding process_pending_payment_def by (intro keeps_intro)

lemma redis_handle_payment:
  "(\<And>x. keeps (redis_inv Q) (on_redis (smove R ''pending_orders'' ''free_amounts'' x))) \<Longrightarrow>
   keeps (redis_inv Q) (handle_payment R bind_int C data)"
  unfolding handle_payment_def take_payment_def by (intro keeps_intro)

lemma sets_process_pending_payment [keeps_intro]:
  "keeps (sets_inv R P) (process_pending_payment bind_int C amount tid)"
  unfolding sets_inv_redis by (rule redis_process_pending_payment)

context redis_set_server
begin

lemma disjoint_free_amount [keeps_intro]:
  "keeps (sets_inv R pool_disjoint) (on_redis (smove R ''pending_orders'' ''free_amounts'' x))"
  unfolding keeps_triple
  by (rule triple_on_redis) (auto dest!: smove_Inr smove_Inl simp: pool_disjoint_moves)

lemma disjoint_handle_payment [keeps_intro]:
  "keeps (sets_inv R pool_disjoint) (handle_payment R bind_int C data)"
  unfolding handle_payment_def take_payment_def by (intro keeps_intro)

lemma disjoint_confirm_payment [keeps_intro]:
  "keeps (sets_inv R pool_disjoint) (confirm_payment R C order_id payment_id)"
  unfolding confirm_payment_def handle_pending_payment_def by (intro keeps_intro)

lemma allocation_forgets_amount:
  assumes "get_unique_amount R A base w = (Inr (Some a), w')" and "aa_source a = REDIS"
    and canonical: "\<forall>x \<in> smembers R (w_redis w) ''free_amounts''. \<exists>i. x = py_str i"
    and "py_str (aa_value a) \<notin> smembers R (w_redis w) ''amounts''"
    and "py_str (aa_value a) \<notin> smembers R (w_redis w) ''pending_orders''"
  shows "py_str (aa_value a) \<notin> smembers R (w_redis w') ''free_amounts'' \<and>
    py_str (aa_value a) \<notin> smembers R (w_redis w') ''amounts'' \<and>
    py_str (aa_value a) \<notin> smembers R (w_redis w') ''pending_orders''"
proof -
  from get_unique_amount_redis [OF assms(1,2)] obtain x where
    x: "x \<in> smembers R (w_redis w) ''free_amounts''" "py_int x = Some (aa_value a)"
    and w': "smembers R (w_redis w') = reserved x (smembers R (w_redis w))" by blast
  from canonical x have "x = py_str (aa_value a)" by auto
  with w' assms(4,5) show ?thesis by (simp add: pool_defs)
qed

end

text \<open>
  C37. The pool forgets an amount that is used twice: from the pool as the startup code builds it,
  when an amount is reserved for an order, moved to \<open>free_amounts\<close> by its payment, and reserved again for a second
  order, it is in none of the three Redis sets any more. The payment of the second order will not
  find it in \<open>pending_orders\<close>, and a restart, which recomputes the free amounts from \<open>amounts\<close>,
  will not offer it again.
\<close>

theorem reused_amount_leaves_the_pool:
  assumes server: "redis_set_server R" and fresh: "pool_fresh (smembers R (w_redis w))"
    and first: "get_unique_amount R A1 base1 w = (Inr (Some a), w1)" "aa_source a = REDIS"
    and payment: "smove R ''pending_orders'' ''free_amounts'' (py_str (aa_value a)) (w_redis w1) = (Inr ok, r2)"
    and second: "get_unique_amount R A2 base2 (w1\<lparr>w_redis := r2\<rparr>) = (Inr (Some a), w3)"
  shows "ok \<and> (\<forall>k \<in> {''free_amounts'', ''amounts'', ''pending_orders''}.
    py_str (aa_value a) \<notin> smembers R (w_redis w3) k)"
proof -
  let ?S = "smembers R (w_redis w)" and ?x = "py_str (aa_value a)"
  from redis_set_server.get_unique_amount_redis [OF server first] obtain x where
    x: "x \<in> ?S ''free_amounts''" "py_int x = Some (aa_value a)"
    and S1: "smembers R (w_redis w1) = reserved x ?S" by blast
  from x fresh have "x = ?x" by (auto simp: pool_fresh_def)
  with x S1 fresh have "?x \<in> smembers R (w_redis w1) ''pending_orders''"
    and S1: "smembers R (w_redis w1) = reserved ?x ?S" by (auto simp: pool_defs)
  with redis_set_server.smove_Inr [OF server payment] have ok: ok
    and S2: "smembers R r2 = moved ''pending_orders'' ''free_amounts'' ?x (reserved ?x ?S)" by auto
  have "?x \<notin> smembers R r2 ''amounts''" "?x \<notin> smembers R r2 ''pending_orders''"
    "\<forall>y \<in> smembers R r2 ''free_amounts''. \<exists>i. y = py_str i"
    using S2 fresh by (auto simp: pool_defs)
  with redis_set_server.allocation_forgets_amount [OF server second first(2)] ok show ?thesis
    by simp
qed

theorem reused_amount_leaves_the_pool_witness:
  "''1500001'' \<notin> smembers ref_sets (w_redis (snd second_use)) ''free_amounts'' \<and>
   ''1500001'' \<notin> smembers ref_sets (w_redis (snd second_use)) ''amounts'' \<and>
   ''1500001'' \<notin> smembers ref_sets (w_redis (snd second_use)) ''pending_orders''"
proof -
  have first: "get_unique_amount ref_sets sample_attempt None sample_world
      = (Inr (Some sample_amount), snd first_use)"
    and second: "get_unique_amount ref_sets sample_attempt None
        (snd first_use\<lparr>w_redis := snd freed_use\<rparr>) = (Inr (Some sample_amount), snd second_use)"
    and payment: "smove ref_sets ''pending_orders'' ''free_amounts'' (py_str (aa_value sample_amount))
        (w_redis (snd first_use)) = (Inr True, snd freed_use)"
    using sample_uses by (simp_all add: prod_eq_iff first_use_def freed_use_def second_use_def)
  have "py_str 1500001 = ''1500001''" by code_simp
  with reused_amount_leaves_the_pool [OF ref.redis_set_server_axioms _ first _ payment second]
    sample_pool_fresh show ?thesis
    by (simp add: sample_amount_def sample_world_def)
qed

subsection \<open>The confirmation by an administrator\<close>

lemma handle_pending_Inr:
  assumes "handle_pending_payment R C order_id payment_id w = (Inr p', v)"
  obtains p ord r ok where "confirmable order_id payment_id (w_session w) = [(p, ord)]"
    "p' = set_paid p"
    "smove R ''pending_orders'' ''free_amounts'' (py_str (pi_exact_amount p)) (w_redis w) = (Inr ok, r)"
    "v = w\<lparr>w_committed := rc_after_lock C (w_committed w),
       w_session := settle set_paid p (rc_after_lock C (w_session w)), w_redis := r\<rparr>"
    "valid_db (w_session v)"
  using assms
  by (fastforce simp: handle_pending_payment_def io_defs faulty_def flush_change_Inr flush_change_Inl
      split: if_splits option.splits sum.splits prod.splits)

lemma handle_pending_Inl:
  assumes "handle_pending_payment R C order_id payment_id w = (Inl e, v)"
  shows "\<exists>f \<in> {id, rc_after_lock C}. w_committed v = f (w_committed w)"
  using assms
  by (auto simp: handle_pending_payment_def io_defs faulty_def flush_change_Inr flush_change_Inl
      split: if_splits option.splits sum.splits prod.splits)

lemma confirmable_row:
  assumes "confirmable order_id payment_id d = [(p, ord)]"
  shows "pi_id p = payment_id \<and> pi_order_id p = order_id \<and> pi_status p \<in> {OS_PENDING, OS_FAILED}"
proof -
  have "(p, ord) \<in> set (confirmable order_id payment_id d)" by (simp add: assms)
  then show ?thesis by (auto simp: confirmable_def with_order_def)
qed

lemma confirm_payment_outcome:
  assumes "confirm_payment R C order_id payment_id w = (res, w')" and "idle w"
  shows "idle w' \<and> (case res of
      Inr p' \<Rightarrow> \<exists>p ord. confirmable order_id payment_id (w_committed w) = [(p, ord)] \<and>
        p' = set_paid p \<and> valid_db (w_committed w') \<and>
        w_committed w' = settle set_paid p (rc_after_lock C (w_committed w))
    | Inl e \<Rightarrow> catches HTTPException e \<and>
        w_committed w' \<in> {w_committed w, rc_after_lock C (w_committed w)})"
proof -
  have idle: "idle w'" using assms(1) unfolding confirm_payment_def by (rule get_db_idle)
  obtain x v where run: "handle_pending_payment R C order_id payment_id w = (x, v)" by fastforce
  note step = assms(1) [unfolded confirm_payment_def get_db_def try_io_def bind_io_def run]
  show ?thesis
  proof (cases x)
    case (Inl e)
    with step idle handle_pending_Inl [OF run [unfolded Inl]] show ?thesis
      by (auto simp: return_io_def raise_io_def rollback_def bind_io_def split: if_splits)
  next
    case (Inr p')
    from run [unfolded Inr] obtain p ord r ok where c: "confirmable order_id payment_id (w_session w) = [(p, ord)]"
      "p' = set_paid p"
      "v = w\<lparr>w_committed := rc_after_lock C (w_committed w),
         w_session := settle set_paid p (rc_after_lock C (w_session w)), w_redis := r\<rparr>"
      "valid_db (w_session v)" by (rule handle_pending_Inr)
    show ?thesis
    proof (cases "rc_commit_fault C")
      case None
      with step Inr c idle assms(2) show ?thesis
        by (auto simp: return_io_def raise_io_def rollback_def bind_io_def commit_def idle_def)
    next
      case (Some e)
      with step Inr c idle show ?thesis
        by (auto simp: return_io_def raise_io_def rollback_def bind_io_def commit_def
            split: if_splits)
    qed
  qed
qed

text \<open>
  C35. A confirmation is all or nothing in the database: when it returns, the one intent with this
  id and order that was PENDING or FAILED is PAID, its order too, and no other row changed; when
  it raises, it raises an HTTP error and commits nothing.
\<close>

theorem confirm_payment_atomic:
  assumes "confirm_payment R C order_id payment_id w = (res, w')" and "idle w"
  shows "idle w' \<and> (case res of
      Inr p' \<Rightarrow> \<exists>p ord. confirmable order_id payment_id (w_committed w) = [(p, ord)] \<and>
        pi_id p = payment_id \<and> pi_order_id p = order_id \<and> pi_status p \<in> {OS_PENDING, OS_FAILED} \<and>
        p' = p\<lparr>pi_status := OS_PAID\<rparr> \<and> valid_db (w_committed w') \<and>
        w_committed w' = paid_tables None p (rc_after_lock C (w_committed w))
    | Inl e \<Rightarrow> catches HTTPException e \<and>
        w_committed w' \<in> {w_committed w, rc_after_lock C (w_committed w)})"
  using confirm_payment_outcome [OF assms]
  by (fastforce simp: settle_set_paid set_paid_def dest: confirmable_row split: sum.splits)

theorem confirm_payment_atomic_witness:
  "idle (snd confirmed_result) \<and> (\<exists>p ord. confirmable 1 1 due_db = [(p, ord)] \<and>
     w_committed (snd confirmed_result) = paid_tables None p due_db)"
proof -
  have "confirm_payment ref_sets sample_race 1 1 due_world
      = (Inr (set_paid due_intent), snd confirmed_result)"
    using confirmed_result_Inr by (simp add: prod_eq_iff confirmed_result_def)
  from confirm_payment_atomic [OF this idle_due_world] show ?thesis by auto
qed

end
