(* ===== verification/Worker_Payments.thy ===== *)
theory Worker_Payments
  imports Worker_Safety Payment_Settlement
begin

text \<open>
  The worker of \<open>main\<close> in app/worker.py: with the payment handler, a message that the worker is
  done with paid an order, was ignored, or is in the dead letter stream. \<open>redis_server\<close> is one
  Redis server behind both kinds of commands.
\<close>

locale redis_server = redis_set_server R + redis_stream_server S
  for R :: "'r redis_sets" and S :: "'r redis_streams" +
  assumes smove_apart: "smove R a b x r = (y, r') \<Longrightarrow>
    entries S r' = entries S r \<and> pel S r' = pel S r"

definition payment_group :: consumer_group where
  "payment_group = consumer_group default_queue ''orders_processors'' ''worker-1'' ''''"

lemma payment_worker_sel [simp]:
  "wk_queue (payment_worker R bind_int races) = default_queue"
  "wk_max_retries (payment_worker R bind_int races) = 3"
  "wk_default_handler (payment_worker R bind_int races) = None"
  "wk_handlers (payment_worker R bind_int races) = [(''payment'', payment_handler R bind_int races)]"
  by (simp_all add: payment_worker_def register_handler_def new_worker_def)

lemma payment_get_handler:
  "get_handler (payment_worker R bind_int races) data = Inr (Some h) \<Longrightarrow> h = payment_handler R bind_int races"
  by (auto simp: get_handler_def split: sum.splits if_splits json.splits)

context redis_server
begin

lemma payment_handler_streams:
  assumes "payment_handler R bind_int races m w = (x, w')"
  shows "entries S (w_redis w') = entries S (w_redis w) \<and> pel S (w_redis w') = pel S (w_redis w)"
proof -
  let ?Q = "\<lambda>r. entries S r = entries S (w_redis w) \<and> pel S r = pel S (w_redis w)"
  have "keeps (redis_inv ?Q) (on_redis (smove R ''pending_orders'' ''free_amounts'' v))" for v
    by (intro redis_inv_on_redis) (auto dest: smove_apart)
  from redis_handle_payment [OF this] have "keeps (redis_inv ?Q) (payment_handler R bind_int races m)"
    unfolding payment_handler_def by (intro keeps_intro)
  from keepsD [OF this, of w] assms show ?thesis by (simp add: redis_inv_def)
qed

end

sublocale redis_server \<subseteq> payments: queue_worker S "payment_worker R bind_int races" payment_group
  for bind_int races
  by unfold_locales
    (auto simp: payment_group_def consumer_group_def dead_stream_def default_queue_def message_queue_def
      dest!: payment_get_handler payment_handler_streams)

interpretation ref: redis_server ref_sets ref_streams
proof unfold_locales
  fix a b x r y and r' :: ref_state
  assume "smove ref_sets a b x r = (y, r')"
  moreover have "rs_streams (snd (ref_smove a b x s)) = rs_streams s \<and>
      ref_pel (snd (ref_smove a b x s)) = ref_pel s" for s
    by (simp add: ref_smove_def ref_set_def ref_pel_def fun_eq_iff Let_def)
  ultimately have "rs_streams r' = rs_streams r \<and> ref_pel r' = ref_pel r"
    by (simp add: ref_sets_def) (metis (no_types, lifting) ref_cmd_same)
  then show "entries ref_streams r' = entries ref_streams r \<and> pel ref_streams r' = pel ref_streams r"
    by (simp add: ref_streams_def)
qed

subsection \<open>A sample run\<close>

definition sample_batch :: batch_env where
  "sample_batch = \<lparr>be_claim_now = ''1001.5'', be_read_now = ''1001.5'', be_clock = (\<lambda>_. ''1002.5'')\<rparr>"

definition sample_worker :: "ref_state worker" where
  "sample_worker = payment_worker ref_sets sample_driver (\<lambda>_. sample_race)"

definition worker_start :: "ref_state world" where
  "worker_start = snd enqueued"

definition worker_run :: "(exn + unit) \<times> ref_state world" where
  "worker_run = run_worker ref_streams Some sample_worker payment_group [sample_batch, sample_batch] worker_start"

definition worker_visits :: "(message \<times> ref_state world) list" where
  "worker_visits = run_visits ref_streams Some sample_worker payment_group [sample_batch, sample_batch] worker_start"

lemma worker_run_checked: "checked (\<lambda>(x, w). x = Inr () \<and> \<not> in_pel ref_streams payment_group w ''2'' \<and>
    entries ref_streams (w_redis w) ''pending_orders_queue:dead'' = []) worker_run"
  by code_simp

lemma worker_visits_checked: "checked (\<lambda>vs. case vs of [] \<Rightarrow> False
    | x # xs \<Rightarrow> (case x of (m, v) \<Rightarrow> m = due_queue_message \<and> in_pel ref_streams payment_group v ''2'') \<and>
        (case xs of [] \<Rightarrow> True | _ \<Rightarrow> False)) worker_visits"
  by code_simp

lemma worker_run_facts: "fst worker_run = Inr ()" "\<not> in_pel ref_streams payment_group (snd worker_run) ''2''"
  "entries ref_streams (w_redis (snd worker_run)) ''pending_orders_queue:dead'' = []"
  using worker_run_checked by (simp_all add: checked_def case_prod_beta)

lemma worker_start_facts:
  "''2'' \<in> set (map fst (entries ref_streams (w_redis worker_start) (cg_stream_name payment_group)))"
  "truthy (dict_get due_message ''amount'')" "idle worker_start"
  by (code_simp, code_simp, simp add: idle_def worker_start_def enqueued_def enqueue_def)

lemma worker_visit: obtains v where "worker_visits = [(due_queue_message, v)]"
    "in_pel ref_streams payment_group v ''2''"
  using worker_visits_checked by (auto simp: checked_def split: list.splits)

text \<open>
  C11. The worker loses no message and survives every error, whatever Redis and the handlers do: a
  run of any number of batches returns, and a message that is pending when the run starts, or at
  any moment at which it takes up a message, is still pending at the end, unless it was trimmed
  from the stream, or the run settled it. Settled means: its handler was run in that world and did
  its work, or failed with the attempts used up and the message is in the dead letter stream; a
  message without an amount is in the dead letter stream.
\<close>

theorem worker_loses_no_message:
  assumes "queue_worker S K c" and "run_worker S fl K c Es w = (x, w')"
    and "v = w \<or> (\<exists>m. (m, v) \<in> set (run_visits S fl K c Es w))" and "in_pel S c v i"
  shows "x = Inr () \<and>
    (in_pel S c w' i \<or> i \<notin> fst ` set (entries S (w_redis w) (cg_stream_name c)) \<or>
     (\<exists>(m, u) \<in> set (run_visits S fl K c Es w). m_id m = i \<and>
       (\<exists>a. json_get (m_data m) ''amount'' = Some a \<and>
         (if truthy a then \<exists>b u'. process_message K m u = (Inr b, u') \<and>
            (b \<or> (wk_max_retries K \<le> m_attempts m \<and> buried S K w' m))
          else buried S K w' m))))"
  using queue_worker.run_result [OF assms] by (simp add: settled_def)

theorem worker_loses_no_message_witness:
  "\<exists>v. worker_visits = [(due_queue_message, v)] \<and> in_pel ref_streams payment_group v ''2'' \<and>
     \<not> in_pel ref_streams payment_group (snd worker_run) ''2'' \<and>
     (\<exists>b u'. process_message sample_worker due_queue_message v = (Inr b, u') \<and> b)"
proof -
  obtain v where v: "worker_visits = [(due_queue_message, v)]" "in_pel ref_streams payment_group v ''2''"
    by (rule worker_visit)
  have run: "run_worker ref_streams Some sample_worker payment_group [sample_batch, sample_batch] worker_start
      = (Inr (), snd worker_run)"
    using worker_run_facts(1) by (simp add: worker_run_def prod_eq_iff)
  have server: "queue_worker ref_streams sample_worker payment_group"
    unfolding sample_worker_def by (rule ref.payments.queue_worker_axioms)
  have "m_attempts due_queue_message < wk_max_retries sample_worker"
    by (simp add: due_queue_message_def sample_worker_def)
  moreover have "json_get (m_data due_queue_message) ''amount'' = Some (dict_get due_message ''amount'')"
    by (simp add: due_queue_message_def)
  moreover have visits: "run_visits ref_streams Some sample_worker payment_group
      [sample_batch, sample_batch] worker_start = [(due_queue_message, v)]"
    using v(1) by (simp only: worker_visits_def)
  from worker_loses_no_message [OF server run _ v(2)] worker_run_facts(2) worker_start_facts(1)
  have "\<exists>a. json_get (m_data due_queue_message) ''amount'' = Some a \<and>
      (if truthy a then \<exists>b u'. process_message sample_worker due_queue_message v = (Inr b, u') \<and>
         (b \<or> (wk_max_retries sample_worker \<le> m_attempts due_queue_message \<and>
           buried ref_streams sample_worker (snd worker_run) due_queue_message))
       else buried ref_streams sample_worker (snd worker_run) due_queue_message)"
    unfolding visits by auto
  ultimately show ?thesis using v worker_run_facts(2) worker_start_facts(2) by auto
qed

subsection \<open>Invariants of the worker\<close>

text \<open>
  Outside its handlers the worker only sends Redis commands: an invariant of the database that the
  payment handler keeps holds throughout a run, at every message it comes to.
\<close>

lemma keeps_bind_lift:
  "(\<And>x. r = Inr x \<Longrightarrow> keeps I (f x)) \<Longrightarrow> keeps I (bind_io (lift_io r) f)"
  by (cases r) (auto simp: keeps_def bind_io_def lift_io_def)

locale worker_invariant =
  fixes I :: "'r world \<Rightarrow> bool" and R :: "'r redis_sets" and bind_int races
  assumes redis: "I w \<Longrightarrow> I (w\<lparr>w_redis := r\<rparr>)"
    and handler: "keeps I (payment_handler R bind_int races m)"
begin

lemma keeps_on_redis [keeps_intro]: "keeps I (on_redis cmd)"
  using redis by (simp add: keeps_def on_redis_def split: prod.splits)

lemma keeps_process_message: "keeps I (process_message (payment_worker R bind_int races) m)"
  unfolding process_message_def
  by (rule keeps_bind_lift, rule keeps_bind_lift)
    (auto dest!: payment_get_handler split: option.split intro!: keeps_intro handler)

lemma keeps_work_message: "keeps I (work_message S (payment_worker R bind_int races) c t m)"
  unfolding work_message_def handle_failure_def move_to_dead_letter_def acknowledge_def
  by (intro keeps_intro keeps_process_message)

lemma keeps_claim_entries: "keeps I (claim_entries S fl now c t ps)"
  by (induction ps) (auto intro!: keeps_intro)

lemma keeps_claim_stale: "keeps I (claim_stale_message S fl now c t n)"
  unfolding claim_stale_message_def by (intro keeps_intro keeps_claim_entries)

lemma keeps_read: "keeps I (read_messages S fl now c n)"
  unfolding read_messages_def by (intro keeps_intro)

lemma keeps_work_messages: "keeps I (work_messages S (payment_worker R bind_int races) c clock ms)"
  by (induction ms) (auto intro!: keeps_intro keeps_work_message)

lemma keeps_process_batch: "keeps I (process_batch S fl (payment_worker R bind_int races) c E)"
  unfolding process_batch_def
  by (intro keeps_intro keeps_work_messages keeps_claim_stale keeps_read)

lemma keeps_run_worker: "keeps I (run_worker S fl (payment_worker R bind_int races) c Es)"
  by (induction Es) (auto intro!: keeps_intro keeps_process_batch)

lemma keeps_start_worker: "keeps I (start_worker S fl (payment_worker R bind_int races) fresh Es)"
  unfolding start_worker_def create_group_def ensure_group_def Let_def
  by (intro keeps_intro keeps_run_worker)

lemma at_visits:
  "I w \<Longrightarrow> (m, u) \<in> set (visits S (payment_worker R bind_int races) c clock ms w) \<Longrightarrow> I u"
proof (induction ms arbitrary: w)
  case (Cons m' ms)
  obtain y v where work: "work_message S (payment_worker R bind_int races) c (clock (m_id m')) m' w = (y, v)"
    by fastforce
  with keepsD [OF keeps_work_message Cons.prems(1)] have "I v" by (metis snd_conv)
  with Cons work show ?case by (auto split: sum.splits)
qed simp

lemma at_batch_visits:
  assumes "I w" and "(m, u) \<in> set (batch_visits S fl (payment_worker R bind_int races) c E w)"
  shows "I u"
proof -
  let ?K = "payment_worker R bind_int races"
  obtain y w1 where c: "claim_stale_message S fl (be_claim_now E) c 6000 10 w = (y, w1)" by fastforce
  with keepsD [OF keeps_claim_stale assms(1)] have w1: "I w1" by (metis snd_conv)
  obtain z w2 where l: "work_messages S ?K c (be_clock E) (case y of Inr ms \<Rightarrow> ms | Inl e \<Rightarrow> []) w1 = (z, w2)"
    by fastforce
  with keepsD [OF keeps_work_messages w1] have w2: "I w2" by (metis snd_conv)
  obtain b w3 where r: "read_messages S fl (be_read_now E) c 10 w2 = (b, w3)" by fastforce
  with keepsD [OF keeps_read w2] have "I w3" by (metis snd_conv)
  with assms(2) c l r w1 show ?thesis
    by (auto simp: batch_visits_def split: sum.splits dest: at_visits)
qed

lemma at_run_visits:
  "I w \<Longrightarrow> (m, u) \<in> set (run_visits S fl (payment_worker R bind_int races) c Es w) \<Longrightarrow> I u"
proof (induction Es arbitrary: w)
  case (Cons E Es)
  let ?w = "snd (process_batch S fl (payment_worker R bind_int races) c E w)"
  have "I ?w" by (rule keepsD [OF keeps_process_batch Cons.prems(1)])
  from Cons.IH [OF this] Cons.prems(2) at_batch_visits [OF Cons.prems(1)] show ?case by auto
qed simp

end

text \<open>Between two messages no transaction is open.\<close>

interpretation idle_worker: worker_invariant idle R bind_int races for R bind_int races
proof
  show "idle (w\<lparr>w_redis := r\<rparr>)" if "idle w" for w :: "'a world" and r
    using that by (simp add: idle_def)
  show "keeps idle (payment_handler R bind_int races m)" for m
    unfolding payment_handler_def handle_payment_def
    by (intro keeps_intro keepsI) (simp_all add: idle_get_db)
qed

subsection \<open>What an acknowledgement means\<close>

lemma handled_payment_attached:
  assumes "handle_payment R bind_int C data u = (Inr b, u')" and "idle u"
    and "\<And>kvs. data = JDict kvs \<Longrightarrow> locks_held bind_int C (dict_get kvs ''amount'')"
  obtains kvs t p where "data = JDict kvs" "bind_int (dict_get kvs ''transaction_id'') = Some t"
    "p \<in> set (payment_intents (w_committed u'))" "pi_sms_transaction_id p = Some t"
proof (cases data)
  case (JDict kvs)
  with assms obtain v where "take_payment R bind_int C (dict_get kvs ''amount'') (dict_get kvs ''transaction_id'') u
      = (Inr b, v)" "u' = v\<lparr>w_session := w_committed v\<rparr>"
    by (auto simp: handle_payment_dict split: prod.splits sum.splits)
  from take_payment_attached [OF this(1) assms(3) [OF JDict] assms(2)] this(2) JDict show ?thesis
    by (auto intro: that)
qed (use assms(1) handle_payment_no_dict [of data R bind_int C u] in auto)

lemma handle_payment_raises:
  assumes "handle_payment R bind_int C data u = (Inl e, u')"
  shows "\<exists>msg. e = Exn IgnoreAndAckMessage msg \<or> e = Exn CriticalRejectMessage msg"
proof -
  have "\<exists>e'. e = payment_failure e'"
    using assms by (auto simp: handle_payment_def get_db_def io_combinators world_combinators
        split: prod.splits sum.splits)
  then show ?thesis by (auto simp: payment_failure_def)
qed

lemma payment_process_True:
  assumes "process_message (payment_worker R bind_int races) m u = (Inr True, u')"
  shows "handle_payment R bind_int (races m) (m_data m) u = (Inr True, u') \<or>
    (\<exists>msg. handle_payment R bind_int (races m) (m_data m) u = (Inl (Exn IgnoreAndAckMessage msg), u'))"
proof -
  obtain y v where run: "handle_payment R bind_int (races m) (m_data m) u = (y, v)" by fastforce
  from assms have "get_handler (payment_worker R bind_int races) (m_data m)
      = Inr (Some (payment_handler R bind_int races))"
    by (auto simp: process_message_def io_combinators dest: payment_get_handler
        split: sum.splits option.splits)
  with assms run show ?thesis
  proof (cases y)
    case (Inl e)
    with assms run \<open>get_handler _ _ = _\<close> handle_payment_raises [of R bind_int "races m" "m_data m" u e v]
    show ?thesis
      by (auto simp: process_message_def payment_handler_def io_combinators subclass_eval
          split: sum.splits if_splits)
  next
    case (Inr b)
    with assms run \<open>get_handler _ _ = _\<close> show ?thesis
      by (auto simp: process_message_def payment_handler_def io_combinators split: sum.splits)
  qed
qed

context redis_server
begin

lemmas payment_run = payments.run_result

end

text \<open>
  C4. An acknowledged payment message is accounted for, end to end: when the worker of \<open>main\<close> runs
  any number of batches, a message that was pending and is not any more belongs to a payment that is attached to
  a payment intent in the committed database, or the handler told to ignore it, or it is in the
  dead letter stream, or it was trimmed from the stream.
\<close>

theorem acknowledged_payment_is_accounted_for:
  assumes server: "redis_server R S"
    and run: "run_worker S fl (payment_worker R bind_int races) payment_group Es w = (x, w')"
    and idle: "idle w" and locks: "\<And>m kvs. m_data m = JDict kvs \<Longrightarrow>
      locks_held bind_int (races m) (dict_get kvs ''amount'')"
    and v: "v = w \<or> (\<exists>m. (m, v) \<in> set (run_visits S fl (payment_worker R bind_int races) payment_group Es w))"
    and i: "in_pel S payment_group v i" "\<not> in_pel S payment_group w' i"
      "i \<in> fst ` set (entries S (w_redis w) (cg_stream_name payment_group))"
  shows "\<exists>m. m_id m = i \<and>
    (buried S (payment_worker R bind_int races) w' m \<or>
     (\<exists>u u'. (m, u) \<in> set (run_visits S fl (payment_worker R bind_int races) payment_group Es w) \<and>
       ((\<exists>msg. handle_payment R bind_int (races m) (m_data m) u = (Inl (Exn IgnoreAndAckMessage msg), u')) \<or>
        (handle_payment R bind_int (races m) (m_data m) u = (Inr True, u') \<and>
         (\<exists>kvs t p. m_data m = JDict kvs \<and> bind_int (dict_get kvs ''transaction_id'') = Some t \<and>
            p \<in> set (payment_intents (w_committed u')) \<and> pi_sms_transaction_id p = Some t)))))"
proof -
  from redis_server.payment_run [OF server run v i(1)] i(2,3) obtain m u where
    m: "(m, u) \<in> set (run_visits S fl (payment_worker R bind_int races) payment_group Es w)" "m_id m = i"
    and settled: "settled S (payment_worker R bind_int races) m u w'" by auto
  show ?thesis
  proof (cases "buried S (payment_worker R bind_int races) w' m")
    case True
    with m show ?thesis by blast
  next
    case False
    with settled obtain u' where "process_message (payment_worker R bind_int races) m u = (Inr True, u')"
      by (auto simp: settled_def split: if_splits)
    from payment_process_True [OF this] show ?thesis
    proof
      assume paid: "handle_payment R bind_int (races m) (m_data m) u = (Inr True, u')"
      from handled_payment_attached [OF this idle_worker.at_run_visits [OF idle m(1)] locks] obtain kvs t p where
        "m_data m = JDict kvs" "bind_int (dict_get kvs ''transaction_id'') = Some t"
        "p \<in> set (payment_intents (w_committed u'))" "pi_sms_transaction_id p = Some t" by metis
      with paid m show ?thesis by blast
    next
      assume "\<exists>msg. handle_payment R bind_int (races m) (m_data m) u = (Inl (Exn IgnoreAndAckMessage msg), u')"
      with m show ?thesis by blast
    qed
  qed
qed

theorem acknowledged_payment_is_accounted_for_witness:
  "\<exists>v u'. worker_visits = [(due_queue_message, v)] \<and>
     ((\<exists>msg. handle_payment ref_sets sample_driver sample_race (JDict due_message) v
         = (Inl (Exn IgnoreAndAckMessage msg), u')) \<or>
      handle_payment ref_sets sample_driver sample_race (JDict due_message) v = (Inr True, u'))"
proof -
  obtain v where v: "worker_visits = [(due_queue_message, v)]" "in_pel ref_streams payment_group v ''2''"
    by (rule worker_visit)
  have run: "run_worker ref_streams Some (payment_worker ref_sets sample_driver (\<lambda>_. sample_race))
      payment_group [sample_batch, sample_batch] worker_start = (Inr (), snd worker_run)"
    using worker_run_facts(1) by (simp add: worker_run_def sample_worker_def prod_eq_iff)
  have visit: "v = worker_start \<or> (\<exists>m. (m, v) \<in> set (run_visits ref_streams Some
      (payment_worker ref_sets sample_driver (\<lambda>_. sample_race)) payment_group
      [sample_batch, sample_batch] worker_start))"
    using v by (auto simp: worker_visits_def sample_worker_def)
  have visits: "run_visits ref_streams Some (payment_worker ref_sets sample_driver (\<lambda>_. sample_race))
      payment_group [sample_batch, sample_batch] worker_start = [(due_queue_message, v)]"
    using v(1) by (simp only: worker_visits_def sample_worker_def)
  have data: "m_data due_queue_message = JDict due_message" by (simp add: due_queue_message_def)
  have known: "''2'' \<in> fst ` set (entries ref_streams (w_redis worker_start) (cg_stream_name payment_group))"
    using worker_start_facts(1) by simp
  have gone: "\<not> in_pel ref_streams payment_group (snd worker_run) ''2''"
    using worker_run_facts(2) by simp
  have nobody: "\<not> buried ref_streams (payment_worker ref_sets sample_driver (\<lambda>_. sample_race)) (snd worker_run) m" for m
    using worker_run_facts(3)
    by (simp add: buried_def dead_stream_def default_queue_def message_queue_def)
  from acknowledged_payment_is_accounted_for [OF ref.redis_server_axioms run worker_start_facts(3)
      sample_locks_held visit v(2) gone known, unfolded visits] nobody
  obtain u' where "(\<exists>msg. handle_payment ref_sets sample_driver sample_race (m_data due_queue_message) v
      = (Inl (Exn IgnoreAndAckMessage msg), u')) \<or>
    handle_payment ref_sets sample_driver sample_race (m_data due_queue_message) v = (Inr True, u')" by auto
  with v(1) show ?thesis unfolding data by blast
qed

end
