(* ===== verification/Live_Redis.thy ===== *)
theory Live_Redis
  imports Worker_Payments
begin

text \<open>
  A Redis server that delivers: besides the safety laws of \<open>redis_server\<close> it answers, and a
  group that reads a stream gets the oldest entries that were not delivered to it. \<open>backlog\<close> is
  the observation of these entries; a group that does not exist yet has all of them before it,
  as the program creates its group at id 0. The commands for sets and streams do not disturb
  each other.
\<close>

locale live_redis = redis_server R S + reliable_set_server R up + reliable_stream_server S up
  for R :: "'r redis_sets" and S :: "'r redis_streams" and up :: "'r \<Rightarrow> bool" +
  fixes backlog :: "'r \<Rightarrow> string \<Rightarrow> string \<Rightarrow> stream_entry list"
  assumes xadd_backlog: "up r \<Longrightarrow> xadd S s fs n r = (Inr i, r') \<Longrightarrow> smembers R r' = smembers R r \<and>
      (\<exists>k. backlog r' s g = drop k (backlog r s g) @ [(i, fs)]) \<and> (s' \<noteq> s \<longrightarrow> backlog r' s' g = backlog r s' g)"
    and xack_backlog: "up r \<Longrightarrow> xack S s g is r = (Inr k, r') \<Longrightarrow>
      smembers R r' = smembers R r \<and> backlog r' = backlog r"
    and smove_backlog: "up r \<Longrightarrow> smove R a b x r = (Inr ok, r') \<Longrightarrow> backlog r' = backlog r"
    and xgroup_live: "up r \<Longrightarrow> \<exists>y r'. xgroup_create S s g r = (y, r') \<and> up r' \<and>
      smembers R r' = smembers R r \<and> backlog r' = backlog r \<and>
      (y = Inr () \<or> y = Inl (Exn ResponseError ''BUSYGROUP Consumer Group name already exists''))"
    and xpending_live: "up r \<Longrightarrow> \<exists>ps r'. xpending_range S s g cnt r = (Inr ps, r') \<and> up r' \<and>
      smembers R r' = smembers R r \<and> backlog r' = backlog r"
    and xreadgroup_live: "up r \<Longrightarrow> \<exists>res r'. xreadgroup S g c s cnt r = (Inr res, r') \<and> up r' \<and>
      smembers R r' = smembers R r \<and> concat (map snd res) = take cnt (backlog r s g) \<and>
      backlog r' s g = drop cnt (backlog r s g)"

subsection \<open>The queue of a group at rest\<close>

text \<open>Every entry of the stream was delivered to the group and acknowledged.\<close>

definition at_rest :: "'r redis_streams \<Rightarrow> ('r \<Rightarrow> string \<Rightarrow> string \<Rightarrow> stream_entry list)
    \<Rightarrow> consumer_group \<Rightarrow> 'r \<Rightarrow> bool" where
  "at_rest S backlog c r \<longleftrightarrow> backlog r (cg_stream_name c) (cg_group_name c) = [] \<and>
     (\<forall>i. pel S r (cg_stream_name c) (cg_group_name c) i = None)"

context live_redis
begin

lemma group_exists:
  assumes "up (w_redis w)"
  shows "\<exists>r'. create_group S q g n fresh w = (Inr (consumer_group q g n fresh), w\<lparr>w_redis := r'\<rparr>) \<and> up r' \<and>
    entries S r' = entries S (w_redis w) \<and> pel S r' = pel S (w_redis w) \<and>
    smembers R r' = smembers R (w_redis w) \<and> backlog r' = backlog (w_redis w)"
proof -
  let ?c = "consumer_group q g n fresh"
  from xgroup_live [OF assms, of "cg_stream_name ?c" "cg_group_name ?c"] obtain y r' where
    run: "xgroup_create S (cg_stream_name ?c) (cg_group_name ?c) (w_redis w) = (y, r')" "up r'"
      "smembers R r' = smembers R (w_redis w)" "backlog r' = backlog (w_redis w)"
      "y = Inr () \<or> y = Inl (Exn ResponseError ''BUSYGROUP Consumer Group name already exists'')" by blast
  have "entries S r' = entries S (w_redis w) \<and> pel S r' = pel S (w_redis w)"
    using xgroup_create_Inr xgroup_create_Inl run(1) by (cases y) auto
  moreover have "contains_str ''BUSYGROUP'' ''BUSYGROUP Consumer Group name already exists''" by code_simp
  ultimately show ?thesis using run
    by (auto simp: create_group_def ensure_group_def Let_def on_redis_def io_combinators subclass_eval)
qed

lemma claim_nothing:
  assumes "up (w_redis w)" and "\<And>i. pel S (w_redis w) (cg_stream_name c) (cg_group_name c) i = None"
  shows "\<exists>r'. claim_stale_message S fl t c ms n w = (Inr [], w\<lparr>w_redis := r'\<rparr>) \<and> up r' \<and>
    entries S r' = entries S (w_redis w) \<and> pel S r' = pel S (w_redis w) \<and>
    smembers R r' = smembers R (w_redis w) \<and> backlog r' = backlog (w_redis w)"
proof -
  from xpending_live [OF assms(1)] obtain ps r' where
    run: "xpending_range S (cg_stream_name c) (cg_group_name c) n (w_redis w) = (Inr ps, r')" "up r'"
      "smembers R r' = smembers R (w_redis w)" "backlog r' = backlog (w_redis w)" by blast
  from xpending_range_Inr [OF run(1)] assms(2) have "ps = []" by (cases ps) auto
  with run xpending_range_same [OF run(1)] show ?thesis
    by (auto simp: claim_stale_message_def on_redis_def io_combinators)
qed

lemma read_backlog:
  assumes "up (w_redis w)" and "backlog (w_redis w) (cg_stream_name c) (cg_group_name c) = [(i, fs)]"
    and "to_message fl t (cg_stream_name c) (\<lambda>fs. int_field fs ''attempts'') (i, fs) = Inr m" and "0 < n"
  shows "\<exists>r'. read_messages S fl t c n w = (Inr [m], w\<lparr>w_redis := r'\<rparr>) \<and> up r' \<and>
    pel S r' = first_delivery (cg_stream_name c) (cg_group_name c) {i} (pel S (w_redis w)) \<and>
    smembers R r' = smembers R (w_redis w) \<and> backlog r' (cg_stream_name c) (cg_group_name c) = []"
proof -
  from xreadgroup_live [OF assms(1)] assms(2,4) obtain res r' where
    run: "xreadgroup S (cg_group_name c) (cg_consumer_name c) (cg_stream_name c) n (w_redis w) = (Inr res, r')"
      "up r'" "smembers R r' = smembers R (w_redis w)" "concat (map snd res) = [(i, fs)]"
      "backlog r' (cg_stream_name c) (cg_group_name c) = []"
    by (metis append_Nil2 drop_all length_Cons less_eq_Suc_le list.size(3) take_all One_nat_def)
  note law = xreadgroup_Inr [OF run(1)]
  have "concat (map (\<lambda>(stream, es). map (Pair stream) es) res) = map (Pair (cg_stream_name c)) (concat (map snd res))"
    using conjunct1 [OF conjunct2 [OF law]] by (induction res) auto
  with run law assms(3) show ?thesis
    by (auto simp: read_messages_def on_redis_def io_combinators)
qed

lemma ack_pel:
  assumes "up (w_redis w)"
  shows "\<exists>b r'. acknowledge S c i w = (Inr b, w\<lparr>w_redis := r'\<rparr>) \<and> up r' \<and>
    pel S r' = acked (cg_stream_name c) (cg_group_name c) [i] (pel S (w_redis w)) \<and>
    smembers R r' = smembers R (w_redis w) \<and> backlog r' = backlog (w_redis w)"
proof -
  from xack_up [OF assms, of "cg_stream_name c" "cg_group_name c" "[i]"] obtain k r' where
    run: "xack S (cg_stream_name c) (cg_group_name c) [i] (w_redis w) = (Inr k, r')" "up r'" by blast
  with xack_Inr [OF run(1)] xack_backlog [OF assms run(1)] show ?thesis
    by (auto simp: acknowledge_def on_redis_def io_combinators)
qed

end

subsection \<open>The reference server delivers\<close>

text \<open>
  The reference server is live when no fault is scripted, the ids of a stream are distinct, no id
  lies above its counter, and what is pending was delivered.
\<close>

definition known_id :: "ref_state \<Rightarrow> string \<Rightarrow> bool" where
  "known_id r i \<longleftrightarrow> (\<exists>k \<le> rs_next_id r. i = py_str (int k))"

definition ref_live :: "ref_state \<Rightarrow> bool" where
  "ref_live r \<longleftrightarrow> ref_up r \<and>
     (\<forall>s. distinct (map fst (rs_streams r s)) \<and> (\<forall>e \<in> set (rs_streams r s). known_id r (fst e))) \<and>
     (\<forall>s g. (\<forall>i \<in> set (rs_delivered r s g). known_id r i) \<and>
        fst ` set (rs_pel r s g) \<subseteq> set (rs_delivered r s g))"

definition ref_backlog :: "ref_state \<Rightarrow> string \<Rightarrow> string \<Rightarrow> stream_entry list" where
  "ref_backlog r s g = filter (\<lambda>e. fst e \<notin> set (rs_delivered r s g)) (rs_streams r s)"

lemma ref_live_cmd: "ref_live r \<Longrightarrow> ref_cmd f r = (Inr (fst (f r)), snd (f r))"
  by (simp add: ref_live_def ref_up_def ref_cmd_def split: prod.splits)

lemma new_id_above: "rs_next_id r < ref_new_id r s"
proof -
  let ?M = "insert (rs_next_id r) ((\<lambda>e. case py_int (fst e) of Some i \<Rightarrow> nat i | None \<Rightarrow> 0) ` set (rs_streams r s))"
  have "rs_next_id r \<le> Max ?M" by (intro Max_ge) auto
  then show ?thesis unfolding ref_new_id_def by (rule le_imp_less_Suc)
qed

lemma new_id_unknown: "\<not> known_id r (py_str (int (ref_new_id r s)))"
proof
  assume "known_id r (py_str (int (ref_new_id r s)))"
  then obtain k where "k \<le> rs_next_id r" "py_str (int (ref_new_id r s)) = py_str (int k)"
    by (auto simp: known_id_def)
  then have "py_int (py_str (int (ref_new_id r s))) = py_int (py_str (int k))" by simp
  then have "ref_new_id r s = k" by simp
  with \<open>k \<le> _\<close> new_id_above [of r s] show False by simp
qed

lemma known_id_later: "known_id r i \<Longrightarrow> rs_next_id r \<le> rs_next_id r' \<Longrightarrow> known_id r' i"
  by (auto simp: known_id_def intro: le_trans)

lemma xadd_live:
  assumes live: "ref_live r"
  shows "ref_live (snd (ref_xadd s fs r)) \<and> rs_sets (snd (ref_xadd s fs r)) = rs_sets r \<and>
    ref_backlog (snd (ref_xadd s fs r)) s g = ref_backlog r s g @ [(fst (ref_xadd s fs r), fs)] \<and>
    (s' \<noteq> s \<longrightarrow> ref_backlog (snd (ref_xadd s fs r)) s' g = ref_backlog r s' g)"
proof -
  let ?n = "ref_new_id r s" and ?r = "snd (ref_xadd s fs r)"
  have r: "?r = r\<lparr>rs_streams := (rs_streams r)(s := rs_streams r s @ [(py_str (int ?n), fs)]), rs_next_id := ?n\<rparr>"
    by (simp add: ref_xadd_def Let_def ref_stream_def)
  have later: "known_id r i \<Longrightarrow> known_id ?r i" for i
    using known_id_later [of r i ?r] new_id_above [of r s] by (simp add: r)
  have new: "known_id ?r (py_str (int ?n))" unfolding known_id_def r by auto
  have fresh: "py_str (int ?n) \<notin> set (rs_delivered r s g)" for g
    using live new_id_unknown [of r s] by (auto simp: ref_live_def)
  have "py_str (int ?n) \<notin> fst ` set (rs_streams r s)" by (rule ref_new_id_fresh)
  with live later new have "ref_live ?r"
    unfolding ref_live_def by (auto simp: r ref_up_def)
  with fresh show ?thesis by (simp add: r ref_backlog_def) (simp add: ref_xadd_def Let_def)
qed

lemma delivered_live:
  assumes live: "ref_live r" and known: "\<forall>i \<in> set ids. known_id r i"
  shows "ref_live ((ref_set_pel s g (rs_pel r s g @ map (\<lambda>i. (i, 1)) ids) r)
    \<lparr>rs_delivered := (rs_delivered r)(s := (rs_delivered r s)(g := ids @ rs_delivered r s g))\<rparr>)" (is "ref_live ?r")
proof -
  have "fst ` set (rs_pel ?r s' g') \<subseteq> set (rs_delivered ?r s' g')" for s' g'
    using live unfolding ref_live_def by (fastforce simp: ref_set_pel_def)
  moreover have "known_id ?r i \<longleftrightarrow> known_id r i" for i by (simp add: known_id_def ref_set_pel_def)
  ultimately show ?thesis
    using live known by (auto simp: ref_live_def ref_up_def ref_set_pel_def)
qed

lemma xread_live:
  assumes live: "ref_live r"
  shows "ref_live (snd (ref_xread g s n r)) \<and> rs_sets (snd (ref_xread g s n r)) = rs_sets r \<and>
    concat (map snd (fst (ref_xread g s n r))) = take n (ref_backlog r s g) \<and>
    ref_backlog (snd (ref_xread g s n r)) s g = drop n (ref_backlog r s g)"
proof -
  have "map_of (rs_pel r s g) i = None" if "i \<notin> set (rs_delivered r s g)" for i
    using live that unfolding ref_live_def map_of_eq_None_iff by blast
  then have fresh: "ref_fresh g s n r = take n (ref_backlog r s g)"
    by (auto simp: ref_fresh_def ref_backlog_def intro!: arg_cong [of _ _ "take n"] filter_cong)
  have dist: "distinct (map fst (ref_backlog r s g))"
    using live by (auto simp: ref_backlog_def ref_live_def distinct_map_filter)
  have rest: "filter (\<lambda>e. fst e \<notin> set (map fst (take n xs))) xs = drop n xs"
    if "distinct (map fst xs)" for xs :: "stream_entry list"
  proof -
    have "filter (\<lambda>e. fst e \<notin> fst ` set (take n xs)) (take n xs @ drop n xs) = drop n xs"
      using that unfolding filter_append
      by (subst (asm) append_take_drop_id [of n xs, symmetric])
        (auto simp del: append_take_drop_id simp: filter_empty_conv filter_id_conv)
    then show ?thesis by simp
  qed
  have known: "known_id r (fst e)" if "e \<in> set (take n (ref_backlog r s g))" for e
    using live that by (auto simp: ref_live_def ref_backlog_def dest!: in_set_takeD)
  show ?thesis
  proof (cases "take n (ref_backlog r s g) = []")
    case True
    then have "drop n (ref_backlog r s g) = ref_backlog r s g" by auto
    with True live show ?thesis by (simp add: ref_xread_def Let_def fresh)
  next
    case False
    with dist have "ref_xread g s n r = ([(s, take n (ref_backlog r s g))],
        (ref_set_pel s g (rs_pel r s g @ map (\<lambda>i. (i, 1)) (map fst (take n (ref_backlog r s g)))) r)
        \<lparr>rs_delivered := (rs_delivered r)(s := (rs_delivered r s)
          (g := map fst (take n (ref_backlog r s g)) @ rs_delivered r s g))\<rparr>)"
      by (simp add: ref_xread_def Let_def fresh distinct_take flip: take_map)
    moreover from rest [OF dist] have
      "filter (\<lambda>e. fst e \<notin> set (map fst (take n (ref_backlog r s g)) @ rs_delivered r s g)) (rs_streams r s)
        = drop n (ref_backlog r s g)"
      by (simp add: ref_backlog_def conj_commute flip: filter_filter)
    moreover have "\<forall>i \<in> set (map fst (take n (ref_backlog r s g))). known_id r i"
      using known by auto
    note delivered_live [OF live this, where s = s and g = g]
    ultimately show ?thesis
      by (simp add: ref_set_pel_def ref_backlog_def)
  qed
qed

lemma xack_live:
  "ref_live r \<Longrightarrow> ref_live (snd (ref_xack s g is r)) \<and> rs_sets (snd (ref_xack s g is r)) = rs_sets r \<and>
   ref_backlog (snd (ref_xack s g is r)) = ref_backlog r"
  by (fastforce simp: ref_xack_def ref_set_pel_def ref_live_def ref_up_def known_id_def ref_backlog_def fun_eq_iff)

lemma ref_set_live [simp]: "ref_live (ref_set k xs r) = ref_live r" "ref_backlog (ref_set k xs r) = ref_backlog r"
  by (simp_all add: ref_set_def ref_live_def ref_up_def known_id_def ref_backlog_def fun_eq_iff)

lemma xpending_live_ref: "snd (ref_xpending s g n r) = r"
  by (simp add: ref_xpending_def Let_def)

interpretation live: reliable_set_server ref_sets ref_live
  by unfold_locales
    (auto simp: ref_sets_def ref_live_cmd ref_spop_def ref_smove_def ref_sadd_def Let_def split: list.splits)

interpretation live: reliable_stream_server ref_streams ref_live
  by unfold_locales (auto simp: ref_streams_def ref_live_cmd xadd_live xack_live)

interpretation live: live_redis ref_sets ref_streams ref_live ref_backlog
proof (unfold_locales, goal_cases)
  case (1 r s fs n i r' g s')
  then show ?case
    using xadd_live [of r s fs g s'] by (auto simp: ref_streams_def ref_sets_def ref_live_cmd intro: exI [of _ 0])
next
  case (2 r s g "is" k r')
  then show ?case using xack_live [of r s g "is"] by (auto simp: ref_streams_def ref_sets_def ref_live_cmd)
next
  case (3 r a b x ok r')
  then show ?case by (auto simp: ref_sets_def ref_live_cmd ref_smove_def Let_def)
next
  case (4 r s g)
  then show ?case by (auto simp: ref_streams_def ref_live_cmd)
next
  case (5 r s g cnt)
  then show ?case by (simp add: ref_streams_def ref_live_cmd xpending_live_ref)
next
  case (6 r g c s cnt)
  then show ?case using xread_live [of r g s cnt] by (auto simp: ref_streams_def ref_sets_def ref_live_cmd)
qed

end
