(* ===== verification/Payment_Progress.thy ===== *)
theory Payment_Progress
  imports Payment_Settlement
begin

text \<open>
  That payments are made: when the message of an SMS has the exact amount of a PENDING intent and
  nothing fails, the handler returns and the order is paid.
\<close>

subsection \<open>Attaching an SMS keeps the schema\<close>

lemma distinct_non_nulls_update:
  assumes "distinct (non_nulls f xs)" and "\<And>q. q \<in> set xs \<Longrightarrow> f q \<noteq> Some t"
    and "distinct (map key xs)" and "\<And>q. f (upd q) = Some t"
  shows "distinct (non_nulls f (update_where (\<lambda>q. key q = k) upd xs))"
  using assms(1-3)
proof (induction xs)
  case (Cons x xs)
  show ?case
  proof (cases "key x = k")
    case True
    then have "update_where (\<lambda>q. key q = k) upd xs = xs"
      using Cons.prems(3) by (intro update_where_none) (metis distinct.simps(2) image_eqI list.set_map list.simps(9))
    moreover have "t \<notin> set (non_nulls f xs)"
      using Cons.prems(2) by (auto simp: non_nulls_def map_filter_def)
    ultimately show ?thesis
      using Cons.prems(1) True assms(4) by (auto simp: non_nulls_def split: option.splits)
  next
    case False
    have "set (non_nulls f (update_where (\<lambda>q. key q = k) upd xs)) \<subseteq> insert t (set (non_nulls f xs))"
      using assms(4) by (auto simp: non_nulls_def map_filter_def set_update_where image_iff)
    with False Cons show ?thesis
      by (auto simp: non_nulls_def split: option.splits)
  qed
qed simp

lemma distinct_filter_update:
  assumes "distinct (map g (filter Q xs))" and "\<And>q. \<not> Q (upd q)"
  shows "distinct (map g (filter Q (update_where P upd xs)))"
  using assms(1)
proof (induction xs)
  case (Cons x xs)
  have "set (filter Q (update_where P upd xs)) \<subseteq> set (filter Q xs)"
    using assms(2) by (auto simp: set_update_where)
  with Cons assms(2) show ?case by (auto split: if_splits)
qed simp

lemma valid_settle:
  assumes valid: "valid_db d" and unattached: "\<And>q. q \<in> set (payment_intents d) \<Longrightarrow> pi_sms_transaction_id q \<noteq> Some t"
    and sms: "t \<in> st_id ` set (sms_transactions d)"
  shows "valid_db (settle (attach_sms t) p d)"
proof -
  let ?d = "settle (attach_sms t) p d"
  have "int4 t"
    using valid sms by (auto simp: valid_db_def fits_columns_def list_all_iff fits_sms_transaction_def)
  then have fits: "fits_columns ?d"
    using valid fits_settle by (simp add: valid_db_def)
  have keys: "distinct (map pi_id (payment_intents d))"
    using valid by (simp add: valid_db_def integrity_def primary_keys_def)
  have "uq_sms_transaction_id ?d"
    using valid unattached keys unfolding uq_sms_transaction_id_def settle_def
    by (auto intro!: distinct_non_nulls_update simp: valid_db_def integrity_def uq_sms_transaction_id_def)
  moreover have "idx_pending_price ?d"
    using valid unfolding idx_pending_price_def settle_def
    by (auto intro!: distinct_filter_update simp: valid_db_def integrity_def idx_pending_price_def pending_def)
  moreover have "primary_keys ?d"
    using valid by (auto simp: valid_db_def integrity_def primary_keys_def settle_def
        intro: intent_update.distinct_update order_update.distinct_update)
  moreover have "foreign_keys ?d"
  proof -
    have orders: "o_id ` set (orders ?d) = o_id ` set (orders d)"
      by (simp add: settle_def order_update.key_image_update)
    have "o_user_id ord \<in> u_id ` set (users d)" if "ord \<in> set (orders ?d)" for ord
      using that valid by (auto simp: settle_def set_update_where order_paid_def valid_db_def
          integrity_def foreign_keys_def list_all_iff)
    moreover have "pi_order_id q \<in> o_id ` set (orders d) \<and>
        (\<forall>s. pi_sms_transaction_id q = Some s \<longrightarrow> s \<in> st_id ` set (sms_transactions d))"
      if "q \<in> set (payment_intents ?d)" for q
      using that valid sms by (auto simp: settle_def set_update_where valid_db_def integrity_def
          foreign_keys_def list_all_iff split: option.splits)
    ultimately show ?thesis
      using valid orders by (auto simp: foreign_keys_def list_all_iff valid_db_def integrity_def
          settle_def split: option.split)
  qed
  ultimately show ?thesis
    using valid fits by (simp add: valid_db_def integrity_def settle_def
        uq_sms_amount_inventory_date_time_def unique_users_def unique_token_hash_def)
qed

subsection \<open>The due payment\<close>

text \<open>The run of the handler, with the row that it pays and the command that it sends.\<close>

lemma due_payment_run:
  assumes moved: "smove R ''pending_orders'' ''free_amounts'' (number_str (dict_get kvs ''amount'')) (w_redis w) = (Inr ok, r)"
    and idle: "idle w"
    and message: "truthy (dict_get kvs ''transaction_id'')" "bind_int (dict_get kvs ''transaction_id'') = Some t"
      "bind_int (dict_get kvs ''amount'') = Some i" "dict_get kvs ''amount'' \<noteq> JNull"
    and no_faults: "rc_check_fault C = None" "rc_lock_fault C = None" "rc_flush_fault C = None" "rc_commit_fault C = None"
    and before: "valid_db (rc_before_lock C (w_committed w))"
    and due: "p \<in> set (payment_intents (rc_before_lock C (w_committed w)))" "pi_status p = OS_PENDING" "pi_exact_amount p = i"
    and after: "valid_db (rc_after_lock C (rc_before_lock C (w_committed w)))"
    and unattached: "\<And>q. q \<in> set (payment_intents (w_committed w)) \<Longrightarrow> pi_sms_transaction_id q \<noteq> Some t"
      "\<And>q. q \<in> set (payment_intents (rc_after_lock C (rc_before_lock C (w_committed w)))) \<Longrightarrow> pi_sms_transaction_id q \<noteq> Some t"
    and recorded: "t \<in> st_id ` set (sms_transactions (rc_after_lock C (rc_before_lock C (w_committed w))))"
  shows "handle_payment R bind_int C (JDict kvs) w = (Inr True,
      \<lparr>w_committed = paid_tables (Some t) p (rc_after_lock C (rc_before_lock C (w_committed w))),
       w_session = paid_tables (Some t) p (rc_after_lock C (rc_before_lock C (w_committed w))), w_redis = r\<rparr>) \<and>
    valid_db (paid_tables (Some t) p (rc_after_lock C (rc_before_lock C (w_committed w)))) \<and>
    (\<exists>ord. pending_for_amount bind_int (dict_get kvs ''amount'') (rc_before_lock C (w_committed w)) = Inr [(p, ord)])"
proof -
  let ?amount = "dict_get kvs ''amount''" and ?d = "rc_before_lock C (w_committed w)"
  have p: "payable i p" using due by (simp add: payable_def)
  then obtain p' ord where rows: "pending_for_amount bind_int ?amount ?d = Inr [(p', ord)]"
    using pending_for_amount_valid [of ?d bind_int ?amount i] before message(3,4) due(1) by auto
  then have single: "with_order ?d (filter (payable i) (payment_intents ?d)) = [(p', ord)]"
    using message(3) by (auto elim: pending_for_amount_single)
  obtain ord' where "ord' \<in> set (orders ?d)" "o_id ord' = pi_order_id p"
    using with_order_unique [OF before due(1)] by (auto dest: filter_singleD)
  then have "(p, ord') \<in> set (with_order ?d (filter (payable i) (payment_intents ?d)))"
    using due(1) p by simp
  then have p': "p' = p"
    unfolding single by simp
  have valid: "valid_db (settle (attach_sms t) p (rc_after_lock C ?d))"
    by (rule valid_settle [OF after unattached(2) recorded])
  have unprocessed: "already_processed bind_int (dict_get kvs ''transaction_id'') (w_committed w) = Inr None"
    using unattached(1) message(2) by (auto simp: already_processed_def bound_def filter_empty_conv)
  with message(1,2) rows p' no_faults idle unprocessed valid moved show ?thesis
    by (simp add: handle_payment_dict take_payment_def process_pending_payment_def io_defs faulty_def
        idle_def flush_change_def result_one_def bound_def settle_attach)
qed

text \<open>
  C3. A due payment is made: when the message of an SMS that is recorded and not yet attached has the
  exact amount of a PENDING intent, and no statement fails, the handler returns, however often
  other sessions commit meanwhile, as long as they respect the row lock and leave the SMS alone.
  Afterwards the intent is PAID with this SMS, its order is PAID, every other row is as the other
  sessions left it, and with Redis up the amount was moved from \<open>pending_orders\<close> to
  \<open>free_amounts\<close>.
\<close>

theorem due_payment_is_settled:
  assumes server: "reliable_set_server R up" and up: "up (w_redis w)" and idle: "idle w"
    and message: "truthy (dict_get kvs ''transaction_id'')" "bind_int (dict_get kvs ''transaction_id'') = Some t"
      "bind_int (dict_get kvs ''amount'') = Some i" "dict_get kvs ''amount'' \<noteq> JNull"
    and no_faults: "rc_check_fault C = None" "rc_lock_fault C = None" "rc_flush_fault C = None" "rc_commit_fault C = None"
    and before: "valid_db (rc_before_lock C (w_committed w))"
    and due: "p \<in> set (payment_intents (rc_before_lock C (w_committed w)))" "pi_status p = OS_PENDING" "pi_exact_amount p = i"
    and lock: "locks_held bind_int C (dict_get kvs ''amount'')"
    and after: "valid_db (rc_after_lock C (rc_before_lock C (w_committed w)))"
    and unattached: "\<And>q. q \<in> set (payment_intents (w_committed w)) \<Longrightarrow> pi_sms_transaction_id q \<noteq> Some t"
      "\<And>q. q \<in> set (payment_intents (rc_after_lock C (rc_before_lock C (w_committed w)))) \<Longrightarrow> pi_sms_transaction_id q \<noteq> Some t"
    and recorded: "t \<in> st_id ` set (sms_transactions (rc_after_lock C (rc_before_lock C (w_committed w))))"
  shows "\<exists>w'. handle_payment R bind_int C (JDict kvs) w = (Inr True, w') \<and> idle w' \<and> up (w_redis w') \<and>
    w_committed w' = paid_tables (Some t) p (rc_after_lock C (rc_before_lock C (w_committed w))) \<and>
    valid_db (w_committed w') \<and>
    (\<exists>q \<in> set (payment_intents (w_committed w')). pi_id q = pi_id p \<and> pi_status q = OS_PAID \<and>
       pi_sms_transaction_id q = Some t) \<and>
    smembers R (w_redis w') = moved ''pending_orders'' ''free_amounts'' (number_str (dict_get kvs ''amount''))
      (smembers R (w_redis w))"
proof -
  obtain ok r where moved: "smove R ''pending_orders'' ''free_amounts'' (number_str (dict_get kvs ''amount'')) (w_redis w)
      = (Inr ok, r)" and "up r" using reliable_set_server.smove_up [OF server up] by blast
  moreover from moved have "smembers R r = moved ''pending_orders'' ''free_amounts''
      (number_str (dict_get kvs ''amount'')) (smembers R (w_redis w))"
    using redis_set_server.smove_Inr [OF reliable_set_server.axioms(1) [OF server]] by blast
  moreover note run = due_payment_run [OF moved idle message no_faults before due after unattached recorded]
  then have "p \<in> set (payment_intents (rc_after_lock C (rc_before_lock C (w_committed w))))"
    using lock by (auto simp: locks_held_def)
  then have "p\<lparr>pi_status := OS_PAID, pi_sms_transaction_id := Some t\<rparr> \<in>
      set (payment_intents (paid_tables (Some t) p (rc_after_lock C (rc_before_lock C (w_committed w)))))"
    by (force simp: paid_tables_def)
  then have "\<exists>q \<in> set (payment_intents (paid_tables (Some t) p (rc_after_lock C (rc_before_lock C (w_committed w))))).
      pi_id q = pi_id p \<and> pi_status q = OS_PAID \<and> pi_sms_transaction_id q = Some t"
    by (rule rev_bexI) simp
  ultimately show ?thesis
    using run by (simp add: idle_def)
qed

theorem due_payment_is_settled_witness:
  "\<exists>w'. handle_payment ref_sets sample_driver sample_race (JDict due_message) due_world = (Inr True, w') \<and>
    w_committed w' = paid_tables (Some 5) due_intent due_db"
proof -
  have "due_intent \<in> set (payment_intents due_db)" "pi_status due_intent = OS_PENDING"
    "pi_exact_amount due_intent = 1500001" "sms_transactions due_db = [sample_sms]" "st_id sample_sms = 5"
    "map pi_sms_transaction_id (payment_intents due_db) = [None]"
    by (simp_all add: due_db_def add_order_def due_intent_def new_payment_intent_def sample_db_def
        empty_db_def sample_sms_def)
  moreover have "\<And>q. q \<in> set (payment_intents due_db) \<Longrightarrow> pi_sms_transaction_id q \<noteq> Some 5"
    by (simp add: due_db_def add_order_def due_intent_def new_payment_intent_def sample_db_def empty_db_def)
  moreover have "ref_up due_pool" by (simp add: ref_up_def due_pool_def ref_empty_def)
  ultimately show ?thesis
    using due_payment_is_settled [OF ref.reliable_set_server_axioms _ idle_due_world, of due_message sample_driver 5
        1500001 sample_race due_intent] sample_locks_held
    by (auto simp: int4_def)
qed

end
