(* ===== verification/Sms_Parser.thy ===== *)
theory Sms_Parser
  imports Exceptions Json_Roundtrip
begin

text \<open>
  \<open>parse_sms_transaction\<close> of app/modules/order/service.py: the translation of the Persian digits,
  the regular expression, and the conversion of the amounts.

  The expression is matched the way \<open>re.search\<close> does it: the leftmost match, greedy repetitions
  longest first, lazy ones shortest first, with backtracking. A matcher takes the rest of the
  text and a continuation. Digits and white space are those of Unicode 15.1 (Python 3.13, as in
  the Dockerfile; the CI still runs Python 3.11, whose Unicode 14 lacks the digits from 73552 and
  124144).
\<close>

subsection \<open>Characters\<close>

definition decimal_zeros :: "nat list" where
  "decimal_zeros =
    [48, 1632, 1776, 1984, 2406, 2534, 2662, 2790, 2918, 3046, 3174, 3302, 3430, 3558, 3664, 3792,
     3872, 4160, 4240, 6112, 6160, 6470, 6608, 6784, 6800, 6992, 7088, 7232, 7248, 42528, 43216, 43264,
     43472, 43504, 43600, 44016, 65296, 66720, 68912, 69734, 69872, 69942, 70096, 70384, 70736, 70864, 71248, 71360,
     71472, 71904, 72016, 72784, 73040, 73120, 73552, 92768, 92864, 93008, 120782, 120792, 120802, 120812, 120822, 123200, 123632, 124144,
     125264, 130032]"

definition decimal_value :: "nat \<Rightarrow> nat option" where
  "decimal_value c = map_option (\<lambda>z. c - z) (find (\<lambda>z. z \<le> c \<and> c \<le> z + 9) decimal_zeros)"

definition is_decimal :: "nat \<Rightarrow> bool" where
  "is_decimal c = (decimal_value c \<noteq> None)"

definition persian_to_eng :: "nat \<Rightarrow> nat" where
  "persian_to_eng c = (if 1776 \<le> c \<and> c \<le> 1785 then 48 + (c - 1776) else c)"

definition amount_char :: "nat \<Rightarrow> bool" where
  "amount_char c = (is_decimal c \<or> c = of_char (CHR '',''))"

subsection \<open>Matchers\<close>

fun greedy :: "(nat \<Rightarrow> bool) \<Rightarrow> pystr \<Rightarrow> (pystr \<Rightarrow> pystr \<Rightarrow> 'a option) \<Rightarrow> pystr \<Rightarrow> 'a option" where
  "greedy P acc k [] = k acc []"
| "greedy P acc k (c # s) =
     (if P c then (case greedy P (acc @ [c]) k s of Some r \<Rightarrow> Some r | None \<Rightarrow> k acc (c # s))
      else k acc (c # s))"

definition star :: "(nat \<Rightarrow> bool) \<Rightarrow> (pystr \<Rightarrow> pystr \<Rightarrow> 'a option) \<Rightarrow> pystr \<Rightarrow> 'a option" where
  "star P k s = greedy P [] k s"

definition plus :: "(nat \<Rightarrow> bool) \<Rightarrow> (pystr \<Rightarrow> pystr \<Rightarrow> 'a option) \<Rightarrow> pystr \<Rightarrow> 'a option" where
  "plus P k s = (case s of [] \<Rightarrow> None | c # s' \<Rightarrow> if P c then greedy P [c] k s' else None)"

fun lazy_any :: "(pystr \<Rightarrow> 'a option) \<Rightarrow> pystr \<Rightarrow> 'a option" where
  "lazy_any k [] = k []"
| "lazy_any k (c # s) = (case k (c # s) of Some r \<Rightarrow> Some r | None \<Rightarrow> lazy_any k s)"

definition shape :: "(nat \<Rightarrow> bool) list \<Rightarrow> (pystr \<Rightarrow> pystr \<Rightarrow> 'a option) \<Rightarrow> pystr \<Rightarrow> 'a option" where
  "shape Ps k s = (if list_all2 (\<lambda>P c. P c) Ps (take (length Ps) s)
     then k (take (length Ps) s) (drop (length Ps) s) else None)"

definition literal :: "pystr \<Rightarrow> (pystr \<Rightarrow> 'a option) \<Rightarrow> pystr \<Rightarrow> 'a option" where
  "literal t k s = (if take (length t) s = t then k (drop (length t) s) else None)"

fun search :: "(pystr \<Rightarrow> 'a option) \<Rightarrow> pystr \<Rightarrow> 'a option" where
  "search m [] = m []"
| "search m (c # s) = (case m (c # s) of Some r \<Rightarrow> Some r | None \<Rightarrow> search m s)"

subsection \<open>The pattern\<close>

text \<open>The Persian parts of the pattern, as code points: "rial was deposited to your account.",
  "balance:" and "rial".\<close>

definition credited :: pystr where
  "credited =
    [1585, 1740, 1575, 1604, 32, 1576, 1607, 32, 1581, 1587, 1575, 1576, 32, 1588, 1605, 1575,
     32, 1606, 1588, 1587, 1578, 46]"

definition balance :: pystr where
  "balance = [1605, 1608, 1580, 1608, 1583, 1740, 58]"

definition rial :: pystr where
  "rial = [1585, 1740, 1575, 1604]"

definition clock :: "(nat \<Rightarrow> bool) list" where
  "clock = [is_decimal, is_decimal, (=) (of_char (CHR '':'')), is_decimal, is_decimal]"

definition calendar :: "(nat \<Rightarrow> bool) list" where
  "calendar = [is_decimal, is_decimal, is_decimal, is_decimal, (=) (of_char (CHR ''.'')),
     is_decimal, is_decimal, (=) (of_char (CHR ''.'')), is_decimal, is_decimal]"

text \<open>The groups \<open>amount\<close>, \<open>inventory\<close>, \<open>time\<close> and \<open>date\<close>.\<close>

type_synonym groups = "pystr \<times> pystr \<times> pystr \<times> pystr"

definition match_date :: "pystr \<Rightarrow> pystr \<Rightarrow> pystr \<Rightarrow> pystr \<Rightarrow> groups option" where
  "match_date amount inventory time = shape calendar (\<lambda>date _. Some (amount, inventory, time, date))"

definition match_time :: "pystr \<Rightarrow> pystr \<Rightarrow> pystr \<Rightarrow> groups option" where
  "match_time amount inventory = shape clock (\<lambda>time. lazy_any (match_date amount inventory time))"

definition match_inventory :: "pystr \<Rightarrow> pystr \<Rightarrow> groups option" where
  "match_inventory amount = literal balance (star unicode_space (\<lambda>_. plus amount_char (\<lambda>inventory.
     star unicode_space (\<lambda>_. literal rial (lazy_any (match_time amount inventory))))))"

definition sms_pattern :: "pystr \<Rightarrow> groups option" where
  "sms_pattern = plus amount_char (\<lambda>amount. star unicode_space (\<lambda>_.
     literal credited (lazy_any (match_inventory amount))))"

subsection \<open>The function\<close>

record sms_data =
  sd_trace_id :: pystr
  sd_sms_amount :: int
  sd_sms_inventory :: int
  sd_sms_date :: pystr
  sd_sms_time :: pystr
  sd_webhook_payload :: pystr

text \<open>\<open>int\<close> on a string of decimal digits; the interpreter refuses more than 4300 of them.\<close>

definition decimals_value :: "pystr \<Rightarrow> nat" where
  "decimals_value s = foldl (\<lambda>n c. 10 * n + (case decimal_value c of Some d \<Rightarrow> d | None \<Rightarrow> 0)) 0 s"

definition int_of_decimals :: "pystr \<Rightarrow> exn + int" where
  "int_of_decimals s =
     (if s = [] then Inl (Exn ValueError ''invalid literal for int() with base 10'')
      else if 4300 < length s then Inl (Exn ValueError ''Exceeds the limit (4300 digits)'')
      else Inr (int (decimals_value s)))"

definition without_commas :: "pystr \<Rightarrow> pystr" where
  "without_commas s = filter (\<lambda>c. c \<noteq> of_char (CHR '','')) s"

definition parse_sms_transaction :: "string \<Rightarrow> pystr \<Rightarrow> exn + sms_data option" where
  "parse_sms_transaction hex content =
     (case search sms_pattern (map persian_to_eng content) of
        None \<Rightarrow> Inr None
      | Some (amount, inventory, time, date) \<Rightarrow>
          (case int_of_decimals (without_commas amount) of
             Inl e \<Rightarrow> Inl e
           | Inr a \<Rightarrow> (case int_of_decimals (without_commas inventory) of
               Inl e \<Rightarrow> Inl e
             | Inr i \<Rightarrow> Inr (Some \<lparr>sd_trace_id = lit ''tx_'' @ lit (take 12 hex), sd_sms_amount = a,
                 sd_sms_inventory = i, sd_sms_date = date, sd_sms_time = time,
                 sd_webhook_payload = content\<rparr>))))"

subsection \<open>The matchers are complete\<close>

lemma greedy_Some:
  "greedy P acc k s = Some r \<Longrightarrow> \<exists>p q. s = p @ q \<and> list_all P p \<and> k (acc @ p) q = Some r"
proof (induction s arbitrary: acc)
  case (Cons c s)
  show ?case
  proof (cases "P c \<and> greedy P (acc @ [c]) k s = Some r")
    case True
    with Cons.IH [of "acc @ [c]"] obtain p q where
      "s = p @ q" "list_all P p" "k (acc @ c # p) q = Some r" by auto
    with True show ?thesis by (intro exI [of _ "c # p"] exI [of _ q]) simp
  next
    case False
    with Cons.prems have "k acc (c # s) = Some r" by (auto split: if_splits option.splits)
    then show ?thesis by (intro exI [of _ "[]"] exI [of _ "c # s"]) simp
  qed
qed simp

lemma greedy_complete:
  "list_all P p \<Longrightarrow> k (acc @ p) q \<noteq> None \<Longrightarrow> greedy P acc k (p @ q) \<noteq> None"
proof (induction p arbitrary: acc)
  case Nil
  then show ?case by (cases q) (auto split: option.splits)
next
  case (Cons c p)
  then have "greedy P (acc @ [c]) k (p @ q) \<noteq> None" by simp
  with Cons.prems show ?case by (auto split: option.splits)
qed

lemma star_iff: "star P k s \<noteq> None \<longleftrightarrow> (\<exists>p q. s = p @ q \<and> list_all P p \<and> k p q \<noteq> None)"
  unfolding star_def using greedy_Some [of P "[]" k s] greedy_complete [of P _ k "[]"] by force

lemma star_Some: "star P k s = Some r \<Longrightarrow> \<exists>p q. s = p @ q \<and> list_all P p \<and> k p q = Some r"
  unfolding star_def using greedy_Some [of P "[]" k s r] by simp

lemma plus_Some:
  "plus P k s = Some r \<Longrightarrow> \<exists>p q. s = p @ q \<and> p \<noteq> [] \<and> list_all P p \<and> k p q = Some r"
proof (cases s)
  case (Cons c s')
  assume "plus P k s = Some r"
  with Cons have "P c" "greedy P [c] k s' = Some r" by (auto simp: plus_def split: if_splits)
  with greedy_Some [OF this(2)] obtain p q where "s' = p @ q" "list_all P p" "k ([c] @ p) q = Some r"
    by blast
  with Cons \<open>P c\<close> show ?thesis by (intro exI [of _ "c # p"] exI [of _ q]) simp
qed (simp add: plus_def)

lemma plus_complete:
  "p \<noteq> [] \<Longrightarrow> list_all P p \<Longrightarrow> k p q \<noteq> None \<Longrightarrow> plus P k (p @ q) \<noteq> None"
  using greedy_complete [of P "tl p" k "[hd p]" q] by (cases p) (auto simp: plus_def)

lemma lazy_Some: "lazy_any k s = Some r \<Longrightarrow> \<exists>p q. s = p @ q \<and> k q = Some r"
proof (induction s)
  case (Cons c s)
  show ?case
  proof (cases "k (c # s)")
    case None
    with Cons obtain p q where "s = p @ q" "k q = Some r" by auto
    then show ?thesis by (intro exI [of _ "c # p"] exI [of _ q]) simp
  next
    case (Some r')
    with Cons.prems show ?thesis by (intro exI [of _ "[]"] exI [of _ "c # s"]) simp
  qed
qed simp

lemma lazy_complete: "k q \<noteq> None \<Longrightarrow> lazy_any k (p @ q) \<noteq> None"
proof (induction p)
  case Nil
  then show ?case by (cases q) (auto split: option.splits)
qed (auto split: option.splits)

lemma search_lazy: "search m s = lazy_any m s"
  by (induction s) (auto split: option.splits)

lemma shape_Some: "shape Ps k s = Some r \<Longrightarrow>
    \<exists>p q. s = p @ q \<and> list_all2 (\<lambda>P c. P c) Ps p \<and> k p q = Some r"
  unfolding shape_def by (metis append_take_drop_id option.distinct(1))

lemma shape_at: "list_all2 (\<lambda>P c. P c) Ps p \<Longrightarrow> shape Ps k (p @ q) = k p q"
  using list_all2_lengthD [of _ Ps p] by (simp add: shape_def)

lemma literal_Some: "literal t k s = Some r \<Longrightarrow> \<exists>q. s = t @ q \<and> k q = Some r"
  unfolding literal_def by (metis append_take_drop_id option.distinct(1))

lemma literal_at [simp]: "literal t k (t @ q) = k q"
  by (simp add: literal_def)

subsection \<open>The language of the pattern\<close>

text \<open>The text \<open>s\<close> contains an SMS with the given groups, as the pattern reads declaratively.\<close>

definition sms_text :: "pystr \<Rightarrow> groups \<Rightarrow> bool" where
  "sms_text s g \<longleftrightarrow> (case g of (amount, inventory, time, date) \<Rightarrow>
     amount \<noteq> [] \<and> list_all amount_char amount \<and> inventory \<noteq> [] \<and> list_all amount_char inventory \<and>
     list_all2 (\<lambda>P c. P c) clock time \<and> list_all2 (\<lambda>P c. P c) calendar date \<and>
     (\<exists>before gap1 text1 gap2 gap3 text2 text3 rest.
        list_all unicode_space gap1 \<and> list_all unicode_space gap2 \<and> list_all unicode_space gap3 \<and>
        s = before @ amount @ gap1 @ credited @ text1 @ balance @ gap2 @ inventory @ gap3 @ rial @
              text2 @ time @ text3 @ date @ rest))"

lemma sms_textI:
  "a \<noteq> [] \<Longrightarrow> list_all amount_char a \<Longrightarrow> list_all unicode_space gap1 \<Longrightarrow> list_all unicode_space gap2 \<Longrightarrow>
   list_all unicode_space gap3 \<Longrightarrow> i \<noteq> [] \<Longrightarrow> list_all amount_char i \<Longrightarrow> list_all2 (\<lambda>P c. P c) clock t \<Longrightarrow>
   list_all2 (\<lambda>P c. P c) calendar d \<Longrightarrow>
   sms_text (before @ a @ gap1 @ credited @ text1 @ balance @ gap2 @ i @ gap3 @ rial @ text2 @ t @
     text3 @ d @ rest) (a, i, t, d)"
  unfolding sms_text_def prod.case by blast

lemma match_date_Some:
  assumes "match_date a i t s = Some g"
  obtains d rest where "s = d @ rest" "list_all2 (\<lambda>P c. P c) calendar d" "g = (a, i, t, d)"
  using shape_Some [OF assms [unfolded match_date_def]] by auto

lemma match_time_Some:
  assumes "match_time a i s = Some g"
  obtains t text3 d rest where "s = t @ text3 @ d @ rest" "list_all2 (\<lambda>P c. P c) clock t"
    "list_all2 (\<lambda>P c. P c) calendar d" "g = (a, i, t, d)"
proof -
  from shape_Some [OF assms [unfolded match_time_def]] obtain t q where
    t: "s = t @ q" "list_all2 (\<lambda>P c. P c) clock t" "lazy_any (match_date a i t) q = Some g" by blast
  from lazy_Some [OF t(3)] obtain p q' where q: "q = p @ q'" "match_date a i t q' = Some g" by blast
  from match_date_Some [OF q(2)] that t q show ?thesis by (metis append.assoc)
qed

lemma match_inventory_Some:
  assumes "match_inventory a s = Some g"
  obtains gap2 i gap3 text2 t text3 d rest where
    "s = balance @ gap2 @ i @ gap3 @ rial @ text2 @ t @ text3 @ d @ rest" "list_all unicode_space gap2"
    "list_all unicode_space gap3" "i \<noteq> []" "list_all amount_char i"
    "list_all2 (\<lambda>P c. P c) clock t" "list_all2 (\<lambda>P c. P c) calendar d" "g = (a, i, t, d)"
proof -
  from literal_Some [OF assms [unfolded match_inventory_def]] obtain q1 where
    q1: "s = balance @ q1" "star unicode_space (\<lambda>_. plus amount_char (\<lambda>i. star unicode_space (\<lambda>_.
      literal rial (lazy_any (match_time a i))))) q1 = Some g" by blast
  from star_Some [OF q1(2)] obtain gap2 q2 where q2: "q1 = gap2 @ q2" "list_all unicode_space gap2"
    "plus amount_char (\<lambda>i. star unicode_space (\<lambda>_. literal rial (lazy_any (match_time a i)))) q2 = Some g" by blast
  from plus_Some [OF q2(3)] obtain i q3 where i: "q2 = i @ q3" "i \<noteq> []" "list_all amount_char i"
    "star unicode_space (\<lambda>_. literal rial (lazy_any (match_time a i))) q3 = Some g" by blast
  from star_Some [OF i(4)] obtain gap3 q4 where q4: "q3 = gap3 @ q4" "list_all unicode_space gap3"
    "literal rial (lazy_any (match_time a i)) q4 = Some g" by blast
  from literal_Some [OF q4(3)] obtain q5 where q5: "q4 = rial @ q5" "lazy_any (match_time a i) q5 = Some g"
    by blast
  from lazy_Some [OF q5(2)] obtain text2 q6 where q6: "q5 = text2 @ q6" "match_time a i q6 = Some g" by blast
  from match_time_Some [OF q6(2)] obtain t text3 d rest where
    "q6 = t @ text3 @ d @ rest" "list_all2 (\<lambda>P c. P c) clock t"
    "list_all2 (\<lambda>P c. P c) calendar d" "g = (a, i, t, d)" by blast
  with q1(1) q2(1,2) i(1-3) q4(1,2) q5(1) q6(1) show ?thesis
    by (intro that [of gap2 i gap3 text2 t text3 d rest]) simp_all
qed

lemma search_sound: "search sms_pattern s = Some g \<Longrightarrow> sms_text s g"
proof -
  assume "search sms_pattern s = Some g"
  from lazy_Some [OF this [unfolded search_lazy]] obtain before q where
    q: "s = before @ q" "sms_pattern q = Some g" by blast
  from plus_Some [OF q(2) [unfolded sms_pattern_def]] obtain a q1 where
    a: "q = a @ q1" "a \<noteq> []" "list_all amount_char a"
      "star unicode_space (\<lambda>_. literal credited (lazy_any (match_inventory a))) q1 = Some g" by blast
  from star_Some [OF a(4)] obtain gap1 q2 where q2: "q1 = gap1 @ q2" "list_all unicode_space gap1"
    "literal credited (lazy_any (match_inventory a)) q2 = Some g" by blast
  from literal_Some [OF q2(3)] obtain q3 where q3: "q2 = credited @ q3"
    "lazy_any (match_inventory a) q3 = Some g" by blast
  from lazy_Some [OF q3(2)] obtain text1 q4 where q4: "q3 = text1 @ q4" "match_inventory a q4 = Some g" by blast
  from q4(2) obtain gap2 i gap3 text2 t text3 d rest where
    "q4 = balance @ gap2 @ i @ gap3 @ rial @ text2 @ t @ text3 @ d @ rest" "list_all unicode_space gap2"
    "list_all unicode_space gap3" "i \<noteq> []" "list_all amount_char i"
    "list_all2 (\<lambda>P c. P c) clock t" "list_all2 (\<lambda>P c. P c) calendar d" "g = (a, i, t, d)"
    by (rule match_inventory_Some)
  with q(1) a(1-3) q2(1,2) q3(1) q4(1) show ?thesis
    by (simp only: append_assoc) (rule sms_textI)
qed

lemma match_time_complete:
  assumes "list_all2 (\<lambda>P c. P c) clock t" and "list_all2 (\<lambda>P c. P c) calendar d"
  shows "match_time a i (t @ text3 @ d @ rest) \<noteq> None"
  unfolding match_time_def shape_at [OF assms(1)]
  by (rule lazy_complete) (simp add: match_date_def shape_at [OF assms(2)])

lemma match_inventory_complete:
  assumes "list_all unicode_space gap2" "list_all unicode_space gap3" "i \<noteq> []" "list_all amount_char i"
    and "list_all2 (\<lambda>P c. P c) clock t" and "list_all2 (\<lambda>P c. P c) calendar d"
  shows "match_inventory a (balance @ gap2 @ i @ gap3 @ rial @ text2 @ t @ text3 @ d @ rest) \<noteq> None"
proof -
  let ?tail = "t @ text3 @ d @ rest"
  have "lazy_any (match_time a i) (text2 @ ?tail) \<noteq> None"
    by (intro lazy_complete match_time_complete assms)
  then have "literal rial (lazy_any (match_time a i)) (rial @ text2 @ ?tail) \<noteq> None" by simp
  with assms(2) have "star unicode_space (\<lambda>_. literal rial (lazy_any (match_time a i)))
      (gap3 @ rial @ text2 @ ?tail) \<noteq> None" unfolding star_iff by blast
  then have "plus amount_char (\<lambda>i. star unicode_space (\<lambda>_. literal rial (lazy_any (match_time a i))))
      (i @ gap3 @ rial @ text2 @ ?tail) \<noteq> None" by (intro plus_complete assms)
  with assms(1) have "star unicode_space (\<lambda>_. plus amount_char (\<lambda>i. star unicode_space (\<lambda>_.
      literal rial (lazy_any (match_time a i))))) (gap2 @ i @ gap3 @ rial @ text2 @ ?tail) \<noteq> None"
    unfolding star_iff by blast
  then show ?thesis by (simp add: match_inventory_def)
qed

lemma search_complete:
  assumes "sms_text s g"
  shows "search sms_pattern s \<noteq> None"
proof -
  obtain a i t d where g: "g = (a, i, t, d)" by (cases g) auto
  from assms [unfolded g sms_text_def prod.case] obtain before gap1 text1 gap2 gap3 text2 text3 rest where
    *: "a \<noteq> []" "list_all amount_char a" "i \<noteq> []" "list_all amount_char i"
      "list_all2 (\<lambda>P c. P c) clock t" "list_all2 (\<lambda>P c. P c) calendar d"
      "list_all unicode_space gap1" "list_all unicode_space gap2" "list_all unicode_space gap3"
    and s: "s = before @ a @ gap1 @ credited @ text1 @ balance @ gap2 @ i @ gap3 @ rial @
              text2 @ t @ text3 @ d @ rest" by blast
  let ?tail = "text1 @ balance @ gap2 @ i @ gap3 @ rial @ text2 @ t @ text3 @ d @ rest"
  have "lazy_any (match_inventory a) ?tail \<noteq> None"
    by (intro lazy_complete match_inventory_complete *)
  then have "literal credited (lazy_any (match_inventory a)) (credited @ ?tail) \<noteq> None" by simp
  with *(7) have "star unicode_space (\<lambda>_. literal credited (lazy_any (match_inventory a)))
      (gap1 @ credited @ ?tail) \<noteq> None" unfolding star_iff by blast
  then have "sms_pattern (a @ gap1 @ credited @ ?tail) \<noteq> None"
    unfolding sms_pattern_def by (intro plus_complete *)
  then show ?thesis unfolding search_lazy s by (rule lazy_complete)
qed

end
