(* ===== verification/Sms_Roundtrip.thy ===== *)
theory Sms_Roundtrip
  imports Sms_Parser
begin

text \<open>
  What the SMS parser guarantees: it finds an SMS exactly in the texts of the language of its
  pattern, and it reads the numbers a bank message shows, in Persian or in ASCII digits.
\<close>

text \<open>
  C15. The parser recognises exactly the language of its pattern, backtracking included: it answers
  None only for a text in which there is no SMS; otherwise the amounts, the time and the date
  are those of an SMS in the text; and it raises only where an amount consists of commas or is
  beyond the interpreter's limit.
\<close>

theorem sms_parser_matches_language:
  "case parse_sms_transaction hex content of
     Inr None \<Rightarrow> \<not> (\<exists>g. sms_text (map persian_to_eng content) g)
   | Inr (Some data) \<Rightarrow> (\<exists>a i. sms_text (map persian_to_eng content) (a, i, sd_sms_time data, sd_sms_date data) \<and>
       without_commas a \<noteq> [] \<and> without_commas i \<noteq> [] \<and>
       sd_sms_amount data = int (decimals_value (without_commas a)) \<and>
       sd_sms_inventory data = int (decimals_value (without_commas i)) \<and> sd_webhook_payload data = content)
   | Inl e \<Rightarrow> exn_cls e = ValueError \<and> (\<exists>a i t d. sms_text (map persian_to_eng content) (a, i, t, d) \<and>
       (\<exists>s \<in> {without_commas a, without_commas i}. s = [] \<or> 4300 < length s))"
proof (cases "search sms_pattern (map persian_to_eng content)")
  case None
  then have "\<not> (\<exists>g. sms_text (map persian_to_eng content) g)" using search_complete by blast
  with None show ?thesis by (simp add: parse_sms_transaction_def)
next
  case (Some g)
  obtain a i t d where g: "g = (a, i, t, d)" by (cases g) auto
  with search_sound [OF Some] have "sms_text (map persian_to_eng content) (a, i, t, d)" by simp
  with Some g show ?thesis
    by (auto simp: parse_sms_transaction_def int_of_decimals_def)
qed

subsection \<open>Deterministic matches\<close>

lemma greedy_exact:
  "list_all P p \<Longrightarrow> q = [] \<or> \<not> P (hd q) \<Longrightarrow> k (acc @ p) q = Some r \<Longrightarrow> greedy P acc k (p @ q) = Some r"
proof (induction p arbitrary: acc)
  case Nil
  then show ?case by (cases q) auto
qed auto

lemma star_exact:
  "list_all P p \<Longrightarrow> q = [] \<or> \<not> P (hd q) \<Longrightarrow> k p q = Some r \<Longrightarrow> star P k (p @ q) = Some r"
  unfolding star_def by (rule greedy_exact) auto

lemma plus_exact:
  "p \<noteq> [] \<Longrightarrow> list_all P p \<Longrightarrow> q = [] \<or> \<not> P (hd q) \<Longrightarrow> k p q = Some r \<Longrightarrow> plus P k (p @ q) = Some r"
  using greedy_exact [of P "tl p" q k "[hd p]" r] by (cases p) (auto simp: plus_def)

lemma lazy_here: "k s = Some r \<Longrightarrow> lazy_any k s = Some r"
  by (cases s) auto

lemma lazy_skip: "k (c # s) = None \<Longrightarrow> lazy_any k (c # s) = lazy_any k s"
  by simp

lemma search_here: "m s = Some r \<Longrightarrow> search m s = Some r"
  by (cases s) auto

subsection \<open>Amounts with separators\<close>

definition digit_code :: "nat \<Rightarrow> nat" where
  "digit_code d = 48 + d"

fun with_commas :: "nat \<Rightarrow> pystr" where
  "with_commas n =
     (if n < 1000 then lit (str_of_nat n)
      else with_commas (n div 1000) @
        [of_char (CHR '',''), digit_code (n mod 1000 div 100), digit_code (n mod 100 div 10), digit_code (n mod 10)])"

declare with_commas.simps [simp del]

lemma decimal_value_digit [simp]: "d < 10 \<Longrightarrow> decimal_value (digit_code d) = Some d"
    "d < 10 \<Longrightarrow> decimal_value (48 + d) = Some d"
  by (simp_all add: decimal_value_def decimal_zeros_def digit_code_def)

lemma of_digit_char: "d < 10 \<Longrightarrow> of_char (digit_char d) = digit_code d"
  by (simp add: digit_char_def digit_code_def of_char_of)

lemma decimals_value_snoc:
  "d < 10 \<Longrightarrow> decimals_value (s @ [digit_code d]) = 10 * decimals_value s + d"
  by (simp add: decimals_value_def)

lemma decimals_value_str [simp]: "decimals_value (lit (str_of_nat n)) = n"
proof (induction n rule: str_of_nat.induct)
  case (1 n)
  show ?case
  proof (cases "n < 10")
    case True
    then show ?thesis
      using decimals_value_snoc [of n "[]"]
      by (simp add: str_of_nat.simps [of n] lit_def of_digit_char) (simp add: decimals_value_def)
  next
    case False
    with 1 decimals_value_snoc [of "n mod 10" "lit (str_of_nat (n div 10))"] show ?thesis
      by (simp add: str_of_nat.simps [of n] lit_def of_digit_char digit_code_def)
  qed
qed

lemma is_decimal_digit [simp]: "d < 10 \<Longrightarrow> is_decimal (digit_code d)"
  by (simp add: is_decimal_def)

lemma digit_not_comma [simp]: "digit_code d \<noteq> of_char (CHR '','')" "digit_code d \<noteq> 44"
  by (simp_all add: digit_code_def)

lemma is_decimal_code [simp]: "d < 10 \<Longrightarrow> is_decimal (48 + d)"
  using is_decimal_digit [of d] by (simp add: digit_code_def)

lemma str_digits: "list_all is_decimal (lit (str_of_nat n)) \<and> of_char (CHR '','') \<notin> set (lit (str_of_nat n)) \<and>
    lit (str_of_nat n) \<noteq> []"
proof (induction n rule: str_of_nat.induct)
  case (1 n)
  then show ?case by (cases "n < 10") (auto simp: str_of_nat.simps [of n] lit_def of_digit_char
      digit_not_comma [symmetric])
qed

lemma with_commas_chars: "list_all amount_char (with_commas n) \<and> with_commas n \<noteq> []"
proof (induction n rule: with_commas.induct)
  case (1 n)
  show ?case
  proof (cases "n < 1000")
    case True
    then show ?thesis using str_digits [of n]
      by (auto simp: with_commas.simps [of n] amount_char_def list_all_iff)
  next
    case False
    with 1 show ?thesis by (simp add: with_commas.simps [of n] amount_char_def)
  qed
qed

lemma digits_sum: "x * 1000 + y = n \<Longrightarrow> u * 100 + v = y \<Longrightarrow> p * 10 + z = v \<Longrightarrow>
    n = 10 * (10 * (10 * x + u) + p) + (z :: nat)"
  by simp

lemma with_commas_value: "decimals_value (without_commas (with_commas n)) = n"
proof (induction n rule: with_commas.induct)
  case (1 n)
  show ?case
  proof (cases "n < 1000")
    case True
    then have "without_commas (with_commas n) = lit (str_of_nat n)"
      using str_digits [of n] by (auto simp: with_commas.simps [of n] without_commas_def filter_id_conv)
    then show ?thesis by simp
  next
    case False
    let ?s = "without_commas (with_commas (n div 1000))"
    have "without_commas (with_commas n) = ((?s @ [digit_code (n mod 1000 div 100)]) @
        [digit_code (n mod 100 div 10)]) @ [digit_code (n mod 10)]"
      using False by (simp add: with_commas.simps [of n] without_commas_def)
    moreover have "n mod 1000 div 100 < 10" "n mod 100 div 10 < 10" "n mod 10 < 10" by auto
    ultimately have "decimals_value (without_commas (with_commas n)) =
        10 * (10 * (10 * decimals_value ?s + n mod 1000 div 100) + n mod 100 div 10) + n mod 10"
      by (simp only: decimals_value_snoc)
    moreover have "n mod 1000 mod 100 = n mod 100" "n mod 100 mod 10 = n mod 10"
      by (simp_all add: mod_mod_cancel)
    then have "n = 10 * (10 * (10 * (n div 1000) + n mod 1000 div 100) + n mod 100 div 10) + n mod 10"
      using div_mult_mod_eq [of n 1000] div_mult_mod_eq [of "n mod 1000" 100]
        div_mult_mod_eq [of "n mod 100" 10] by (intro digits_sum) simp_all
    ultimately show ?thesis using 1 False by simp
  qed
qed

lemma length_str: "n < 10 ^ k \<Longrightarrow> 0 < k \<Longrightarrow> length (str_of_nat n) \<le> k"
proof (induction k arbitrary: n)
  case (Suc k)
  show ?case
  proof (cases "n < 10")
    case True
    then show ?thesis by (simp add: str_of_nat.simps [of n])
  next
    case False
    with Suc.prems have "0 < k" "n div 10 < 10 ^ k" by (cases k; auto simp: less_mult_imp_div_less)+
    with Suc.IH False show ?thesis by (simp add: str_of_nat.simps [of n])
  qed
qed simp

lemma with_commas_length:
  "n < 1000 ^ k \<Longrightarrow> 0 < k \<Longrightarrow> length (without_commas (with_commas n)) \<le> 3 * k \<and> without_commas (with_commas n) \<noteq> []"
proof (induction k arbitrary: n)
  case (Suc k)
  show ?case
  proof (cases "n < 1000")
    case True
    then have "without_commas (with_commas n) = lit (str_of_nat n)"
      using str_digits [of n] by (auto simp: with_commas.simps [of n] without_commas_def filter_id_conv)
    with length_str [of n 3] True str_digits [of n] show ?thesis by (simp add: lit_def)
  next
    case False
    with Suc.prems have "0 < k" "n div 1000 < 1000 ^ k" by (cases k; auto simp: less_mult_imp_div_less)+
    with Suc.IH False show ?thesis by (simp add: with_commas.simps [of n] without_commas_def)
  qed
qed simp

subsection \<open>A bank message\<close>

definition bank_sms :: "nat \<Rightarrow> nat \<Rightarrow> pystr \<Rightarrow> pystr \<Rightarrow> pystr" where
  "bank_sms a b t d = with_commas a @ lit '' '' @ credited @ [10] @ balance @ lit '' '' @ with_commas b @
     lit '' '' @ rial @ [10] @ t @ lit '' - '' @ d"

lemma sms_chars [simp]: "unicode_space 32" "\<not> unicode_space 1585" "\<not> amount_char 32" "\<not> is_decimal 10"
  "\<not> is_decimal 32" "\<not> is_decimal 45" "\<not> unicode_space 44"
  by (code_simp+)

lemma text_heads [simp]: "hd (credited @ s) = 1585" "hd (rial @ s) = 1585"
  by (simp_all add: credited_def rial_def)

lemma decimal_no_space: "is_decimal c \<Longrightarrow> \<not> unicode_space c"
proof -
  have "list_all (\<lambda>z. list_all (\<lambda>k. \<not> unicode_space (z + k)) [0..<10]) decimal_zeros" by code_simp
  then have no: "\<not> unicode_space (z + k)" if "z \<in> set decimal_zeros" "k < 10" for z k
    using that by (simp add: list_all_iff)
  assume "is_decimal c"
  then obtain z where "find (\<lambda>z. z \<le> c \<and> c \<le> z + 9) decimal_zeros = Some z"
    by (auto simp: is_decimal_def decimal_value_def)
  then have "z \<in> set decimal_zeros" "z \<le> c" "c \<le> z + 9" by (auto simp: find_Some_iff)
  with no [of z "c - z"] show ?thesis by simp
qed

lemma amount_no_space: "amount_char c \<Longrightarrow> \<not> unicode_space c"
  by (auto simp: amount_char_def decimal_no_space)

lemma clock_head: "list_all2 (\<lambda>P c. P c) clock t \<Longrightarrow> \<exists>c s. t = c # s \<and> is_decimal c"
  by (auto simp: clock_def list_all2_Cons1)

lemma calendar_head: "list_all2 (\<lambda>P c. P c) calendar d \<Longrightarrow> \<exists>c s. d = c # s \<and> is_decimal c"
  by (auto simp: calendar_def list_all2_Cons1)

lemma shape_no_head: "Ps = is_decimal # Qs \<Longrightarrow> \<not> is_decimal c \<Longrightarrow> shape Ps k (c # s) = None"
  by (simp add: shape_def)

lemma no_date: "\<not> is_decimal c \<Longrightarrow> match_date a i t (c # s) = None"
  unfolding match_date_def calendar_def by (rule shape_no_head [OF refl])

lemma no_time: "\<not> is_decimal c \<Longrightarrow> match_time a i (c # s) = None"
  unfolding match_time_def clock_def by (rule shape_no_head [OF refl])

lemma search_bank_sms:
  assumes t: "list_all2 (\<lambda>P c. P c) clock t" and d: "list_all2 (\<lambda>P c. P c) calendar d"
  shows "search sms_pattern (bank_sms a b t d) = Some (with_commas a, with_commas b, t, d)"
proof -
  let ?a = "with_commas a" and ?b = "with_commas b"
  have "match_date ?a ?b t d = Some (?a, ?b, t, d)"
    using shape_at [OF d, of "\<lambda>date _. Some (?a, ?b, t, date)" "[]"] by (simp add: match_date_def)
  from lazy_here [where k = "match_date ?a ?b t", OF this] have date: "lazy_any (match_date ?a ?b t) (32 # 45 # 32 # d) = Some (?a, ?b, t, d)"
    by (simp add: no_date)
  then have "match_time ?a ?b (t @ 32 # 45 # 32 # d) = Some (?a, ?b, t, d)"
    unfolding match_time_def shape_at [OF t] .
  from lazy_here [where k = "match_time ?a ?b", OF this] have time: "lazy_any (match_time ?a ?b) (10 # t @ 32 # 45 # 32 # d) = Some (?a, ?b, t, d)"
    by (simp add: no_time)
  let ?tail = "rial @ 10 # t @ 32 # 45 # 32 # d"
  have "star unicode_space (\<lambda>_. literal rial (lazy_any (match_time ?a ?b))) ([32] @ ?tail)
      = Some (?a, ?b, t, d)"
    by (rule star_exact) (simp_all add: time del: lazy_any.simps)
  then have "plus amount_char (\<lambda>i. star unicode_space (\<lambda>_. literal rial (lazy_any (match_time ?a i))))
      (?b @ 32 # ?tail) = Some (?a, ?b, t, d)"
    using with_commas_chars [of b] by (intro plus_exact) simp_all
  moreover obtain c s where b: "?b = c # s" "amount_char c"
    using with_commas_chars [of b] by (cases ?b) auto
  ultimately have "star unicode_space (\<lambda>_. plus amount_char (\<lambda>i. star unicode_space (\<lambda>_.
      literal rial (lazy_any (match_time ?a i))))) ([32] @ ?b @ 32 # ?tail) = Some (?a, ?b, t, d)"
    using amount_no_space [OF b(2)] by (intro star_exact) simp_all
  then have "match_inventory ?a (balance @ 32 # ?b @ 32 # ?tail) = Some (?a, ?b, t, d)"
    by (simp add: match_inventory_def)
  from lazy_here [where k = "match_inventory ?a", OF this] have inv: "lazy_any (match_inventory ?a) (balance @ 32 # ?b @ 32 # ?tail)
      = Some (?a, ?b, t, d)" .
  have "match_inventory ?a (10 # s) = None" for s
    by (simp add: match_inventory_def literal_def balance_def)
  with inv have "lazy_any (match_inventory ?a) (10 # balance @ 32 # ?b @ 32 # ?tail) = Some (?a, ?b, t, d)"
    by simp
  then have "star unicode_space (\<lambda>_. literal credited (lazy_any (match_inventory ?a)))
      ([32] @ credited @ 10 # balance @ 32 # ?b @ 32 # ?tail) = Some (?a, ?b, t, d)"
    by (intro star_exact) (simp_all del: lazy_any.simps)
  then have "sms_pattern (?a @ 32 # credited @ 10 # balance @ 32 # ?b @ 32 # ?tail) = Some (?a, ?b, t, d)"
    unfolding sms_pattern_def using with_commas_chars [of a] by (intro plus_exact) simp_all
  from search_here [of sms_pattern, OF this] show ?thesis by (simp add: bank_sms_def lit_def)
qed

text \<open>
  C16. A bank message is read as it was written: for the message about a deposit \<open>a\<close> with the balance
  \<open>b\<close>, written with thousands separators, in ASCII digits or with any of them replaced by
  Persian ones, the parser returns exactly \<open>a\<close>, \<open>b\<close>, the time and the date, and keeps the
  message itself.
\<close>

theorem bank_sms_is_parsed:
  assumes "map persian_to_eng content = bank_sms a b t d"
    and "list_all2 (\<lambda>P c. P c) clock t" and "list_all2 (\<lambda>P c. P c) calendar d"
    and "a < 1000 ^ 6" and "b < 1000 ^ 6"
  shows "parse_sms_transaction hex content = Inr (Some \<lparr>sd_trace_id = lit ''tx_'' @ lit (take 12 hex),
    sd_sms_amount = int a, sd_sms_inventory = int b, sd_sms_date = d, sd_sms_time = t,
    sd_webhook_payload = content\<rparr>)"
  using with_commas_length [OF assms(4)] with_commas_length [OF assms(5)]
  by (simp add: parse_sms_transaction_def assms(1) search_bank_sms [OF assms(2,3)] int_of_decimals_def
      with_commas_value)

text \<open>1,500,001 and 2,000,000 in Persian digits.\<close>

definition sample_content :: pystr where
  "sample_content = [1777] @ lit '','' @ [1781, 1776, 1776] @ lit '','' @ [1776, 1776, 1777] @ lit '' '' @ credited @
     [10] @ balance @ lit '' '' @ [1778] @ lit '','' @ [1776, 1776, 1776] @ lit '','' @ [1776, 1776, 1776] @
     lit '' '' @ rial @ [10] @ lit ''12:30 - 1403.01.02''"

theorem bank_sms_is_parsed_witness:
  "parse_sms_transaction ''0123456789abcdef'' sample_content =
     Inr (Some \<lparr>sd_trace_id = lit ''tx_0123456789ab'', sd_sms_amount = 1500001, sd_sms_inventory = 2000000,
       sd_sms_date = lit ''1403.01.02'', sd_sms_time = lit ''12:30'', sd_webhook_payload = sample_content\<rparr>)"
proof -
  have "map persian_to_eng sample_content = bank_sms 1500001 2000000 (lit ''12:30'') (lit ''1403.01.02'')"
    and "list_all2 (\<lambda>P c. P c) clock (lit ''12:30'')" and "list_all2 (\<lambda>P c. P c) calendar (lit ''1403.01.02'')"
    by (code_simp+)
  from bank_sms_is_parsed [OF this, of "''0123456789abcdef''"] show ?thesis
    by (simp add: lit_append [symmetric] del: lit_append)
qed

end
