(* ===== verification/Transactions.thy ===== *)
theory Transactions
  imports Sms_Roundtrip Outbox
begin

text \<open>
  The webhook of the bank's SMS messages: \<open>create_transaction_service\<close>,
  \<open>create_outbox_event_service\<close> and \<open>handle_transaction_service\<close> of app/modules/order/service.py,
  and the endpoint \<open>receive_transaction\<close> of app/modules/order/router.py.

  \<open>tx_env\<close> holds the keys the database draws, the clock, what the other sessions commit before
  the first statement, and the exceptions of the statements.
\<close>

record tx_env =
  tx_transaction_id :: int
  tx_event_id :: int
  tx_now :: int
  tx_others :: "db \<Rightarrow> db"
  tx_flush_fault :: "exn option"
  tx_event_fault :: "exn option"
  tx_commit_fault :: "exn option"

text \<open>The dictionary \<open>sms_data\<close>; a missing key is \<open>None\<close>, as \<open>get\<close> has it.\<close>

record sms_dict =
  sm_trace_id :: "pystr option"
  sm_sms_amount :: "int option"
  sm_sms_inventory :: "int option"
  sm_sms_date :: "pystr option"
  sm_sms_time :: "pystr option"
  sm_webhook_payload :: "pystr option"

definition dict_of_sms :: "sms_data \<Rightarrow> sms_dict" where
  "dict_of_sms s = \<lparr>sm_trace_id = Some (sd_trace_id s), sm_sms_amount = Some (sd_sms_amount s),
     sm_sms_inventory = Some (sd_sms_inventory s), sm_sms_date = Some (sd_sms_date s),
     sm_sms_time = Some (sd_sms_time s), sm_webhook_payload = Some (sd_webhook_payload s)\<rparr>"

definition new_sms_transaction :: "int \<Rightarrow> int \<Rightarrow> int \<Rightarrow> pystr \<Rightarrow> pystr \<Rightarrow> pystr \<Rightarrow> sms_transaction_row" where
  "new_sms_transaction i amount inventory date time payload =
     \<lparr>st_id = i, st_sms_amount = amount, st_sms_inventory = inventory, st_sms_date = date,
      st_sms_time = time, st_webhook_payload = payload\<rparr>"

definition add_sms :: "sms_transaction_row \<Rightarrow> db \<Rightarrow> db" where
  "add_sms t d = d\<lparr>sms_transactions := sms_transactions d @ [t]\<rparr>"

definition create_transaction_service :: "tx_env \<Rightarrow> sms_dict
    \<Rightarrow> 'r world \<Rightarrow> (exn + sms_transaction_row) \<times> 'r world" where
  "create_transaction_service E s =
     (case (sm_sms_amount s, sm_sms_inventory s, sm_sms_date s, sm_sms_time s, sm_webhook_payload s) of
        (Some amount, Some inventory, Some date, Some time, Some webhook_payload) \<Rightarrow>
          let new_transaction = new_sms_transaction (tx_transaction_id E) amount inventory date time webhook_payload
          in try_io
               (bind_io (faulty (tx_flush_fault E) (flush_change (add_sms new_transaction))) (\<lambda>_.
                return_io new_transaction))
               (\<lambda>e. if catches IntegrityError e then
                      raise_io (Exn DuplicateSMSTransactionError ''error_duplicate_transaction'')
                    else raise_io e)
      | _ \<Rightarrow> raise_io (Exn InvalidSMSDataError ''error_missing_fields''))"

definition new_outbox_event :: "tx_env \<Rightarrow> (pystr \<times> json) list \<Rightarrow> outbox_event_row" where
  "new_outbox_event E data = \<lparr>oe_id = tx_event_id E, oe_status = ES_PENDING, oe_data = JDict data,
     oe_created_at = tx_now E, oe_retry_count = Some 0, oe_locked_at = None, oe_last_error = None\<rparr>"

definition add_event :: "outbox_event_row \<Rightarrow> db \<Rightarrow> db" where
  "add_event ev d = d\<lparr>outbox_events := outbox_events d @ [ev]\<rparr>"

definition create_outbox_event_service :: "tx_env \<Rightarrow> (pystr \<times> json) list
    \<Rightarrow> 'r world \<Rightarrow> (exn + outbox_event_row) \<times> 'r world" where
  "create_outbox_event_service E transaction_data =
     (if transaction_data = [] then raise_io (Exn InvalidSMSDataError ''error_missing'')
      else
        try_io
          (bind_io (faulty (tx_event_fault E) (flush_change (add_event (new_outbox_event E transaction_data)))) (\<lambda>_.
           return_io (new_outbox_event E transaction_data)))
          (\<lambda>e. if catches IntegrityError e then
                 raise_io (Exn DuplicateOutboxEventError ''error_duplicate_event'')
               else raise_io e))"

definition payment_message :: "int \<Rightarrow> pystr \<Rightarrow> int \<Rightarrow> (pystr \<times> json) list" where
  "payment_message transaction_id trace_id amount =
     [(lit ''transaction_id'', JInt transaction_id), (lit ''trace_id'', JStr trace_id),
      (lit ''amount'', JInt amount), (lit ''type'', JStr (lit ''payment''))]"

definition handle_transaction_service :: "tx_env \<Rightarrow> sms_dict \<Rightarrow> 'r world \<Rightarrow> (exn + int) \<times> 'r world" where
  "handle_transaction_service E s =
     try_io
       (bind_io (create_transaction_service E s) (\<lambda>transaction.
        bind_io (case sm_trace_id s of
            None \<Rightarrow> raise_io (Exn KeyError ''trace_id'') | Some trace_id \<Rightarrow> return_io trace_id) (\<lambda>trace_id.
        bind_io (create_outbox_event_service E
          (payment_message (st_id transaction) trace_id (st_sms_amount transaction))) (\<lambda>_.
        bind_io (commit (tx_commit_fault E)) (\<lambda>_.
        return_io (st_id transaction))))))
       (\<lambda>e. if catches InvalidSMSDataError e \<or> catches DuplicateSMSTransactionError e \<or>
               catches DuplicateOutboxEventError e then
              bind_io rollback (\<lambda>_. raise_io e)
            else if catches IntegrityError e then
              bind_io rollback (\<lambda>_. raise_io (Exn DatabaseError ''database_error''))
            else raise_io e)"

text \<open>\<open>verification\<close> is \<open>config.TOKEN_VERIFICATION\<close>; \<open>hex\<close> is \<open>uuid.uuid4().hex\<close>.\<close>

definition receive_transaction :: "tx_env \<Rightarrow> string \<Rightarrow> string \<Rightarrow> string \<Rightarrow> pystr
    \<Rightarrow> 'r world \<Rightarrow> (exn + int) \<times> 'r world" where
  "receive_transaction E hex verification token content =
     get_db
       (if token = verification then
          if content = [] then raise_io (Http 400 ''The content is required'')
          else
            bind_io (lift_io (parse_sms_transaction hex content)) (\<lambda>sms_data.
            case sms_data of
              None \<Rightarrow> raise_io (Http 400 ''The sms format isn't valid'')
            | Some s \<Rightarrow>
                bind_io (others (tx_others E)) (\<lambda>_.
                try_io (handle_transaction_service E (dict_of_sms s))
                  (\<lambda>e. if catches DuplicateSMSTransactionError e then
                         raise_io (Http 400 ''The transaction data already exists'')
                       else if catches InvalidSMSDataError e then
                         raise_io (Http 400 ''The transaction data is incomplete'')
                       else if catches DuplicateOutboxEventError e then
                         raise_io (Http 400 ''The event data already exists'')
                       else if catches Exception_cls e then raise_io (Http 500 ''Internal Error'')
                       else raise_io e)))
        else raise_io (Http 401 ''The TOKEN is invalid''))"

end
