(* ===== verification/Transaction_Safety.thy ===== *)
theory Transaction_Safety
  imports Transactions Outbox_Samples
begin

text \<open>
  What the webhook guarantees: a deposit and its outbox event are committed together or not at
  all, and a redelivered SMS is rejected without effect.
\<close>

text \<open>The tables with the deposit and its event, written out.\<close>

definition recorded :: "tx_env \<Rightarrow> sms_data \<Rightarrow> db \<Rightarrow> db" where
  "recorded E s d = d\<lparr>
     sms_transactions := sms_transactions d @ [\<lparr>st_id = tx_transaction_id E,
       st_sms_amount = sd_sms_amount s, st_sms_inventory = sd_sms_inventory s,
       st_sms_date = sd_sms_date s, st_sms_time = sd_sms_time s, st_webhook_payload = sd_webhook_payload s\<rparr>],
     outbox_events := outbox_events d @ [\<lparr>oe_id = tx_event_id E, oe_status = ES_PENDING,
       oe_data = JDict [(lit ''transaction_id'', JInt (tx_transaction_id E)),
         (lit ''trace_id'', JStr (sd_trace_id s)), (lit ''amount'', JInt (sd_sms_amount s)),
         (lit ''type'', JStr (lit ''payment''))],
       oe_created_at = tx_now E, oe_retry_count = Some 0, oe_locked_at = None, oe_last_error = None\<rparr>]\<rparr>"

lemma recorded_eq: "recorded E s d =
    add_event (new_outbox_event E (payment_message (tx_transaction_id E) (sd_trace_id s) (sd_sms_amount s)))
      (add_sms (new_sms_transaction (tx_transaction_id E) (sd_sms_amount s) (sd_sms_inventory s)
        (sd_sms_date s) (sd_sms_time s) (sd_webhook_payload s)) d)"
  by (simp add: recorded_def add_event_def new_outbox_event_def payment_message_def add_sms_def
      new_sms_transaction_def)

lemma dict_of_sms_sel [simp]:
  "sm_trace_id (dict_of_sms s) = Some (sd_trace_id s)" "sm_sms_amount (dict_of_sms s) = Some (sd_sms_amount s)"
  "sm_sms_inventory (dict_of_sms s) = Some (sd_sms_inventory s)" "sm_sms_date (dict_of_sms s) = Some (sd_sms_date s)"
  "sm_sms_time (dict_of_sms s) = Some (sd_sms_time s)"
  "sm_webhook_payload (dict_of_sms s) = Some (sd_webhook_payload s)"
  by (simp_all add: dict_of_sms_def)

lemma new_row_sel [simp]: "st_id (new_sms_transaction i a b d t p) = i"
  "st_sms_amount (new_sms_transaction i a b d t p) = a"
  by (simp_all add: new_sms_transaction_def)

lemma create_transaction_Inr:
  "create_transaction_service E (dict_of_sms s) w = (Inr t, w') \<Longrightarrow>
   t = new_sms_transaction (tx_transaction_id E) (sd_sms_amount s) (sd_sms_inventory s) (sd_sms_date s)
         (sd_sms_time s) (sd_webhook_payload s) \<and>
   w' = w\<lparr>w_session := add_sms t (w_session w)\<rparr> \<and> valid_db (w_session w')"
  by (auto simp: create_transaction_service_def faulty_def io_combinators flush_change_def Let_def
      split: option.splits sum.splits if_splits)

lemma create_transaction_Inl:
  "create_transaction_service E s w = (Inl e, w') \<Longrightarrow> w' = w"
  by (auto simp: create_transaction_service_def faulty_def io_combinators flush_change_def Let_def
      split: option.splits sum.splits if_splits prod.splits)

lemma create_event_Inr:
  "create_outbox_event_service E data w = (Inr ev, w') \<Longrightarrow>
   ev = new_outbox_event E data \<and> w' = w\<lparr>w_session := add_event ev (w_session w)\<rparr> \<and> valid_db (w_session w')"
  by (auto simp: create_outbox_event_service_def faulty_def io_combinators flush_change_def
      split: option.splits sum.splits if_splits)

lemma create_event_Inl:
  "create_outbox_event_service E data w = (Inl e, w') \<Longrightarrow> w' = w"
  by (auto simp: create_outbox_event_service_def faulty_def io_combinators flush_change_def
      split: option.splits sum.splits if_splits)

text \<open>What the body of the handler's \<open>try\<close> leaves when it succeeds and when it raises.\<close>

lemma handle_transaction_result:
  assumes run: "handle_transaction_service E (dict_of_sms s) w = (x, w')"
  shows "w_redis w' = w_redis w \<and> (case x of
      Inr i \<Rightarrow> i = tx_transaction_id E \<and> w_committed w' = recorded E s (w_session w) \<and> valid_db (w_committed w')
    | Inl e \<Rightarrow> w_committed w' = w_committed w)"
proof -
  let ?t = "new_sms_transaction (tx_transaction_id E) (sd_sms_amount s) (sd_sms_inventory s) (sd_sms_date s)
         (sd_sms_time s) (sd_webhook_payload s)"
  let ?data = "payment_message (tx_transaction_id E) (sd_trace_id s) (sd_sms_amount s)"
  obtain y w1 where c: "create_transaction_service E (dict_of_sms s) w = (y, w1)" by fastforce
  show ?thesis
  proof (cases y)
    case (Inl e)
    with c create_transaction_Inl have "w1 = w" by blast
    with run c Inl show ?thesis
      by (auto simp: handle_transaction_service_def io_combinators rollback_def split: if_splits)
  next
    case (Inr t)
    from create_transaction_Inr [OF c [unfolded Inr]] have t: "t = ?t"
      and w1: "w1 = w\<lparr>w_session := add_sms ?t (w_session w)\<rparr>" by auto
    obtain z w2 where ev: "create_outbox_event_service E ?data w1 = (z, w2)" by fastforce
    show ?thesis
    proof (cases z)
      case (Inl e)
      with ev create_event_Inl have "w2 = w1" by blast
      with run c Inr ev Inl t w1 show ?thesis
        by (auto simp: handle_transaction_service_def io_combinators rollback_def split: if_splits)
    next
      case z: (Inr ev')
      from create_event_Inr [OF ev [unfolded z]] w1 have w2:
        "w2 = w\<lparr>w_session := recorded E s (w_session w)\<rparr>" "valid_db (w_session w2)"
        by (auto simp: recorded_eq)
      with run c Inr ev z t show ?thesis
        by (cases "tx_commit_fault E")
          (auto simp: handle_transaction_service_def io_combinators rollback_def commit_def split: if_splits)
    qed
  qed
qed

text \<open>A deposit of 1,500,001, announced once and once more.\<close>

definition sample_tx :: tx_env where
  "sample_tx = \<lparr>tx_transaction_id = 6, tx_event_id = 14, tx_now = 950, tx_others = id,
     tx_flush_fault = None, tx_event_fault = None, tx_commit_fault = None\<rparr>"

definition sample_sms_data :: sms_data where
  "sample_sms_data = \<lparr>sd_trace_id = lit ''tx_0123456789ab'', sd_sms_amount = 1500001, sd_sms_inventory = 2000000,
     sd_sms_date = lit ''1403.01.02'', sd_sms_time = lit ''12:30'', sd_webhook_payload = sample_content\<rparr>"

definition accepted :: "(exn + int) \<times> ref_state world" where
  "accepted = receive_transaction sample_tx ''0123456789abcdef'' ''secret'' ''secret'' sample_content outbox_world"

lemma sample_sms_parsed: "parse_sms_transaction ''0123456789abcdef'' sample_content = Inr (Some sample_sms_data)"
  by code_simp

lemma accepted_checked: "checked (\<lambda>(x, w). x = Inr 6 \<and> valid_db (w_committed w) \<and>
    new_sms_transaction 6 1500001 2000000 (lit ''1403.01.02'') (lit ''12:30'') sample_content \<in> set (sms_transactions (w_committed w)))
    accepted"
  by code_simp

lemma accepted_Inr: "fst accepted = Inr 6" "valid_db (w_committed (snd accepted))"
  "new_sms_transaction 6 1500001 2000000 (lit ''1403.01.02'') (lit ''12:30'') sample_content
     \<in> set (sms_transactions (w_committed (snd accepted)))"
  using accepted_checked by (simp_all add: checked_def case_prod_beta)

text \<open>
  C10. A deposit and its event are recorded together: when the webhook accepts an SMS, the message was
  of the known format and exactly one SMS row and one PENDING event, with the payment message of
  this row, are new in the committed database, which satisfies the schema; when it raises, the
  database is as the other sessions made it, and it raises only HTTP errors, but for an SMS whose
  amount the parser cannot convert. Redis is not touched.
\<close>

theorem deposit_is_recorded_with_its_event:
  assumes run: "receive_transaction E hex verification token content w = (x, w')" and "idle w"
  shows "idle w' \<and> w_redis w' = w_redis w \<and> (case x of
      Inr i \<Rightarrow> token = verification \<and> i = tx_transaction_id E \<and>
        (\<exists>s. parse_sms_transaction hex content = Inr (Some s) \<and>
           w_committed w' = recorded E s (tx_others E (w_committed w)) \<and> valid_db (w_committed w'))
    | Inl e \<Rightarrow> w_committed w' \<in> {w_committed w, tx_others E (w_committed w)} \<and>
        ((\<exists>c \<in> {400, 401, 500}. \<exists>m. e = Http c m) \<or> parse_sms_transaction hex content = Inl e))"
proof -
  have idle: "idle w'" using run unfolding receive_transaction_def by (rule get_db_idle)
  show ?thesis
  proof (cases "token = verification \<and> content \<noteq> []")
    case False
    with run idle assms(2) show ?thesis
      by (auto simp: receive_transaction_def get_db_def io_combinators rollback_def idle_def split: if_splits)
  next
    case token: True
    show ?thesis
    proof (cases "parse_sms_transaction hex content")
      case (Inl e)
      with run idle assms(2) token show ?thesis
        by (auto simp: receive_transaction_def get_db_def io_combinators rollback_def idle_def)
    next
      case (Inr data)
      show ?thesis
      proof (cases data)
        case None
        with run idle assms(2) token Inr show ?thesis
          by (auto simp: receive_transaction_def get_db_def io_combinators rollback_def idle_def)
      next
        case (Some s)
        let ?v = "w\<lparr>w_committed := tx_others E (w_committed w), w_session := tx_others E (w_session w)\<rparr>"
        obtain y u where h: "handle_transaction_service E (dict_of_sms s) ?v = (y, u)" by fastforce
        note result = handle_transaction_result [OF h]
        show ?thesis
        proof (cases y)
          case y: (Inl e)
          have "(\<exists>c \<in> {400, 401, 500}. \<exists>m. x = Inl (Http c m)) \<and> w' = u\<lparr>w_session := w_committed u\<rparr>"
            using run token Inr Some h y
            by (auto simp: receive_transaction_def get_db_def io_combinators others_def rollback_def
                split: if_splits)
          with result y idle show ?thesis by auto
        next
          case y: (Inr i)
          have "x = Inr i \<and> w' = u\<lparr>w_session := w_committed u\<rparr>"
            using run token Inr Some h y
            by (auto simp: receive_transaction_def get_db_def io_combinators others_def rollback_def)
          with result y idle token Inr Some assms(2) show ?thesis by (auto simp: idle_def)
        qed
      qed
    qed
  qed
qed

theorem deposit_is_recorded_with_its_event_witness:
  "w_committed (snd accepted) = recorded sample_tx sample_sms_data outbox_db \<and> w_redis (snd accepted) = due_pool"
proof -
  have "receive_transaction sample_tx ''0123456789abcdef'' ''secret'' ''secret'' sample_content outbox_world
      = (Inr 6, snd accepted)"
    using accepted_Inr(1) by (simp add: accepted_def prod_eq_iff)
  from deposit_is_recorded_with_its_event [OF this] show ?thesis
    by (auto simp: sample_sms_parsed sample_tx_def)
qed

subsection \<open>Redelivered messages\<close>

lemma flush_duplicate_sms:
  assumes "valid_db d" and "t' \<in> set (sms_transactions d)" and "sms_key t' = sms_key t" and "fits_sms_transaction t"
  shows "flush (add_sms t d) = Inl (Exn IntegrityError ''constraint violated'')"
proof -
  have "sms_key t \<in> sms_key ` set (sms_transactions d)" using assms(2,3) by (metis image_eqI)
  then have "\<not> uq_sms_amount_inventory_date_time (add_sms t d)"
    by (auto simp: uq_sms_amount_inventory_date_time_def add_sms_def)
  moreover have "fits_columns (add_sms t d)"
    using assms(1,4) by (simp add: valid_db_def fits_columns_def add_sms_def)
  ultimately show ?thesis by (simp add: flush_def integrity_def)
qed

text \<open>
  C19. A redelivered SMS is rejected: when a row with the same amount, balance, date and time is
  there, the webhook answers 400 and writes nothing, neither the row nor a second event, so that
  no deposit is announced twice.
\<close>

theorem redelivered_sms_is_rejected:
  assumes token: "token = verification" and parse: "parse_sms_transaction hex content = Inr (Some s)"
    and "content \<noteq> []" and valid: "valid_db (tx_others E (w_committed w))" and idle: "idle w"
    and known: "t' \<in> set (sms_transactions (tx_others E (w_committed w)))"
      "sms_key t' = (sd_sms_amount s, sd_sms_inventory s, sd_sms_date s, sd_sms_time s)"
    and fits: "fits_sms_transaction (new_sms_transaction (tx_transaction_id E) (sd_sms_amount s)
      (sd_sms_inventory s) (sd_sms_date s) (sd_sms_time s) (sd_webhook_payload s))"
    and "tx_flush_fault E = None"
  shows "\<exists>m w'. receive_transaction E hex verification token content w = (Inl (Http 400 m), w') \<and>
    w_committed w' = tx_others E (w_committed w) \<and> w_redis w' = w_redis w"
proof -
  let ?t = "new_sms_transaction (tx_transaction_id E) (sd_sms_amount s) (sd_sms_inventory s)
    (sd_sms_date s) (sd_sms_time s) (sd_webhook_payload s)"
  have "sms_key t' = sms_key ?t" using known(2) by (simp add: sms_key_def new_sms_transaction_def)
  from flush_duplicate_sms [OF valid known(1) this fits] show ?thesis
    using assms(1,2,3,5,9)
    by (auto simp: receive_transaction_def get_db_def io_combinators others_def rollback_def idle_def
        handle_transaction_service_def create_transaction_service_def faulty_def flush_change_def Let_def
        subclass_eval)
qed

theorem redelivered_sms_is_rejected_witness:
  "\<exists>m w'. receive_transaction sample_tx ''0123456789abcdef'' ''secret'' ''secret'' sample_content (snd accepted)
      = (Inl (Http 400 m), w') \<and> w_committed w' = w_committed (snd accepted)"
proof -
  let ?w = "snd accepted" and ?t' = "new_sms_transaction 6 1500001 2000000 (lit ''1403.01.02'') (lit ''12:30'') sample_content"
  have id: "tx_others sample_tx = id" "tx_flush_fault sample_tx = None" by (simp_all add: sample_tx_def)
  have "?t' \<in> set (sms_transactions (w_committed ?w))" by (rule accepted_Inr(3))
  moreover have "fits_sms_transaction (new_sms_transaction (tx_transaction_id sample_tx) (sd_sms_amount sample_sms_data)
      (sd_sms_inventory sample_sms_data) (sd_sms_date sample_sms_data) (sd_sms_time sample_sms_data)
      (sd_webhook_payload sample_sms_data))" by code_simp
  moreover have "idle ?w" unfolding accepted_def receive_transaction_def by (rule idle_get_db)
  moreover have "sample_content \<noteq> []" by (simp add: sample_content_def)
  moreover have "sms_key ?t' = (sd_sms_amount sample_sms_data, sd_sms_inventory sample_sms_data,
      sd_sms_date sample_sms_data, sd_sms_time sample_sms_data)"
    by (simp add: sms_key_def new_sms_transaction_def sample_sms_data_def)
  ultimately show ?thesis
    using redelivered_sms_is_rejected [OF refl [of "''secret''"] sample_sms_parsed _ _ _ _ _ _ id(2), where w = ?w and t' = ?t'] accepted_Inr(2) id(1) by auto
qed

end
