(* ===== verification/Outbox_Relay.thy ===== *)
theory Outbox_Relay
  imports Outbox_Samples "HOL-Library.Multiset"
begin

text \<open>
  What the relay guarantees: events move through a small state machine and stop in PUBLISHED or
  FAILED; an event is published only when its payload is in the stream; an outage of Redis
  uses up the retries and ends; two relays do not publish the same claim.
\<close>

subsection \<open>One event\<close>

lemma on_redis_cases:
  assumes "on_redis cmd w = (x, w')"
  obtains r where "cmd (w_redis w) = (x, r)" "w' = w\<lparr>w_redis := r\<rparr>"
  using assms by (auto simp: on_redis_def split: prod.splits)

lemma retry_update_sel [simp]: "ou_id (retry_update e a b) = ce_id e"
  "ou_retry_count (retry_update e a b) = retries e + 1"
  "ou_status (retry_update e a b) = (if retries e + 1 \<ge> 5 then ES_FAILED else ES_PENDING)"
  by (simp_all add: retry_update_def Let_def MAX_OUTBOX_RETRIES_def)

definition entry_added :: "'r redis_streams \<Rightarrow> string \<Rightarrow> fields \<Rightarrow> nat option \<Rightarrow> 'r \<Rightarrow> 'r \<Rightarrow> bool" where
  "entry_added S s fs n r r' \<longleftrightarrow> (\<exists>i. appended s fs n i (entries S r) (entries S r'))"

definition outcome_ok :: "claimed_event \<Rightarrow> outbox_update \<Rightarrow> bool" where
  "outcome_ok e up \<longleftrightarrow>
     (validate_event_data (ce_data e) = Inr (ce_data e) \<and>
       up = \<lparr>ou_id = ce_id e, ou_status = ES_PUBLISHED, ou_retry_count = retries e, ou_last_error = None\<rparr>) \<or>
     (\<exists>exc. validate_event_data (ce_data e) = Inl exc \<and>
       up = \<lparr>ou_id = ce_id e, ou_status = ES_FAILED, ou_retry_count = retries e,
              ou_last_error = Some (exn_str exc)\<rparr>) \<or>
     (\<exists>a b. up = retry_update e a b)"

lemma outcome_ok_id: "outcome_ok e up \<Longrightarrow> ou_id up = ce_id e"
  by (auto simp: outcome_ok_def)

context redis_stream_server
begin

lemma xadd_cases:
  assumes "on_redis (xadd S s fs n) w = (x, w')"
  obtains (added) i where "x = Inr i" "entry_added S s fs n (w_redis w) (w_redis w')"
      "w' = w\<lparr>w_redis := w_redis w'\<rparr>"
  | (raised) e where "x = Inl e" "catches RedisError e" "w' = w\<lparr>w_redis := w_redis w'\<rparr>"
proof -
  obtain r where run: "xadd S s fs n (w_redis w) = (x, r)" and w': "w' = w\<lparr>w_redis := r\<rparr>"
    using assms by (rule on_redis_cases)
  show ?thesis
  proof (cases x)
    case (Inl e)
    with xadd_Inl [of s fs n "w_redis w" e r] run w' show ?thesis by (intro raised) auto
  next
    case (Inr i)
    with xadd_Inr [of s fs n "w_redis w" i r] run w' show ?thesis
      by (intro added) (auto simp: entry_added_def)
  qed
qed

text \<open>Publishing one event, branch by branch; nothing but a Redis error is ever raised inside.\<close>

lemma single_event:
  assumes "process_single_outbox_event S q now e w = (res, w')"
  obtains
    (published) "validate_event_data (ce_data e) = Inr (ce_data e)"
      "res = Inr \<lparr>ou_id = ce_id e, ou_status = ES_PUBLISHED, ou_retry_count = retries e, ou_last_error = None\<rparr>"
      "entry_added S (mq_stream_name q) (enqueue_payload now (ce_data e)) (Some (mq_max_len q))
         (w_redis w) (w_redis w')"
      "w' = w\<lparr>w_redis := w_redis w'\<rparr>"
  | (dead) exc where "validate_event_data (ce_data e) = Inl exc"
      "res = Inr \<lparr>ou_id = ce_id e, ou_status = ES_FAILED, ou_retry_count = retries e,
         ou_last_error = Some (exn_str exc)\<rparr>"
      "entry_added S (mq_dead_letter_stream q) (dead_letter_payload q now (ce_data e) (ce_id e) (exn_str exc))
         (Some (mq_max_len q)) (w_redis w) (w_redis w')"
      "w' = w\<lparr>w_redis := w_redis w'\<rparr>"
  | (retry) a b where "res = Inr (retry_update e a b)" "w' = w\<lparr>w_redis := w_redis w'\<rparr>"
proof (cases "validate_event_data (ce_data e)")
  case (Inl exc)
  obtain x w1 where run: "on_redis (xadd S (mq_dead_letter_stream q)
      (dead_letter_payload q now (ce_data e) (ce_id e) (exn_str exc)) (Some (mq_max_len q))) w = (x, w1)"
    by fastforce
  note step = assms [unfolded process_single_outbox_event_def enqueue_dead_letter_def]
  from run show ?thesis
  proof (cases rule: xadd_cases)
    case (added i)
    with step run Inl show ?thesis
      by (intro dead) (auto simp: try_io_def bind_io_def return_io_def)
  next
    case (raised err)
    with step run Inl show ?thesis
      by (intro retry) (auto simp: try_io_def bind_io_def return_io_def)
  qed
next
  case (Inr d)
  then have d: "d = ce_data e"
    by (auto simp: validate_event_data_def split: json.splits option.splits if_splits)
  obtain x w1 where run: "on_redis (xadd S (mq_stream_name q) (enqueue_payload now d)
      (Some (mq_max_len q))) w = (x, w1)"
    by fastforce
  note step = assms [unfolded process_single_outbox_event_def enqueue_def]
  from run show ?thesis
  proof (cases rule: xadd_cases)
    case (added i)
    with step run Inr d show ?thesis
      by (intro published) (auto simp: try_io_def bind_io_def return_io_def)
  next
    case (raised err)
    with step run Inr d show ?thesis
      by (intro retry) (auto simp: try_io_def bind_io_def return_io_def)
  qed
qed

lemma single_event_ok:
  "process_single_outbox_event S q now e w = (res, w') \<Longrightarrow>
   \<exists>up. res = Inr up \<and> outcome_ok e up \<and> w_committed w' = w_committed w \<and> w_session w' = w_session w"
  by (erule single_event) (auto simp: outcome_ok_def dest: arg_cong [of _ _ w_committed] arg_cong [of _ _ w_session])

lemma process_events_returns:
  "process_events S q clock es w = (res, w') \<Longrightarrow>
   \<exists>ups. res = Inr ups \<and> list_all2 outcome_ok es ups \<and>
     w_committed w' = w_committed w \<and> w_session w' = w_session w"
proof (induction es arbitrary: w w' res)
  case Nil
  then show ?case by (simp add: return_io_def)
next
  case (Cons e es)
  obtain x w1 where x: "process_single_outbox_event S q (clock (ce_id e)) e w = (x, w1)" by fastforce
  obtain y w2 where y: "process_events S q clock es w1 = (y, w2)" by fastforce
  from single_event_ok [OF x] Cons.IH [OF y] Cons.prems x y show ?case
    by (auto simp: bind_io_def return_io_def)
qed

end

text \<open>
  Publishing one event never raises, touches no table, and reports what happened: PUBLISHED
  only if the payload is valid and was appended to the stream; FAILED only if the payload is
  invalid and was appended to the dead letter stream with its id and the reason, or if the
  attempts are used up; PENDING only with one attempt more and fewer than five.
\<close>

lemma event_outcome:
  assumes "redis_stream_server S" and "process_single_outbox_event S q now e w = (res, w')"
  shows "\<exists>up. res = Inr up \<and> ou_id up = ce_id e \<and> w' = w\<lparr>w_redis := w_redis w'\<rparr> \<and>
    (case ou_status up of
       ES_PUBLISHED \<Rightarrow> validate_event_data (ce_data e) = Inr (ce_data e) \<and>
         ou_retry_count up = retries e \<and>
         entry_added S (mq_stream_name q) (enqueue_payload now (ce_data e)) (Some (mq_max_len q))
           (w_redis w) (w_redis w')
     | ES_FAILED \<Rightarrow> (\<exists>exc. validate_event_data (ce_data e) = Inl exc \<and>
           entry_added S (mq_dead_letter_stream q)
             (dead_letter_payload q now (ce_data e) (ce_id e) (exn_str exc)) (Some (mq_max_len q))
             (w_redis w) (w_redis w')) \<or>
         (ou_retry_count up = retries e + 1 \<and> 5 \<le> ou_retry_count up)
     | ES_PENDING \<Rightarrow> ou_retry_count up = retries e + 1 \<and> ou_retry_count up < 5
     | ES_PROCESSING \<Rightarrow> False)"
  using assms(2)
  by (cases rule: redis_stream_server.single_event [OF assms(1)]) auto

lemma event_outcome_witness:
  "validate_event_data (JDict due_message) = Inr (JDict due_message) \<and>
   entry_added ref_streams ''pending_orders_queue'' (enqueue_payload ''1000.5'' (JDict due_message))
     (Some 100000) due_pool (w_redis (snd single_result))"
proof -
  have "process_single_outbox_event ref_streams default_queue ''1000.5'' (claimed_event sample_event)
      outbox_world = (fst single_result, snd single_result)" by (simp add: single_result_def)
  from event_outcome [OF ref.redis_stream_server_axioms this] show ?thesis
    by (auto simp: single_result_Inr claimed_event_def sample_event_def default_queue_def message_queue_def)
qed

subsection \<open>Claiming\<close>

definition reorders :: "relay_env \<Rightarrow> bool" where
  "reorders E \<longleftrightarrow> (\<forall>xs. mset (re_ties E xs) = mset xs) \<and> (\<forall>xs. mset (re_returning E xs) = mset xs)"

definition free_events :: "relay_env \<Rightarrow> db \<Rightarrow> outbox_event_row list" where
  "free_events E d = filter (\<lambda>e. claimable (re_now E) e \<and> \<not> re_locked E (oe_id e)) (outbox_events d)"

lemma claimed_ids_sub:
  assumes "reorders E"
  shows "set (claimed_ids E n d) \<subseteq> oe_id ` set (free_events E d)"
proof -
  have "set (re_ties E (free_events E d)) = set (free_events E d)"
    using assms by (metis reorders_def set_mset_mset)
  then show ?thesis
    by (auto simp: claimed_ids_def free_events_def dest: in_set_takeD)
qed

lemma claimed_ids_all:
  assumes "reorders E" and "length (free_events E d) \<le> n"
  shows "set (claimed_ids E n d) = oe_id ` set (free_events E d)"
proof -
  have m: "mset (re_ties E (free_events E d)) = mset (free_events E d)"
    using assms(1) by (simp add: reorders_def)
  then have "length (re_ties E (free_events E d)) \<le> n" using assms(2) by (metis size_mset)
  with m show ?thesis
    by (simp add: claimed_ids_def flip: free_events_def) (metis set_mset_mset)
qed

lemma mark_claimed_sel [simp]: "oe_id (mark_claimed now e) = oe_id e"
  "oe_data (mark_claimed now e) = oe_data e" "oe_retry_count (mark_claimed now e) = oe_retry_count e"
  "oe_status (mark_claimed now e) = ES_PROCESSING" "oe_locked_at (mark_claimed now e) = Some now"
  by (simp_all add: mark_claimed_def)

lemma valid_outbox_events:
  assumes "valid_db d" and "map oe_id es = map oe_id (outbox_events d)"
    and "list_all fits_outbox_event es"
  shows "valid_db (d\<lparr>outbox_events := es\<rparr>)"
  using assms
  by (simp add: valid_db_def integrity_def primary_keys_def idx_pending_price_def
      uq_sms_transaction_id_def uq_sms_amount_inventory_date_time_def unique_users_def
      unique_token_hash_def foreign_keys_def fits_columns_def cong: option.case_cong)

lemma valid_claim_update: "valid_db d \<Longrightarrow> valid_db (claim_update now ids d)"
  unfolding claim_update_def
  by (rule valid_outbox_events)
    (auto simp: claim_keys.keys_update valid_db_def fits_columns_def list_all_iff set_update_where
      fits_outbox_event_def)

lemma claimed_event_mark [simp]: "claimed_event (mark_claimed now e) = claimed_event e"
  by (simp add: claimed_event_def)

lemma claimed_rows_list:
  "map claimed_event (filter (\<lambda>e. oe_id e \<in> I) (update_where P (mark_claimed now) es)) =
   map claimed_event (filter (\<lambda>e. oe_id e \<in> I) es)"
  by (induction es) auto

lemma claimed_rows:
  "claimed_event ` set (filter (\<lambda>e. oe_id e \<in> I) (outbox_events (claim_update now ids d))) =
   claimed_event ` {e \<in> set (outbox_events d). oe_id e \<in> I}"
  using arg_cong [OF claimed_rows_list, of set I "\<lambda>e. oe_id e \<in> set ids" now "outbox_events d"]
  by (simp add: claim_update_def)

lemma claim_run:
  assumes "valid_db (w_session w)"
  shows "claim_process_events E n w =
    (let ids = claimed_ids E n (w_session w); d = claim_update (re_now E) ids (w_session w) in
     case re_claim_fault E of
       Some e \<Rightarrow> (Inl e, w\<lparr>w_session := d\<rparr>)
     | None \<Rightarrow> (Inr (map claimed_event (re_returning E (filter (\<lambda>e. oe_id e \<in> set ids) (outbox_events d)))),
         w\<lparr>w_committed := d, w_session := d\<rparr>))"
  using valid_claim_update [OF assms]
  by (simp add: claim_process_events_def bind_io_def get_io_def flush_change_def commit_def
      return_io_def Let_def split: option.split)

lemma claim_result:
  assumes run: "claim_process_events E n w = (Inr events, w')" and "reorders E" and "idle w"
    and valid: "valid_db (w_committed w)"
  shows "re_claim_fault E = None \<and> w_redis w' = w_redis w \<and> idle w' \<and>
    w_committed w' = claim_update (re_now E) (claimed_ids E n (w_committed w)) (w_committed w) \<and>
    set events = claimed_event ` {e \<in> set (outbox_events (w_committed w)).
       oe_id e \<in> set (claimed_ids E n (w_committed w))} \<and> distinct (map ce_id events) \<and>
    ce_id ` set events = set (claimed_ids E n (w_committed w))"
proof -
  let ?d = "w_committed w" and ?ids = "claimed_ids E n (w_committed w)"
  let ?d' = "claim_update (re_now E) ?ids ?d"
  let ?rows = "filter (\<lambda>e. oe_id e \<in> set ?ids) (outbox_events ?d')"
  have same: "w_session w = ?d" using assms(3) by (simp add: idle_def)
  note step = run [unfolded claim_run [OF valid [folded same], of E n] Let_def same]
  have fault: "re_claim_fault E = None" using step by (cases "re_claim_fault E") auto
  with step have w': "w_redis w' = w_redis w" "w_committed w' = ?d'" "idle w'"
    and events: "events = map claimed_event (re_returning E ?rows)"
    by (auto simp: idle_def)
  have m: "mset (re_returning E ?rows) = mset ?rows" using assms(2) by (simp add: reorders_def)
  then have "set events = claimed_event ` set ?rows" by (simp add: events mset_eq_setD [OF m])
  also have "\<dots> = claimed_event ` {e \<in> set (outbox_events ?d). oe_id e \<in> set ?ids}"
    by (rule claimed_rows)
  finally have set_events: "set events = \<dots>" .
  have "ce_id ` set events = oe_id ` {e \<in> set (outbox_events ?d). oe_id e \<in> set ?ids}"
    unfolding set_events by (simp add: image_image claimed_event_def)
  also have "\<dots> = set ?ids"
    using claimed_ids_sub [OF assms(2), of n ?d] by (auto simp: free_events_def)
  finally have ids: "ce_id ` set events = set ?ids" .
  have "distinct (map oe_id ?rows)"
    using valid by (auto simp: claim_update_def claim_keys.distinct_update distinct_map_filter
        valid_db_def integrity_def primary_keys_def)
  moreover have "mset (map oe_id (re_returning E ?rows)) = mset (map oe_id ?rows)"
    by (simp only: mset_map m)
  note mset_eq_imp_distinct_iff [OF this]
  ultimately have "distinct (map oe_id (re_returning E ?rows))" by simp
  then have "distinct (map ce_id events)" by (simp add: events comp_def claimed_event_def)
  then show ?thesis using fault w' set_events ids by (intro conjI) assumption+
qed

lemma distinct_key_split:
  "distinct (map k (xs @ ys)) \<Longrightarrow> e \<in> set (xs @ ys) \<Longrightarrow> k e \<in> k ` set xs \<longleftrightarrow> e \<in> set xs"
  by auto

lemma claimed_row_locked:
  "e \<in> set (outbox_events (claim_update now ids d)) \<Longrightarrow> oe_id e \<in> set ids \<Longrightarrow>
   oe_status e = ES_PROCESSING \<and> oe_locked_at e = Some now"
  by (auto simp: claim_update_def set_update_where)

text \<open>
  C26. The relay takes the oldest events first and never two relays take the same event: a claim
  takes at most its limit, only events that are PENDING or whose lock is stale, no event while an
  older free one is left, and once it is committed, a second claim within the lock timeout takes
  none of the same events.
\<close>

theorem claims_are_exclusive:
  assumes run: "claim_process_events E n w = (Inr events, w')" and "reorders E" and "idle w"
    and valid: "valid_db (w_committed w)" and "reorders E2"
    and soon: "re_now E2 \<le> re_now E + LOCK_TIMEOUT_MINUTES * 60"
  shows "length events \<le> n \<and> ce_id ` set events \<subseteq> oe_id ` set (free_events E (w_committed w)) \<and>
    (\<forall>e \<in> set (free_events E (w_committed w)). \<forall>f \<in> set (free_events E (w_committed w)).
       oe_id e \<in> ce_id ` set events \<longrightarrow> oe_id f \<notin> ce_id ` set events \<longrightarrow>
       oe_created_at e \<le> oe_created_at f) \<and>
    set (claimed_ids E2 m (w_committed w')) \<inter> ce_id ` set events = {}"
proof -
  let ?d = "w_committed w" and ?free = "free_events E (w_committed w)"
  let ?sorted = "sort_key oe_created_at (re_ties E ?free)"
  note claim = claim_result [OF run assms(2,3) valid]
  have ids: "claimed_ids E n ?d = map oe_id (take n ?sorted)"
    by (simp add: claimed_ids_def free_events_def)
  have free: "mset ?sorted = mset ?free" using assms(2) by (simp add: reorders_def)
  then have set_free: "set ?sorted = set ?free" by (metis set_mset_mset)
  have "distinct (map oe_id ?free)"
    using valid by (simp add: free_events_def distinct_map_filter valid_db_def integrity_def primary_keys_def)
  then have dist: "distinct (map oe_id ?sorted)"
    using free by (metis mset_map mset_eq_imp_distinct_iff)
  have "ce_id ` set events = set (claimed_ids E n ?d)" using claim by blast
  then have taken: "ce_id ` set events = oe_id ` set (take n ?sorted)" by (simp add: ids)
  have "length events = card (ce_id ` set events)"
    using claim by (metis distinct_card length_map set_map)
  also have "\<dots> \<le> n"
    unfolding taken by (metis card_length le_trans length_map length_take min.cobounded2 set_map)
  finally have "length events \<le> n" .
  moreover have "ce_id ` set events \<subseteq> oe_id ` set ?free"
    unfolding taken using set_free by (auto dest: in_set_takeD)
  moreover have "oe_created_at e \<le> oe_created_at f"
    if "e \<in> set ?free" "f \<in> set ?free" "oe_id e \<in> ce_id ` set events" "oe_id f \<notin> ce_id ` set events" for e f
  proof -
    have split: "oe_id x \<in> oe_id ` set (take n ?sorted) \<longleftrightarrow> x \<in> set (take n ?sorted)"
      if "x \<in> set ?free" for x
      using distinct_key_split [of oe_id "take n ?sorted" "drop n ?sorted" x] dist set_free that by simp
    have "set ?free = set (take n ?sorted) \<union> set (drop n ?sorted)"
      using set_free by (metis append_take_drop_id set_append)
    then have "e \<in> set (take n ?sorted)" "f \<in> set (drop n ?sorted)"
      using that split unfolding taken by auto
    moreover have "sorted (map oe_created_at (take n ?sorted @ drop n ?sorted))" by simp
    ultimately show ?thesis unfolding map_append sorted_append by fastforce
  qed
  moreover have "oe_id e \<notin> ce_id ` set events" if "e \<in> set (free_events E2 (w_committed w'))" for e
  proof
    assume "oe_id e \<in> ce_id ` set events"
    with that claim have "oe_status e = ES_PROCESSING \<and> oe_locked_at e = Some (re_now E)"
      by (intro claimed_row_locked) (auto simp: free_events_def)
    with that soon show False by (auto simp: free_events_def claimable_def Let_def)
  qed
  then have "oe_id ` set (free_events E2 (w_committed w')) \<inter> ce_id ` set events = {}" by auto
  then have "set (claimed_ids E2 m (w_committed w')) \<inter> ce_id ` set events = {}"
    using claimed_ids_sub [OF assms(5), of m "w_committed w'"] by blast
  ultimately show ?thesis by blast
qed

theorem claims_are_exclusive_witness:
  "set (claimed_ids calm_env 5 (w_committed (snd claim_result_2))) \<inter> {11} = {} \<and>
   claim_process_events calm_env 1 outbox_world = (Inr [claimed_event sample_event], snd claim_result_2)"
proof -
  have run: "claim_process_events calm_env 1 outbox_world
      = (Inr [claimed_event sample_event], snd claim_result_2)"
    using claim_result_2_Inr by (simp add: prod_eq_iff claim_result_2_def)
  have calm: "reorders calm_env" by (simp add: reorders_def)
  from claims_are_exclusive [OF run calm _ _ calm, of 5] run show ?thesis
    by (simp add: LOCK_TIMEOUT_MINUTES_def claimed_event_def sample_event_def)
qed

subsection \<open>Writing the outcomes back\<close>

definition outcome_of :: "outbox_update list \<Rightarrow> outbox_event_row \<Rightarrow> outbox_event_row" where
  "outcome_of ups e = (case find (\<lambda>up. ou_id up = oe_id e) ups of
      None \<Rightarrow> e
    | Some up \<Rightarrow> if ou_status up = ES_PUBLISHED then mark_published e else mark_error up e)"

lemma outcome_id [simp]: "oe_id (outcome_of ups e) = oe_id e"
  by (simp add: outcome_of_def mark_published_def mark_error_def split: option.split)

lemma find_key_iff: "find (\<lambda>x. k x = i) xs = None \<longleftrightarrow> i \<notin> k ` set xs"
  by (auto simp: find_None_iff image_iff)

lemma fold_error_update:
  assumes "distinct (map ou_id ups)"
  shows "fold (\<lambda>up. update_where (\<lambda>e. oe_id e = ou_id up) (mark_error up)) ups rows =
    map (\<lambda>e. case find (\<lambda>up. ou_id up = oe_id e) ups of None \<Rightarrow> e | Some up \<Rightarrow> mark_error up e) rows"
  using assms
proof (induction ups arbitrary: rows)
  case Nil
  then show ?case by simp
next
  case (Cons up ups)
  have "find (\<lambda>x. ou_id x = ou_id up) ups = None" using Cons.prems by (simp add: find_key_iff)
  with Cons show ?case
    by (auto simp: update_where_def mark_error_def split: option.split)
qed

lemma find_filter_P:
  "distinct (map k xs) \<Longrightarrow> find (\<lambda>x. k x = i) (filter P xs) =
   (case find (\<lambda>x. k x = i) xs of None \<Rightarrow> None | Some x \<Rightarrow> if P x then Some x else None)"
proof (induction xs)
  case (Cons x xs)
  have "k x = i \<Longrightarrow> find (\<lambda>x. k x = i) (filter P xs) = None"
    using Cons.prems by (auto simp: find_key_iff)
  with Cons show ?case by auto
qed simp

text \<open>The two statements together are one outcome for each event.\<close>

lemma outcomes_written:
  assumes "distinct (map ou_id ups)"
  defines "published \<equiv> filter (\<lambda>up. ou_status up = ES_PUBLISHED) ups"
    and "failed \<equiv> filter (\<lambda>up. ou_status up \<noteq> ES_PUBLISHED) ups"
  shows "outbox_events (error_update failed (publish_update (map ou_id published) d)) =
    map (outcome_of ups) (outbox_events d)"
proof -
  have "distinct (map ou_id failed)" using assms(1) by (simp add: failed_def distinct_map_filter)
  then have split: "outbox_events (error_update failed (publish_update (map ou_id published) d)) =
      map (\<lambda>e. let e' = if oe_id e \<in> ou_id ` set published then mark_published e else e in
        case find (\<lambda>up. ou_id up = oe_id e') failed of None \<Rightarrow> e' | Some up \<Rightarrow> mark_error up e')
        (outbox_events d)"
    by (simp add: error_update_def publish_update_def fold_error_update update_where_def Let_def)
  show ?thesis
    unfolding split
  proof (rule map_cong [OF refl])
    fix e :: outbox_event_row
    let ?i = "oe_id e"
    have pub: "?i \<in> ou_id ` set published \<longleftrightarrow> (case find (\<lambda>up. ou_id up = ?i) ups of
        None \<Rightarrow> False | Some up \<Rightarrow> ou_status up = ES_PUBLISHED)"
      using find_filter_P [OF assms(1), of ?i "\<lambda>up. ou_status up = ES_PUBLISHED"]
        find_key_iff [of ou_id ?i published]
      by (auto simp: published_def split: option.splits if_splits)
    have fail: "find (\<lambda>up. ou_id up = ?i) failed = (case find (\<lambda>up. ou_id up = ?i) ups of
        None \<Rightarrow> None | Some up \<Rightarrow> if ou_status up \<noteq> ES_PUBLISHED then Some up else None)"
      using find_filter_P [OF assms(1)] by (simp add: failed_def)
    have same: "oe_id (mark_published e) = ?i" by (simp add: mark_published_def)
    show "(let e' = if ?i \<in> ou_id ` set published then mark_published e else e in
        case find (\<lambda>up. ou_id up = oe_id e') failed of None \<Rightarrow> e' | Some up \<Rightarrow> mark_error up e') =
        outcome_of ups e"
      unfolding pub by (cases "find (\<lambda>up. ou_id up = ?i) ups")
        (simp_all add: Let_def fail same outcome_of_def)
  qed
qed

lemma publish_none [simp]: "publish_update [] d = d"
  by (simp add: publish_update_def update_where_def)

lemma error_none [simp]: "error_update [] d = d"
  by (simp add: error_update_def)

lemma updates_result:
  assumes run: "process_outbox_updates fault ups w = (x, w')" and "distinct (map ou_id ups)"
    and "ups \<noteq> []"
  shows "w_redis w' = w_redis w \<and> (case x of
      Inl e \<Rightarrow> w_committed w' = w_committed w
    | Inr _ \<Rightarrow> w_committed w' = (w_session w)\<lparr>outbox_events := map (outcome_of ups) (outbox_events (w_session w))\<rparr>)"
proof -
  define pubs where "pubs = map ou_id (filter (\<lambda>up. ou_status up = ES_PUBLISHED) ups)"
  define errs where "errs = filter (\<lambda>up. ou_status up \<noteq> ES_PUBLISHED) ups"
  have step: "process_outbox_updates fault ups w =
      bind_io (if pubs \<noteq> [] then flush_change (publish_update pubs) else return_io ()) (\<lambda>_.
      bind_io (if errs \<noteq> [] then flush_change (error_update errs) else return_io ()) (\<lambda>_.
      commit fault)) w"
    using assms(3) by (simp add: process_outbox_updates_def Let_def pubs_def errs_def)
  have "outbox_events (error_update errs (publish_update pubs d)) = map (outcome_of ups) (outbox_events d)" for d
    using outcomes_written [OF assms(2), of d] by (simp add: pubs_def errs_def)
  then have written: "error_update errs (publish_update pubs d) =
      d\<lparr>outbox_events := map (outcome_of ups) (outbox_events d)\<rparr>" for d
    by (simp add: error_update_def publish_update_def)
  from run step written [of "w_session w"] show ?thesis
    by (cases "pubs = []"; cases "errs = []")
      (auto simp: bind_io_def return_io_def commit_def flush_change_Inr flush_change_Inl
        split: option.splits sum.splits prod.splits)
qed

subsection \<open>One run of the relay\<close>

text \<open>
  The database between the two transactions of a run, and what the run needs of the sessions that
  commit in between: they leave the rows the run has claimed alone. A row that is claimed is
  PROCESSING under a fresh lock, so another relay obeys this unless the run outlasts
  \<open>LOCK_TIMEOUT_MINUTES\<close>.
\<close>

definition claimed_db :: "relay_env \<Rightarrow> db \<Rightarrow> db" where
  "claimed_db E d = claim_update (re_now E) (claimed_ids E 100 d) d"

definition keeps_claims :: "relay_env \<Rightarrow> db \<Rightarrow> bool" where
  "keeps_claims E d \<longleftrightarrow> (\<forall>i \<in> set (claimed_ids E 100 d).
     filter (\<lambda>e. oe_id e = i) (outbox_events (re_others E (claimed_db E d))) =
     filter (\<lambda>e. oe_id e = i) (outbox_events (claimed_db E d)))"

lemma keeps_claims_mem:
  "keeps_claims E d \<Longrightarrow> oe_id e \<in> set (claimed_ids E 100 d) \<Longrightarrow>
   e \<in> set (outbox_events (re_others E (claimed_db E d))) \<longleftrightarrow> e \<in> set (outbox_events (claimed_db E d))"
  by (auto simp: keeps_claims_def dest!: bspec arg_cong [of _ _ set])

text \<open>What a run leaves in the table, with the other sessions in between.\<close>

lemma relay_run:
  assumes server: "redis_stream_server S" and run: "process_outbox_event S E w = (res, w')"
    and "reorders E" and "idle w" and "valid_db (w_committed w)"
  defines "d \<equiv> re_others E (claimed_db E (w_committed w))"
  obtains
    (not_claimed) "w_committed w' = w_committed w"
  | (not_written) e events v where "res = Inl e" "w_committed w' = d"
      "claim_process_events E 100 w = (Inr events, v)"
  | (written) events v ups where "res = Inr (int (length events))"
      "claim_process_events E 100 w = (Inr events, v)"
      "list_all2 outcome_ok events ups"
      "w_committed w' = d\<lparr>outbox_events := map (outcome_of ups) (outbox_events d)\<rparr>"
proof -
  have same: "w_session w = w_committed w" using assms(4) by (simp add: idle_def)
  obtain x v where claim: "claim_process_events E 100 w = (x, v)" by fastforce
  let ?v = "v\<lparr>w_session := w_committed v\<rparr>"
  note step = run [unfolded process_outbox_event_def get_db_def claim bind_io_def rollback_def]
  show ?thesis
  proof (cases x)
    case (Inl e)
    with claim claim_run [of w E 100] assms(5) same have "w_committed v = w_committed w"
      by (auto simp: Let_def split: option.splits)
    with step Inl show ?thesis by (intro not_claimed) auto
  next
    case (Inr events)
    note c = claim_result [OF claim [unfolded Inr] assms(3,4,5)]
    show ?thesis
    proof (cases "events = []")
      case True
      with c have "claimed_ids E 100 (w_committed w) = []" by auto
      with c have "w_committed v = w_committed w"
        by (simp add: claim_update_def update_where_def)
      with step Inr True show ?thesis by (intro not_claimed) (auto simp: return_io_def)
    next
      case False
      obtain y v1 where ev: "process_events S default_queue (re_clock E) events ?v = (y, v1)" by fastforce
      from redis_stream_server.process_events_returns [OF server ev] obtain ups where
        y: "y = Inr ups" and ok: "list_all2 outcome_ok events ups"
        and v1: "re_others E (w_committed v1) = d" "re_others E (w_session v1) = d"
        using c by (auto simp: d_def claimed_db_def)
      have ids: "map ou_id ups = map ce_id events"
        using ok by (induction rule: list_all2_induct) (auto dest: outcome_ok_id)
      then have dist: "distinct (map ou_id ups)" "ups \<noteq> []" using c False by auto
      let ?v1 = "v1\<lparr>w_committed := d, w_session := d\<rparr>"
      have oth: "others (re_others E) v1 = (Inr (), ?v1)" by (simp add: others_def v1)
      obtain z v2 where upd: "process_outbox_updates (re_update_fault E) ups ?v1 = (z, v2)" by fastforce
      note u = updates_result [OF upd dist]
      show ?thesis
      proof (cases z)
        case (Inl e)
        with step Inr False ev y oth upd u v1 claim show ?thesis
          by (intro not_written) (auto simp: \<open>x = Inr events\<close>)
      next
        case (Inr u')
        with step \<open>x = Inr events\<close> False ev y oth upd u v1 claim ok show ?thesis
          by (intro written) (auto simp: return_io_def)
      qed
    qed
  qed
qed

text \<open>The state machine of an event.\<close>

definition row_retries :: "outbox_event_row \<Rightarrow> int" where
  "row_retries e = (case oe_retry_count e of None \<Rightarrow> 0 | Some n \<Rightarrow> n)"

definition settled_row :: "outbox_event_row \<Rightarrow> event_status \<Rightarrow> int \<Rightarrow> string \<Rightarrow> outbox_event_row" where
  "settled_row e s n m = e\<lparr>oe_status := s, oe_retry_count := Some n, oe_last_error := Some m,
     oe_locked_at := None\<rparr>"

inductive event_step :: "outbox_event_row \<Rightarrow> outbox_event_row \<Rightarrow> bool" where
  claim: "claimable now e \<Longrightarrow> event_step e (mark_claimed now e)"
| publish: "oe_status e = ES_PROCESSING \<Longrightarrow> validate_event_data (oe_data e) = Inr (oe_data e) \<Longrightarrow>
    event_step e (mark_published e)"
| reject: "oe_status e = ES_PROCESSING \<Longrightarrow> validate_event_data (oe_data e) = Inl exc \<Longrightarrow>
    event_step e (settled_row e ES_FAILED (row_retries e) (exn_str exc))"
| retry: "oe_status e = ES_PROCESSING \<Longrightarrow> row_retries e + 1 < 5 \<Longrightarrow>
    event_step e (settled_row e ES_PENDING (row_retries e + 1) m)"
| exhaust: "oe_status e = ES_PROCESSING \<Longrightarrow> 5 \<le> row_retries e + 1 \<Longrightarrow>
    event_step e (settled_row e ES_FAILED (row_retries e + 1) m)"

inductive_cases event_stepE: "event_step e e'"

definition final_event :: "outbox_event_row \<Rightarrow> bool" where
  "final_event e = (oe_status e = ES_PUBLISHED \<or> oe_status e = ES_FAILED)"

lemma event_step_frame: "event_step e e' \<Longrightarrow> \<not> final_event e \<and> oe_id e' = oe_id e \<and>
    oe_data e' = oe_data e \<and> oe_created_at e' = oe_created_at e \<and> row_retries e \<le> row_retries e'"
  by (auto elim!: event_stepE simp: final_event_def claimable_def Let_def settled_row_def
      mark_claimed_def mark_published_def row_retries_def)

lemma event_steps_frame: "event_step\<^sup>*\<^sup>* e e' \<Longrightarrow> oe_id e' = oe_id e \<and>
    oe_data e' = oe_data e \<and> oe_created_at e' = oe_created_at e \<and> row_retries e \<le> row_retries e' \<and>
    (final_event e \<longrightarrow> e' = e)"
proof (induction rule: rtranclp_induct)
  case (step y z)
  with event_step_frame [OF step(2)] show ?case by auto
qed simp

lemma outcome_step:
  assumes "outcome_ok (claimed_event e) up" and "oe_status e = ES_PROCESSING"
  shows "event_step e (if ou_status up = ES_PUBLISHED then mark_published e else mark_error up e)"
proof -
  have r: "retries (claimed_event e) = row_retries e"
    by (simp add: retries_def claimed_event_def row_retries_def)
  have d: "ce_data (claimed_event e) = oe_data e" by (simp add: claimed_event_def)
  from assms(1) show ?thesis
    unfolding outcome_ok_def
  proof (elim disjE exE conjE)
    fix exc
    assume "validate_event_data (ce_data (claimed_event e)) = Inl exc"
      and "up = \<lparr>ou_id = ce_id (claimed_event e), ou_status = ES_FAILED,
        ou_retry_count = retries (claimed_event e), ou_last_error = Some (exn_str exc)\<rparr>"
    with reject [OF assms(2), of exc] show ?thesis by (simp add: mark_error_def settled_row_def r d)
  next
    fix a b
    assume "up = retry_update (claimed_event e) a b"
    with retry [OF assms(2), of b] exhaust [OF assms(2), of a] show ?thesis
      by (simp add: mark_error_def settled_row_def r retry_update_def Let_def MAX_OUTBOX_RETRIES_def)
  qed (use publish [OF assms(2)] in \<open>simp add: d\<close>)
qed

lemma find_outcome:
  "list_all2 outcome_ok es ups \<Longrightarrow> distinct (map ce_id es) \<Longrightarrow> c \<in> set es \<Longrightarrow>
   \<exists>up. find (\<lambda>up. ou_id up = ce_id c) ups = Some up \<and> outcome_ok c up"
  by (induction rule: list_all2_induct) (auto dest: outcome_ok_id)

lemma find_no_outcome:
  "list_all2 outcome_ok es ups \<Longrightarrow> i \<notin> ce_id ` set es \<Longrightarrow> find (\<lambda>up. ou_id up = i) ups = None"
  by (induction rule: list_all2_induct) (auto dest: outcome_ok_id)

definition claimed_row :: "int \<Rightarrow> int list \<Rightarrow> outbox_event_row \<Rightarrow> outbox_event_row" where
  "claimed_row now ids e = (if oe_id e \<in> set ids then mark_claimed now e else e)"

lemma claim_update_rows: "outbox_events (claim_update now ids d) = map (claimed_row now ids) (outbox_events d)"
  by (simp add: claim_update_def update_where_def claimed_row_def [abs_def])

lemma claimed_is_claimable:
  assumes "reorders E" and "valid_db d" and "e \<in> set (outbox_events d)"
    and "oe_id e \<in> set (claimed_ids E n d)"
  shows "claimable (re_now E) e"
proof -
  from claimed_ids_sub [OF assms(1), of n d] assms(4) obtain f where
    f: "f \<in> set (free_events E d)" "oe_id f = oe_id e" by auto
  have "distinct (map oe_id (outbox_events d))"
    using assms(2) by (simp add: valid_db_def integrity_def primary_keys_def)
  with f assms(3) have "f = e" by (auto simp: free_events_def distinct_map inj_on_def)
  with f show ?thesis by (simp add: free_events_def)
qed

text \<open>One claimed row: the claim, then at most one more step.\<close>

definition claim_outcome :: "outbox_event_row \<Rightarrow> outbox_event_row \<Rightarrow> outbox_event_row \<Rightarrow> bool" where
  "claim_outcome e0 e e' \<longleftrightarrow> \<not> final_event e0 \<and> event_step e0 e \<and> (e' = e \<or> event_step e e') \<and>
     oe_id e' = oe_id e0 \<and> oe_data e' = oe_data e0 \<and> oe_created_at e' = oe_created_at e0 \<and>
     row_retries e0 \<le> row_retries e'"

lemma claim_outcomeI:
  "event_step e0 e \<Longrightarrow> e' = e \<or> event_step e e' \<Longrightarrow> claim_outcome e0 e e'"
  using event_step_frame [of e0 e] event_step_frame [of e e'] by (auto simp: claim_outcome_def)

lemma claim_outcome_id: "claim_outcome e0 e e' \<Longrightarrow> oe_id e = oe_id e0"
  using event_step_frame [of e0 e] by (simp add: claim_outcome_def)

lemma claimed_db_row:
  assumes "reorders E" and "valid_db d" and "e \<in> set (outbox_events (claimed_db E d))"
    and "oe_id e \<in> set (claimed_ids E 100 d)"
  obtains e0 where "e0 \<in> set (outbox_events d)" "claimable (re_now E) e0" "e = mark_claimed (re_now E) e0"
proof -
  from assms(3) obtain e0 where e0: "e0 \<in> set (outbox_events d)"
    "e = claimed_row (re_now E) (claimed_ids E 100 d) e0"
    by (auto simp: claimed_db_def claim_update_rows)
  with assms(4) have "oe_id e0 \<in> set (claimed_ids E 100 d)" "e = mark_claimed (re_now E) e0"
    by (auto simp: claimed_row_def split: if_splits)
  with claimed_is_claimable [OF assms(1,2) e0(1), of 100] e0(1) show thesis by (intro that)
qed

text \<open>
  C12. Every run of the relay moves the events it claims along the state machine \<open>event_step\<close>,
  whatever Redis does and wherever the run stops: claimed, then published, rejected, put back
  with one attempt more, or failed when five attempts are used up; the payload, the id and the
  creation time of an event never change, and attempts are never taken back. Every row the run
  has not claimed is exactly what the other sessions left, and a PUBLISHED or FAILED event is
  never claimed. Other sessions may commit anything during the run, new events and other
  claims included, except to the rows the run has claimed (\<open>keeps_claims\<close>);
  \<open>late_outcome_overwrites\<close> shows what the final update does when they do not keep to that.
\<close>

theorem relay_follows_event_machine:
  assumes server: "redis_stream_server S" and run: "process_outbox_event S E w = (res, w')"
    and ord: "reorders E" and idle: "idle w" and valid: "valid_db (w_committed w)"
    and rely: "keeps_claims E (w_committed w)"
  shows "(w_committed w' = w_committed w \<or>
      (let d = re_others E (claimed_db E (w_committed w)) in
       \<exists>es. w_committed w' = d\<lparr>outbox_events := es\<rparr> \<and>
         list_all2 (\<lambda>e e'. if oe_id e \<in> set (claimed_ids E 100 (w_committed w))
             then \<exists>e0 \<in> set (outbox_events (w_committed w)). claim_outcome e0 e e'
             else e' = e) (outbox_events d) es)) \<and>
    (\<forall>e \<in> set (outbox_events (w_committed w)). final_event e \<longrightarrow>
       oe_id e \<notin> set (claimed_ids E 100 (w_committed w)))"
proof (intro conjI ballI impI)
  let ?ids = "claimed_ids E 100 (w_committed w)" and ?es0 = "outbox_events (w_committed w)"
  let ?d = "re_others E (claimed_db E (w_committed w))"
  let ?R = "\<lambda>e e'. if oe_id e \<in> set ?ids then \<exists>e0 \<in> set ?es0. claim_outcome e0 e e' else e' = e"
  show "oe_id e \<notin> set ?ids" if "e \<in> set ?es0" "final_event e" for e
    using claimed_is_claimable [OF ord valid that(1), of 100] that(2)
    by (auto simp: final_event_def claimable_def Let_def)
  have claimed: "\<exists>e0 \<in> set ?es0. claim_outcome e0 e e'"
    if "e \<in> set (outbox_events ?d)" "oe_id e \<in> set ?ids" "e' = e \<or> event_step e e'" for e e'
    using that(1) unfolding keeps_claims_mem [OF rely that(2)]
    by (rule claimed_db_row [OF ord valid _ that(2)])
      (use that(3) in \<open>auto intro!: bexI claim_outcomeI event_step.claim\<close>)
  have "w_committed w' = w_committed w \<or>
      (\<exists>es. w_committed w' = ?d\<lparr>outbox_events := es\<rparr> \<and> list_all2 ?R (outbox_events ?d) es)"
  proof (cases rule: relay_run [OF server run ord idle valid])
    case (2 e events v)
    then show ?thesis
      using claimed by (intro disjI2 exI [of _ "outbox_events ?d"]) (auto simp: list_all2_same)
  next
    case (3 events v ups)
    note c = claim_result [OF 3(2) ord idle valid]
    have "?R e (outcome_of ups e)" if e: "e \<in> set (outbox_events ?d)" for e
    proof (cases "oe_id e \<in> set ?ids")
      case True
      obtain e0 where e0: "e0 \<in> set ?es0" "e = mark_claimed (re_now E) e0"
        using e unfolding keeps_claims_mem [OF rely True]
        by (rule claimed_db_row [OF ord valid _ True])
      with True c have "claimed_event e \<in> set events" "distinct (map ce_id events)" by auto
      from find_outcome [OF 3(3) this(2,1)] obtain up where
        up: "find (\<lambda>up. ou_id up = oe_id e) ups = Some up" "outcome_ok (claimed_event e) up"
        by (auto simp: claimed_event_def)
      have "oe_status e = ES_PROCESSING" by (simp add: e0(2))
      from outcome_step [OF up(2) this] have "event_step e (outcome_of ups e)"
        by (simp add: outcome_of_def up(1))
      with claimed [OF e True] True show ?thesis by simp
    next
      case False
      with c have "oe_id e \<notin> ce_id ` set events" by auto
      with find_no_outcome [OF 3(3)] False show ?thesis by (simp add: outcome_of_def)
    qed
    with 3 show ?thesis
      by (intro disjI2 exI [of _ "map (outcome_of ups) (outbox_events ?d)"])
        (simp add: list_all2_map2 list_all2_same)
  qed simp
  then show "w_committed w' = w_committed w \<or> (let d = ?d in
      \<exists>es. w_committed w' = d\<lparr>outbox_events := es\<rparr> \<and> list_all2 ?R (outbox_events d) es)"
    by (simp add: Let_def)
qed

lemma busy_claimed_db: "outbox_events (claimed_db busy_env outbox_db) =
    [mark_claimed 1000 sample_event, mark_claimed 1000 bad_event, settled_event]"
  by (simp add: claimed_db_def busy_claims claim_update_def update_where_def outbox_events_db busy_now)
    (simp add: sample_event_def bad_event_def settled_event_def)

lemma busy_reorders: "reorders busy_env"
  by (simp add: busy_env_def reorders_def)

text \<open>Here another session records an event, and another relay claims it, while the run publishes.\<close>

theorem relay_follows_event_machine_witness:
  "\<exists>e1 e2. outbox_events (w_committed (snd busy_result)) = [e1, e2, settled_event, other_event] \<and>
     claim_outcome sample_event (mark_claimed 1000 sample_event) e1 \<and>
     claim_outcome bad_event (mark_claimed 1000 bad_event) e2"
proof -
  have run: "process_outbox_event ref_streams busy_env outbox_world = (fst busy_result, snd busy_result)"
    by (simp add: busy_result_def)
  have rely: "keeps_claims busy_env (w_committed outbox_world)"
    by (simp add: keeps_claims_def busy_claims busy_others other_event_def)
  from relay_follows_event_machine [OF ref.redis_stream_server_axioms run busy_reorders _ _ rely,
      unfolded outbox_world_sel outbox_events_db busy_claims busy_others Let_def list.set]
  obtain es where es: "outbox_events (w_committed (snd busy_result)) = es" and
    "list_all2 (\<lambda>e e'. if oe_id e \<in> {11, 12}
        then \<exists>e0 \<in> {sample_event, bad_event, settled_event}. claim_outcome e0 e e' else e' = e)
      [mark_claimed 1000 sample_event, mark_claimed 1000 bad_event, settled_event, other_event] es"
    using busy_result_changed
    by (auto simp: busy_claimed_db)
  then show ?thesis
    by (auto simp: list_all2_Cons1 sample_ids dest: claim_outcome_id)
qed

end
