(* ===== verification/Outbox_Liveness.thy ===== *)
theory Outbox_Liveness
  imports Outbox_Relay
begin

text \<open>
  What repeated runs of the relay achieve: the outbox drains, a hundred events a run, when
  Redis accepts commands; an outage of Redis uses up the attempts of every event; and what the
  final update of a run does to a row that another relay has taken over meanwhile.
\<close>


lemma process_events_all:
  assumes "\<And>e w t. P w \<Longrightarrow> \<exists>up w'. process_single_outbox_event S q t e w = (Inr up, w') \<and> Q e up \<and> P w'"
  shows "P w \<Longrightarrow> \<exists>ups w'. process_events S q clock es w = (Inr ups, w') \<and> list_all2 Q es ups \<and> P w'"
proof (induction es arbitrary: w)
  case Nil
  then show ?case by (simp add: return_io_def)
next
  case (Cons e es)
  from assms [OF Cons.prems, of "clock (ce_id e)" e] obtain up w1 where
    1: "process_single_outbox_event S q (clock (ce_id e)) e w = (Inr up, w1)" "Q e up" "P w1" by blast
  from Cons.IH [OF 1(3)] obtain ups w2 where
    2: "process_events S q clock es w1 = (Inr ups, w2)" "list_all2 Q es ups" "P w2" by blast
  from 1 2 show ?case by (simp add: bind_io_def return_io_def)
qed

lemma updates_succeed:
  assumes valid: "valid_db (w_session w)" and "distinct (map ou_id ups)"
    and fits: "\<And>up. up \<in> set ups \<Longrightarrow> int4 (ou_retry_count up)"
  shows "\<exists>w'. process_outbox_updates None ups w = (Inr (), w') \<and> w_redis w' = w_redis w \<and>
    (ups \<noteq> [] \<longrightarrow> w_committed w' = (w_session w)\<lparr>outbox_events := map (outcome_of ups) (outbox_events (w_session w))\<rparr>)"
proof -
  define pubs where "pubs = map ou_id (filter (\<lambda>up. ou_status up = ES_PUBLISHED) ups)"
  define errs where "errs = filter (\<lambda>up. ou_status up \<noteq> ES_PUBLISHED) ups"
  have fits_rows: "list_all fits_outbox_event (outbox_events (w_session w))"
    using valid by (simp add: valid_db_def fits_columns_def)
  have v1: "valid_db (publish_update pubs (w_session w))"
    unfolding publish_update_def using fits_rows
    by (intro valid_outbox_events [OF valid])
      (auto simp: publish_keys.keys_update list_all_iff set_update_where fits_outbox_event_def mark_published_def)
  have written: "outbox_events (error_update errs (publish_update pubs (w_session w))) =
      map (outcome_of ups) (outbox_events (w_session w))"
    using outcomes_written [OF assms(2)] by (simp add: pubs_def errs_def)
  have "fits_outbox_event (outcome_of ups e)" if "fits_outbox_event e" for e
    using that fits by (auto simp: outcome_of_def fits_outbox_event_def mark_published_def mark_error_def
        find_Some_iff split: option.split)
  then have v2: "valid_db (error_update errs (publish_update pubs (w_session w)))"
    using valid_outbox_events [OF valid, of "map (outcome_of ups) (outbox_events (w_session w))"]
      fits_rows written by (auto simp: error_update_def publish_update_def list_all_iff)
  show ?thesis
  proof (cases "ups = []")
    case True
    then show ?thesis by (simp add: process_outbox_updates_def return_io_def)
  next
    case False
    then have step: "process_outbox_updates None ups w =
      bind_io (if pubs \<noteq> [] then flush_change (publish_update pubs) else return_io ()) (\<lambda>_.
      bind_io (if errs \<noteq> [] then flush_change (error_update errs) else return_io ()) (\<lambda>_.
      commit None)) w"
      by (simp add: process_outbox_updates_def Let_def pubs_def errs_def)
    have "\<exists>w'. process_outbox_updates None ups w = (Inr (), w')"
      unfolding step using v1 v2
      by (cases "pubs = []"; cases "errs = []")
        (simp_all add: bind_io_def return_io_def commit_def flush_change_def)
    then obtain w' where w': "process_outbox_updates None ups w = (Inr (), w')" by blast
    with updates_result [OF w' assms(2) False] show ?thesis by simp
  qed
qed

lemma list_all2_in_set2: "list_all2 R xs ys \<Longrightarrow> y \<in> set ys \<Longrightarrow> \<exists>x \<in> set xs. R x y"
  by (induction rule: list_all2_induct) auto

text \<open>
  Every single publication returns an update that satisfies \<open>Q\<close>, as long as Redis satisfies \<open>P\<close>;
  and the number of attempts in the updates of the claimed events fits the column.
\<close>

definition publishing :: "'r redis_streams \<Rightarrow> (claimed_event \<Rightarrow> outbox_update \<Rightarrow> bool) \<Rightarrow> ('r \<Rightarrow> bool) \<Rightarrow> bool" where
  "publishing S Q P \<longleftrightarrow> (\<forall>e t. \<forall>w :: 'r world. P (w_redis w) \<longrightarrow>
     (\<exists>up w'. process_single_outbox_event S default_queue t e w = (Inr up, w') \<and> Q e up \<and> P (w_redis w')))"

definition fitting :: "relay_env \<Rightarrow> (claimed_event \<Rightarrow> outbox_update \<Rightarrow> bool) \<Rightarrow> db \<Rightarrow> bool" where
  "fitting E Q d \<longleftrightarrow> (\<forall>e \<in> set (outbox_events d). oe_id e \<in> set (claimed_ids E 100 d) \<longrightarrow>
     (\<forall>up. Q (claimed_event e) up \<longrightarrow> int4 (ou_retry_count up)))"

text \<open>
  A run without database faults writes the outcome of every claimed event to whatever row has
  its id by then.
\<close>

lemma retries_claimed_event [simp]: "retries (claimed_event e) = row_retries e"
  by (simp add: retries_def claimed_event_def row_retries_def)

lemma relay_writes:
  assumes server: "redis_stream_server S" and ord: "reorders E" and idle: "idle w"
    and valid: "valid_db (w_committed w)"
    and others: "valid_db (re_others E (claimed_db E (w_committed w)))"
    and no_faults: "re_claim_fault E = None" "re_update_fault E = None"
    and fits: "fitting E Q (w_committed w)" and single: "publishing S Q P"
    and P: "P (w_redis w)"
  shows "\<exists>events v ups w'. process_outbox_event S E w = (Inr (int (length events)), w') \<and>
    claim_process_events E 100 w = (Inr events, v) \<and>
    list_all2 (\<lambda>e up. Q e up \<and> outcome_ok e up) events ups \<and> idle w' \<and> P (w_redis w') \<and>
    w_committed w' = (if events = [] then w_committed w
      else let d = re_others E (claimed_db E (w_committed w)) in
        d\<lparr>outbox_events := map (outcome_of ups) (outbox_events d)\<rparr>)"
proof -
  let ?c = "claimed_db E (w_committed w)"
  let ?d = "re_others E ?c"
  have same: "w_session w = w_committed w" using idle by (simp add: idle_def)
  obtain events v where claim: "claim_process_events E 100 w = (Inr events, v)"
    using claim_run [of w E 100] valid same no_faults by (simp add: Let_def)
  note c = claim_result [OF claim ord idle valid, folded claimed_db_def]
  have v: "v\<lparr>w_session := w_committed v\<rparr> = v" using c by (simp add: idle_def)
  have all: "\<exists>up w'. process_single_outbox_event S default_queue t e x = (Inr up, w') \<and>
      (Q e up \<and> outcome_ok e up) \<and> P (w_redis w') \<and> w_committed w' = ?c \<and> w_session w' = ?c"
    if "P (w_redis x) \<and> w_committed x = ?c \<and> w_session x = ?c" for x t e
    using single that redis_stream_server.single_event_ok [OF server] by (fastforce simp: publishing_def)
  have "P (w_redis v) \<and> w_committed v = ?c \<and> w_session v = ?c" using c P by (auto simp: idle_def)
  from process_events_all [of "\<lambda>x. P (w_redis x) \<and> w_committed x = ?c \<and> w_session x = ?c",
      OF all this, of "re_clock E" events]
  obtain ups v1 where ev: "process_events S default_queue (re_clock E) events v = (Inr ups, v1)"
    and ok: "list_all2 (\<lambda>e up. Q e up \<and> outcome_ok e up) events ups"
    and v1: "P (w_redis v1)" "w_committed v1 = ?c" "w_session v1 = ?c" by blast
  have ids: "map ou_id ups = map ce_id events"
    using ok by (induction rule: list_all2_induct) (auto dest: outcome_ok_id)
  have int4: "int4 (ou_retry_count up)" if up: "up \<in> set ups" for up
  proof -
    from list_all2_in_set2 [OF ok up] obtain e where e: "e \<in> set events" "Q e up" by blast
    with c obtain r where "r \<in> set (outbox_events (w_committed w))" "e = claimed_event r"
      "oe_id r \<in> set (claimed_ids E 100 (w_committed w))" by auto
    with fits e(2) show ?thesis by (simp add: fitting_def)
  qed
  let ?v1 = "v1\<lparr>w_committed := ?d, w_session := ?d\<rparr>"
  obtain v2 where upd: "process_outbox_updates None ups ?v1 = (Inr (), v2)" "w_redis v2 = w_redis v1"
    "ups \<noteq> [] \<longrightarrow> w_committed v2 = ?d\<lparr>outbox_events := map (outcome_of ups) (outbox_events ?d)\<rparr>"
    using updates_succeed [of ?v1 ups] others int4 c ids by auto
  show ?thesis
  proof (cases "events = []")
    case True
    with c have "claimed_ids E 100 (w_committed w) = []" by auto
    with c have d: "w_committed v = w_committed w"
      by (simp add: claimed_db_def claim_update_def update_where_def)
    from True have "process_outbox_event S E w = (Inr 0, v)"
      using claim v by (simp add: process_outbox_event_def bind_io_def get_db_def rollback_def return_io_def)
    then show ?thesis
      using True claim c P d by (intro exI [of _ events] exI [of _ v] exI [of _ "[]"] exI [of _ v]) simp
  next
    case False
    then have "ups \<noteq> []" using ids by auto
    let ?w' = "v2\<lparr>w_session := w_committed v2\<rparr>"
    have "process_outbox_event S E w = (Inr (int (length events)), ?w')"
      using False claim v ev upd(1) no_faults v1
      by (simp add: process_outbox_event_def bind_io_def get_db_def rollback_def return_io_def others_def)
    then show ?thesis
      using claim ok upd(2,3) \<open>ups \<noteq> []\<close> v1 False
      by (intro exI [of _ events] exI [of _ v] exI [of _ ups] exI [of _ ?w'])
        (simp add: Let_def idle_def)
  qed
qed

text \<open>The outcome of a claimed event, as the final update looks it up.\<close>

lemma find_outcome_Q:
  "list_all2 (\<lambda>e up. Q e up \<and> outcome_ok e up) es ups \<Longrightarrow> distinct (map ce_id es) \<Longrightarrow> c \<in> set es \<Longrightarrow>
   \<exists>up. find (\<lambda>up. ou_id up = ce_id c) ups = Some up \<and> Q c up"
  by (induction rule: list_all2_induct) (auto dest: outcome_ok_id)

definition settle_row :: "outbox_update \<Rightarrow> outbox_event_row \<Rightarrow> outbox_event_row" where
  "settle_row up e = (if ou_status up = ES_PUBLISHED then mark_published e else mark_error up e)"

lemma claimed_outcome:
  assumes claim: "claim_process_events E 100 w = (Inr events, v)" and "reorders E" and "idle w"
    and "valid_db (w_committed w)" and ok: "list_all2 (\<lambda>e up. Q e up \<and> outcome_ok e up) events ups"
    and e: "e \<in> set (outbox_events (w_committed w))" "oe_id e \<in> set (claimed_ids E 100 (w_committed w))"
  obtains up where "Q (claimed_event e) up" "\<And>f. oe_id f = oe_id e \<Longrightarrow> outcome_of ups f = settle_row up f"
proof -
  note c = claim_result [OF claim assms(2-4)]
  then have "claimed_event e \<in> set events" using e by auto
  from find_outcome_Q [OF ok _ this] c obtain up where
    up: "find (\<lambda>up. ou_id up = oe_id e) ups = Some up" "Q (claimed_event e) up"
    by (auto simp: claimed_event_def)
  show thesis by (rule that [OF up(2)]) (simp add: outcome_of_def up(1) settle_row_def)
qed

lemma unclaimed_outcome:
  assumes claim: "claim_process_events E 100 w = (Inr events, v)" and "reorders E" and "idle w"
    and "valid_db (w_committed w)" and ok: "list_all2 (\<lambda>e up. Q e up \<and> outcome_ok e up) events ups"
    and e: "oe_id e \<notin> set (claimed_ids E 100 (w_committed w))"
  shows "outcome_of ups e = e"
proof -
  have "list_all2 outcome_ok events ups" using ok by (auto elim: list_all2_mono)
  moreover have "oe_id e \<notin> ce_id ` set events"
    using claim_result [OF claim assms(2-4)] e by auto
  ultimately show ?thesis using find_no_outcome by (auto simp: outcome_of_def)
qed

subsection \<open>Runs that nothing but Redis disturbs\<close>

text \<open>No other session commits during the run or holds a lock on an event, and no statement fails.\<close>

definition calm :: "relay_env \<Rightarrow> bool" where
  "calm E \<longleftrightarrow> reorders E \<and> re_others E = id \<and> re_claim_fault E = None \<and> re_update_fault E = None \<and>
     (\<forall>i. \<not> re_locked E i)"

definition round_row :: "relay_env \<Rightarrow> (claimed_event \<Rightarrow> outbox_update \<Rightarrow> bool) \<Rightarrow> db
    \<Rightarrow> outbox_event_row \<Rightarrow> outbox_event_row \<Rightarrow> bool" where
  "round_row E Q d e e' \<longleftrightarrow> (if oe_id e \<in> set (claimed_ids E 100 d)
     then \<exists>up. Q (claimed_event e) up \<and> e' = settle_row up (mark_claimed (re_now E) e) else e' = e)"

lemma settle_row_sel [simp]: "oe_id (settle_row up e) = oe_id e" "oe_data (settle_row up e) = oe_data e"
  "oe_locked_at (settle_row up e) = None" "oe_status (settle_row up e) = ou_status up"
  by (simp_all add: settle_row_def mark_published_def mark_error_def)

lemma settle_row_retries: "ou_status up \<noteq> ES_PUBLISHED \<Longrightarrow> row_retries (settle_row up e) = ou_retry_count up"
  by (simp add: settle_row_def mark_error_def row_retries_def)

lemma valid_rounds:
  assumes "valid_db d" and "list_all2 (\<lambda>e e'. oe_id e' = oe_id e \<and> fits_outbox_event e') (outbox_events d) es"
  shows "valid_db (d\<lparr>outbox_events := es\<rparr>)"
proof (rule valid_outbox_events [OF assms(1)])
  show "map oe_id es = map oe_id (outbox_events d)"
    using assms(2) by (induction rule: list_all2_induct) auto
  show "list_all fits_outbox_event es"
    using assms(2) by (induction rule: list_all2_induct) auto
qed

lemma calm_round:
  assumes server: "redis_stream_server S" and calm: "calm E" and idle: "idle w"
    and valid: "valid_db (w_committed w)"
    and fits: "fitting E Q (w_committed w)" and single: "publishing S Q P"
    and P: "P (w_redis w)"
  obtains n w' es where "process_outbox_event S E w = (Inr n, w')" "idle w'" "P (w_redis w')"
    "valid_db (w_committed w')" "w_committed w' = (w_committed w)\<lparr>outbox_events := es\<rparr>"
    "list_all2 (round_row E Q (w_committed w)) (outbox_events (w_committed w)) es"
proof -
  let ?d = "w_committed w" and ?now = "re_now E" and ?ids = "claimed_ids E 100 (w_committed w)"
  have env: "reorders E" "re_others E = id" "re_claim_fault E = None" "re_update_fault E = None"
    using calm by (auto simp: calm_def)
  have "valid_db (re_others E (claimed_db E ?d))"
    using valid_claim_update [OF valid] by (simp add: env claimed_db_def)
  from relay_writes [OF server env(1) idle valid this env(3,4) fits single P]
  obtain events v ups w' where run: "process_outbox_event S E w = (Inr (int (length events)), w')"
    and claim: "claim_process_events E 100 w = (Inr events, v)"
    and ok: "list_all2 (\<lambda>e up. Q e up \<and> outcome_ok e up) events ups" and idle': "idle w'" "P (w_redis w')"
    and w': "w_committed w' = (if events = [] then ?d
      else let d = re_others E (claimed_db E ?d) in d\<lparr>outbox_events := map (outcome_of ups) (outbox_events d)\<rparr>)"
    by blast
  let ?es = "map (\<lambda>e. outcome_of ups (claimed_row ?now ?ids e)) (outbox_events ?d)"
  note c = claim_result [OF claim env(1) idle valid]
  have rows: "round_row E Q ?d e (outcome_of ups (claimed_row ?now ?ids e))"
    if e: "e \<in> set (outbox_events ?d)" for e
  proof (cases "oe_id e \<in> set ?ids")
    case True
    obtain up where "Q (claimed_event e) up"
      "\<And>f. oe_id f = oe_id e \<Longrightarrow> outcome_of ups f = settle_row up f"
      using claimed_outcome [OF claim env(1) idle valid ok e True] by blast
    then show ?thesis using True by (auto simp: round_row_def claimed_row_def)
  next
    case False
    then show ?thesis
      using unclaimed_outcome [OF claim env(1) idle valid ok False] by (simp add: round_row_def claimed_row_def)
  qed
  have es: "w_committed w' = ?d\<lparr>outbox_events := ?es\<rparr>"
  proof (cases "events = []")
    case True
    with c have "?ids = []" by auto
    moreover have "ups = []" using ok True by simp
    ultimately show ?thesis by (simp add: w' True claimed_row_def outcome_of_def)
  next
    case False
    then show ?thesis
      by (simp add: w' env claimed_db_def claim_update_def update_where_def claimed_row_def comp_def)
  qed
  have "fits_outbox_event e'" if "e \<in> set (outbox_events ?d)" "round_row E Q ?d e e'" for e e'
    using that fits valid
    by (auto simp: fitting_def round_row_def settle_row_def fits_outbox_event_def mark_claimed_def mark_published_def
        mark_error_def valid_db_def fits_columns_def list_all_iff split: if_splits)
  with rows have "valid_db (?d\<lparr>outbox_events := ?es\<rparr>)"
    by (intro valid_rounds [OF valid]) (simp add: list_all2_map2 list_all2_same claimed_row_def)
  with es have "valid_db (w_committed w')" by simp
  from that [OF run idle' this es] rows show thesis by (simp add: list_all2_map2 list_all2_same)
qed

text \<open>How many events one round takes.\<close>

lemma claimed_number:
  assumes "reorders E" and "valid_db d"
  shows "length (filter (\<lambda>e. oe_id e \<in> set (claimed_ids E n d)) (outbox_events d)) =
    min n (length (free_events E d))"
proof -
  let ?free = "free_events E d" and ?sorted = "sort_key oe_created_at (re_ties E (free_events E d))"
  have keys: "distinct (map oe_id (outbox_events d))"
    using assms(2) by (simp add: valid_db_def integrity_def primary_keys_def)
  have m: "mset ?sorted = mset ?free" using assms(1) by (simp add: reorders_def)
  have ids: "claimed_ids E n d = map oe_id (take n ?sorted)" by (simp add: claimed_ids_def free_events_def)
  have "distinct (map oe_id ?free)" using keys by (simp add: free_events_def distinct_map_filter)
  then have "distinct (map oe_id ?sorted)" using m by (metis mset_map mset_eq_imp_distinct_iff)
  then have dist: "distinct (claimed_ids E n d)" unfolding ids by (metis distinct_take take_map)
  have "length (claimed_ids E n d) = min n (length ?free)"
    unfolding ids using mset_eq_length [OF m] by (simp add: min.commute)
  with distinct_card [OF dist] have "card (set (claimed_ids E n d)) = min n (length ?free)" by simp
  moreover have "set (map oe_id (filter (\<lambda>e. oe_id e \<in> set (claimed_ids E n d)) (outbox_events d))) =
      set (claimed_ids E n d)"
    using claimed_ids_sub [OF assms(1), of n d] by (auto simp: free_events_def)
  moreover have "distinct (map oe_id (filter (\<lambda>e. oe_id e \<in> set (claimed_ids E n d)) (outbox_events d)))"
    using keys by (simp add: distinct_map_filter)
  ultimately show ?thesis by (metis distinct_card length_map)
qed

text \<open>A round that takes at least as many events as there are takes all of them.\<close>

lemma claimed_all:
  assumes "calm E" and "length (free_events E d) \<le> 100" and "e \<in> set (outbox_events d)"
    and "claimable (re_now E) e"
  shows "oe_id e \<in> set (claimed_ids E 100 d)"
  using assms claimed_ids_all [of E d 100] by (auto simp: free_events_def calm_def)

text \<open>A bound on what is left: every row that is taken goes down by one at least.\<close>

lemma sum_list_progress:
  assumes "list_all2 (\<lambda>e e'. if P e then \<phi> e' < \<phi> e else e' = e) xs ys"
  shows "sum_list (map \<phi> ys) + length (filter P xs) \<le> sum_list (map (\<phi> :: 'a \<Rightarrow> nat) xs)"
  using assms by (induction rule: list_all2_induct) (auto split: if_splits)

text \<open>Several runs of the relay, with their answers.\<close>

fun relay_rounds :: "'r redis_streams \<Rightarrow> relay_env list \<Rightarrow> 'r world \<Rightarrow> (exn + int) list \<times> 'r world" where
  "relay_rounds S [] w = ([], w)"
| "relay_rounds S (E # Es) w =
     (let (x, w1) = process_outbox_event S E w; (xs, w2) = relay_rounds S Es w1 in (x # xs, w2))"

lemma relay_rounds_length: "length (fst (relay_rounds S Es w)) = length Es"
  by (induction Es arbitrary: w) (simp_all add: Let_def split_beta)

lemma claimable_later: "claimable now e \<Longrightarrow> now \<le> now' \<Longrightarrow> claimable now' e"
  by (auto simp: claimable_def Let_def split: option.splits)

lemma final_not_claimable: "final_event e \<Longrightarrow> \<not> claimable now e"
  by (auto simp: final_event_def claimable_def Let_def)

subsection \<open>The outbox drains\<close>

text \<open>What a run with a Redis that accepts commands makes of an event that is due.\<close>

definition drained :: "outbox_event_row \<Rightarrow> outbox_event_row \<Rightarrow> bool" where
  "drained e e' \<longleftrightarrow> oe_id e' = oe_id e \<and> oe_data e' = oe_data e \<and> oe_locked_at e' = None \<and>
     oe_status e' = (case validate_event_data (oe_data e) of Inr _ \<Rightarrow> ES_PUBLISHED | Inl _ \<Rightarrow> ES_FAILED)"

definition reported :: "claimed_event \<Rightarrow> outbox_update \<Rightarrow> bool" where
  "reported e up \<longleftrightarrow> ou_retry_count up = retries e \<and>
     ou_status up = (case validate_event_data (ce_data e) of Inr _ \<Rightarrow> ES_PUBLISHED | Inl _ \<Rightarrow> ES_FAILED)"

context reliable_stream_server
begin

lemma publishing_up: "publishing S reported up"
  unfolding publishing_def
proof (intro allI impI)
  fix e t and x :: "'r world"
  assume "up (w_redis x)"
  then have add: "\<exists>i x'. on_redis (xadd S s fs n) x = (Inr i, x') \<and> up (w_redis x')" for s fs n
    using xadd_up [of "w_redis x" s fs n] by (auto simp: on_redis_def)
  show "\<exists>u x'. process_single_outbox_event S default_queue t e x = (Inr u, x') \<and> reported e u \<and> up (w_redis x')"
  proof (cases "validate_event_data (ce_data e)")
    case (Inl exc)
    obtain i x' where "on_redis (xadd S (mq_dead_letter_stream default_queue)
        (dead_letter_payload default_queue t (ce_data e) (ce_id e) (exn_str exc))
        (Some (mq_max_len default_queue))) x = (Inr i, x')" "up (w_redis x')" using add by blast
    then show ?thesis
      by (simp add: process_single_outbox_event_def Inl enqueue_dead_letter_def try_io_def bind_io_def
          return_io_def reported_def)
  next
    case (Inr data)
    obtain i x' where "on_redis (xadd S (mq_stream_name default_queue) (enqueue_payload t data)
        (Some (mq_max_len default_queue))) x = (Inr i, x')" "up (w_redis x')" using add by blast
    then show ?thesis
      by (simp add: process_single_outbox_event_def Inr enqueue_def try_io_def bind_io_def
          return_io_def reported_def)
  qed
qed

end

lemma reported_drained:
  "round_row E reported d e e' \<Longrightarrow>
   if oe_id e \<in> set (claimed_ids E 100 d) then drained e e' \<and> final_event e' else e' = e"
  by (auto simp: round_row_def reported_def drained_def claimed_event_def final_event_def
      split: sum.splits)

lemma row_retries_fits: "valid_db d \<Longrightarrow> e \<in> set (outbox_events d) \<Longrightarrow> int4 (row_retries e)"
  by (auto simp: row_retries_def valid_db_def fits_columns_def list_all_iff fits_outbox_event_def
      int4_def split: option.splits)

lemma fitting_reported: "valid_db d \<Longrightarrow> fitting E reported d"
  by (auto simp: fitting_def reported_def row_retries_fits)

text \<open>The rows after some runs: those that were due at \<open>now\<close> are settled, the others as they were or settled.\<close>

definition drains :: "int \<Rightarrow> outbox_event_row \<Rightarrow> outbox_event_row \<Rightarrow> bool" where
  "drains now e e' \<longleftrightarrow> (if claimable now e then drained e e' else e' = e \<or> drained e e') \<and>
     (final_event e \<longrightarrow> e' = e)"

lemma round_drains:
  assumes "round_row E reported d e e1" and "drains now e1 e2"
    and "oe_id e \<in> set (claimed_ids E 100 d) \<Longrightarrow> claimable (re_now E) e"
  shows "drains now e e2"
  using reported_drained [OF assms(1)] assms(2,3) final_not_claimable [of e]
  by (auto simp: drains_def split: if_splits)

lemma list_all2_compose:
  "list_all2 P xs ys \<Longrightarrow> list_all2 Q ys zs \<Longrightarrow> (\<And>x y z. x \<in> set xs \<Longrightarrow> P x y \<Longrightarrow> Q y z \<Longrightarrow> R x z) \<Longrightarrow>
   list_all2 R xs zs"
  by (induction arbitrary: zs rule: list_all2_induct) (auto simp: list_all2_Cons1)

lemma length_filter_sum: "length (filter P xs) = sum_list (map (\<lambda>e. if P e then 1 else 0) xs)"
  by (induction xs) auto

lemma calm_free: "calm E \<Longrightarrow> free_events E d = filter (claimable (re_now E)) (outbox_events d)"
  by (simp add: free_events_def calm_def)

lemma calm_claimed:
  "calm E \<Longrightarrow> valid_db d \<Longrightarrow> e \<in> set (outbox_events d) \<Longrightarrow> oe_id e \<in> set (claimed_ids E 100 d) \<Longrightarrow>
   claimable (re_now E) e"
  by (rule claimed_is_claimable) (auto simp: calm_def)

text \<open>A run takes what is due, up to a hundred events, and nothing it takes is due again.\<close>

lemma free_after_round:
  assumes calm: "calm E" "calm L" and valid: "valid_db d" and now: "re_now E \<le> re_now L"
    and rows: "list_all2 (round_row E reported d) (outbox_events d) es"
  shows "length (free_events L (d\<lparr>outbox_events := es\<rparr>)) + min 100 (length (free_events E d)) \<le> length (free_events L d)"
proof -
  let ?\<phi> = "\<lambda>e. if claimable (re_now L) e then 1 else 0 :: nat"
  have step: "if oe_id e \<in> set (claimed_ids E 100 d) then ?\<phi> e' < ?\<phi> e else e' = e"
    if "e \<in> set (outbox_events d)" "round_row E reported d e e'" for e e'
    using reported_drained [OF that(2)] calm_claimed [OF calm(1) valid that(1)] final_not_claimable [of e']
      claimable_later [OF _ now] by (auto split: if_splits)
  have "list_all2 (\<lambda>e e'. if oe_id e \<in> set (claimed_ids E 100 d) then ?\<phi> e' < ?\<phi> e else e' = e)
      (outbox_events d) es" by (rule list.rel_mono_strong [OF rows]) (rule step)
  from sum_list_progress [OF this] show ?thesis
    using claimed_number [of E d 100] calm valid
    by (simp add: calm_free [OF calm(2)] length_filter_sum [symmetric]) (simp add: calm_def)
qed

lemma drain_rounds:
  assumes server: "reliable_stream_server S up"
  shows "up (w_redis w) \<Longrightarrow> idle w \<Longrightarrow> valid_db (w_committed w) \<Longrightarrow> (\<And>E. E \<in> set Es \<Longrightarrow> calm E) \<Longrightarrow>
    sorted (map re_now Es) \<Longrightarrow> (\<And>E. E \<in> set Es \<Longrightarrow> now \<le> re_now E) \<Longrightarrow>
    (\<forall>e \<in> set (outbox_events (w_committed w)). \<not> claimable now e) \<or>
      (Es \<noteq> [] \<and> length (free_events (last Es) (w_committed w)) \<le> 100 * length Es) \<Longrightarrow>
    \<exists>ns w' es. relay_rounds S Es w = (map Inr ns, w') \<and> up (w_redis w') \<and>
      w_committed w' = (w_committed w)\<lparr>outbox_events := es\<rparr> \<and>
      list_all2 (drains now) (outbox_events (w_committed w)) es"
proof (induction Es arbitrary: w)
  case Nil
  then show ?case
    by (intro exI [of _ "[]"] exI [of _ w] exI [of _ "outbox_events (w_committed w)"])
      (auto simp: drains_def list_all2_same)
next
  case (Cons E Es)
  let ?d = "w_committed w"
  let ?rows = "outbox_events ?d" and ?taken = "\<lambda>e. oe_id e \<in> set (claimed_ids E 100 ?d)"
  note plain = reliable_stream_server.axioms(1) [OF server]
  have calm: "calm E" using Cons.prems by simp
  note claimed = calm_claimed [OF calm Cons.prems(3)]
  obtain n w1 es where run: "process_outbox_event S E w = (Inr n, w1)" "idle w1" "up (w_redis w1)"
    "valid_db (w_committed w1)" and w1: "w_committed w1 = ?d\<lparr>outbox_events := es\<rparr>"
    and es: "list_all2 (round_row E reported ?d) ?rows es"
    by (rule calm_round [OF plain calm Cons.prems(2,3) fitting_reported [OF Cons.prems(3)]
        reliable_stream_server.publishing_up [OF server] Cons.prems(1)])
  have row: "(?taken e \<and> drained e e1 \<and> final_event e1) \<or> (\<not> ?taken e \<and> e1 = e)"
    if "round_row E reported ?d e e1" for e e1
    using reported_drained [OF that] by (auto split: if_splits)
  have none: "\<not> claimable now e1" if "e1 \<in> set es"
    and settled: "\<And>e. e \<in> set ?rows \<Longrightarrow> claimable now e \<Longrightarrow> ?taken e" for e1
    using list_all2_in_set2 [OF es that(1)] settled row final_not_claimable by metis
  have left_over: "(\<forall>e \<in> set (outbox_events (w_committed w1)). \<not> claimable now e) \<or>
      (Es \<noteq> [] \<and> length (free_events (last Es) (w_committed w1)) \<le> 100 * length Es)"
  proof (cases "(\<forall>e \<in> set ?rows. \<not> claimable now e) \<or> length (free_events E ?d) \<le> 100")
    case True
    then have "?taken e" if "e \<in> set ?rows" "claimable now e" for e
      using claimed_all [OF calm _ that(1)] claimable_later [OF that(2), of "re_now E"] Cons.prems(6) that
      by auto
    with none show ?thesis by (simp add: w1)
  next
    case False
    with Cons.prems(7) have few: "length (free_events (last (E # Es)) ?d) \<le> 100 * length (E # Es)" by auto
    have "Es \<noteq> []" using few False by auto
    then have last: "last Es \<in> set Es" "last (E # Es) = last Es" by simp_all
    have "calm (last Es)" "re_now E \<le> re_now (last Es)" using Cons.prems(4,5) last by auto
    from free_after_round [OF calm this(1) Cons.prems(3) this(2) es] False few last \<open>Es \<noteq> []\<close>
    show ?thesis by (simp add: w1)
  qed
  from Cons.IH [OF run(3,2,4) _ _ _ left_over] Cons.prems(4-6) obtain ns w' es' where
    rest: "relay_rounds S Es w1 = (map Inr ns, w')" "up (w_redis w')"
      "w_committed w' = (w_committed w1)\<lparr>outbox_events := es'\<rparr>" "list_all2 (drains now) es es'"
    by (auto simp: w1)
  have "list_all2 (drains now) ?rows es'"
    by (rule list_all2_compose [OF es rest(4)]) (blast intro: round_drains claimed)
  then show ?case
    using run(1) rest w1 by (intro exI [of _ "n # ns"] exI [of _ w'] exI [of _ es']) simp
qed

text \<open>
  C13. The relay drains the outbox, a hundred events a run. Let Redis accept commands, let the
  clock of the runs never go back, and let no other session commit or lock an event and no
  statement fail during them. If no more events become due by the last run than a hundred for
  each run, then no run raises, and every event that is due at the first one ends PUBLISHED when
  its payload is valid and FAILED when it is not, its lock released; an event that becomes due
  later is as it was or settled in the same way, and the settled events are as they were.
\<close>

theorem relay_drains_outbox:
  assumes "reliable_stream_server S up" and "up (w_redis w)" and "idle w" and "valid_db (w_committed w)"
    and "Es \<noteq> []" and "\<And>E. E \<in> set Es \<Longrightarrow> calm E" and "sorted (map re_now Es)"
    and "length (free_events (last Es) (w_committed w)) \<le> 100 * length Es"
  shows "\<exists>ns w' es. relay_rounds S Es w = (map Inr ns, w') \<and> up (w_redis w') \<and>
    w_committed w' = (w_committed w)\<lparr>outbox_events := es\<rparr> \<and>
    list_all2 (drains (re_now (hd Es))) (outbox_events (w_committed w)) es"
proof -
  have "re_now (hd Es) \<le> re_now E" if "E \<in> set Es" for E
    using assms(7) that by (cases Es) auto
  with assms show ?thesis by (intro drain_rounds) auto
qed

theorem relay_drains_outbox_witness:
  "\<exists>n1 n2 w' e1 e2. relay_rounds ref_streams [calm_env, calm_env] outbox_world = ([Inr n1, Inr n2], w') \<and>
    outbox_events (w_committed w') = [e1, e2, settled_event] \<and>
    oe_status e1 = ES_PUBLISHED \<and> oe_status e2 = ES_FAILED"
proof -
  have rows: "free_events calm_env outbox_db = [sample_event, bad_event]"
    by (simp add: free_events_def outbox_events_db claimable_def Let_def sample_event_def bad_event_def
        settled_event_def)
  have up: "ref_up (w_redis outbox_world)" by (simp add: ref_up_def due_pool_def)
  have calm: "calm calm_env" by (simp add: calm_def reorders_def)
  have data: "validate_event_data (oe_data sample_event) = Inr (oe_data sample_event)"
    "validate_event_data (oe_data bad_event) = Inl (Exn InvalidOutboxPayload ''Missing amount'')"
    by code_simp code_simp
  have due: "claimable 1000 sample_event" "claimable 1000 bad_event" "final_event settled_event"
    by (simp_all add: sample_event_def bad_event_def settled_event_def claimable_def final_event_def)
  from relay_drains_outbox [OF ref.reliable_stream_server_axioms up, of "[calm_env, calm_env]"] calm
  obtain ns w' es where "relay_rounds ref_streams [calm_env, calm_env] outbox_world = (map Inr ns, w')"
    "outbox_events (w_committed w') = es"
    "list_all2 (drains 1000) [sample_event, bad_event, settled_event] es"
    by (auto simp del: relay_rounds.simps simp: rows outbox_events_db)
  moreover from this(1) obtain n1 n2 where "ns = [n1, n2]"
    using relay_rounds_length [of ref_streams "[calm_env, calm_env]" outbox_world]
    by (auto simp del: relay_rounds.simps simp: length_Suc_conv)
  ultimately show ?thesis
    by (fastforce simp: list_all2_Cons1 drains_def drained_def data due)
qed

subsection \<open>An outage of Redis\<close>

definition stream_outage :: "'r redis_streams \<Rightarrow> bool" where
  "stream_outage S \<longleftrightarrow> (\<forall>s fs n r. \<exists>e r'. xadd S s fs n r = (Inl e, r'))"

definition put_back :: "claimed_event \<Rightarrow> outbox_update \<Rightarrow> bool" where
  "put_back e up \<longleftrightarrow> (\<exists>a b. up = retry_update e a b)"

lemma outage_single:
  assumes "redis_stream_server S" and "stream_outage S"
  shows "\<exists>up w'. process_single_outbox_event S q t e w = (Inr up, w') \<and> put_back e up"
proof -
  have raised: "\<exists>err w'. on_redis (xadd S s fs n) w = (Inl err, w') \<and> catches RedisError err" for s fs n
  proof -
    from assms(2) obtain err r' where r: "xadd S s fs n (w_redis w) = (Inl err, r')"
      unfolding stream_outage_def by blast
    with redis_stream_server.xadd_Inl [OF assms(1) r] show ?thesis by (auto simp: on_redis_def)
  qed
  show ?thesis
  proof (cases "validate_event_data (ce_data e)")
    case (Inl exc)
    from raised [of "mq_dead_letter_stream q" "dead_letter_payload q t (ce_data e) (ce_id e) (exn_str exc)"
        "Some (mq_max_len q)"] show ?thesis
      by (auto simp: process_single_outbox_event_def Inl enqueue_dead_letter_def try_io_def bind_io_def
          return_io_def put_back_def) blast
  next
    case (Inr data)
    from raised [of "mq_stream_name q" "enqueue_payload t data" "Some (mq_max_len q)"] show ?thesis
      by (auto simp: process_single_outbox_event_def Inr enqueue_def try_io_def bind_io_def return_io_def
          put_back_def) blast
  qed
qed

lemma publishing_outage:
  "redis_stream_server S \<Longrightarrow> stream_outage S \<Longrightarrow> publishing S put_back (\<lambda>_. True)"
  unfolding publishing_def using outage_single by blast

text \<open>
  The events that are not settled when the outage starts: each is due, and has attempts left.
  \<open>attempts_left\<close> counts them.
\<close>

definition owed :: "int \<Rightarrow> db \<Rightarrow> bool" where
  "owed now d \<longleftrightarrow> (\<forall>e \<in> set (outbox_events d). \<not> final_event e \<longrightarrow>
     claimable now e \<and> 0 \<le> row_retries e \<and> row_retries e < 5)"

definition attempts_left :: "outbox_event_row \<Rightarrow> nat" where
  "attempts_left e = (if final_event e then 0 else nat (5 - row_retries e))"

definition unsettled :: "db \<Rightarrow> outbox_event_row list" where
  "unsettled d = filter (\<lambda>e. \<not> final_event e) (outbox_events d)"

lemma fitting_outage: "calm E \<Longrightarrow> valid_db d \<Longrightarrow> owed now d \<Longrightarrow> fitting E put_back d"
  using calm_claimed final_not_claimable
  by (fastforce simp: fitting_def put_back_def owed_def int4_def)

definition attempted :: "outbox_event_row \<Rightarrow> outbox_event_row \<Rightarrow> bool" where
  "attempted e e' \<longleftrightarrow> oe_id e' = oe_id e \<and> oe_data e' = oe_data e \<and> oe_locked_at e' = None \<and>
     row_retries e' = row_retries e + 1 \<and>
     oe_status e' = (if 5 \<le> row_retries e + 1 then ES_FAILED else ES_PENDING)"

lemma put_back_attempted:
  "round_row E put_back d e e' \<Longrightarrow>
   if oe_id e \<in> set (claimed_ids E 100 d) then attempted e e' else e' = e"
  by (auto simp: round_row_def put_back_def attempted_def settle_row_retries claimed_event_def)
    (simp_all add: retries_def row_retries_def)

text \<open>What the outage makes of an event in the end.\<close>

definition given_up :: "outbox_event_row \<Rightarrow> outbox_event_row \<Rightarrow> bool" where
  "given_up e e' \<longleftrightarrow> (if final_event e then e' = e
     else oe_id e' = oe_id e \<and> oe_data e' = oe_data e \<and> row_retries e' = 5 \<and> oe_locked_at e' = None \<and>
       oe_status e' = ES_FAILED)"

lemma attempted_given_up:
  "attempted e e1 \<Longrightarrow> given_up e1 e2 \<Longrightarrow> \<not> final_event e \<Longrightarrow> row_retries e < 5 \<Longrightarrow> given_up e e2"
  by (auto simp: attempted_def given_up_def final_event_def split: if_splits)

lemma attempted_left:
  "attempted e e' \<Longrightarrow> \<not> final_event e \<Longrightarrow> row_retries e < 5 \<Longrightarrow> Suc (attempts_left e') = attempts_left e"
  by (auto simp: attempted_def attempts_left_def final_event_def split: if_splits)

lemma length_filter_weaker:
  "list_all2 R xs ys \<Longrightarrow> (\<And>x y. R x y \<Longrightarrow> P y \<Longrightarrow> P x) \<Longrightarrow> length (filter P ys) \<le> length (filter P xs)"
  by (induction rule: list_all2_induct) auto

lemma length_filter_le_sum:
  "(\<And>e. e \<in> set xs \<Longrightarrow> P e \<Longrightarrow> 1 \<le> \<phi> e) \<Longrightarrow> length (filter P xs) \<le> sum_list (map (\<phi> :: 'a \<Rightarrow> nat) xs)"
  by (induction xs) force+

definition attempt_row :: "relay_env \<Rightarrow> db \<Rightarrow> outbox_event_row \<Rightarrow> outbox_event_row \<Rightarrow> bool" where
  "attempt_row E d e e' \<longleftrightarrow> (if oe_id e \<in> set (claimed_ids E 100 d)
     then \<not> final_event e \<and> 0 \<le> row_retries e \<and> row_retries e < 5 \<and> attempted e e' else e' = e)"

text \<open>One run takes an attempt from every unsettled event, or from a hundred of them.\<close>

lemma outage_round:
  assumes server: "redis_stream_server S" and down: "stream_outage S" and calm: "calm E" and idle: "idle w"
    and valid: "valid_db (w_committed w)" and owed: "owed now (w_committed w)"
  obtains n w' es where "process_outbox_event S E w = (Inr n, w')" "idle w'" "valid_db (w_committed w')"
    "w_committed w' = (w_committed w)\<lparr>outbox_events := es\<rparr>"
    "list_all2 (attempt_row E (w_committed w)) (outbox_events (w_committed w)) es"
proof -
  let ?d = "w_committed w"
  obtain n w' es where run: "process_outbox_event S E w = (Inr n, w')" "idle w'" "valid_db (w_committed w')"
    "w_committed w' = ?d\<lparr>outbox_events := es\<rparr>"
    and es: "list_all2 (round_row E put_back ?d) (outbox_events ?d) es"
    by (rule calm_round [OF server calm idle valid fitting_outage [OF calm valid owed]
        publishing_outage [OF server down] TrueI])
  have row: "attempt_row E ?d e e'" if "e \<in> set (outbox_events ?d)" "round_row E put_back ?d e e'" for e e'
    using put_back_attempted [OF that(2)] calm_claimed [OF calm valid that(1)] owed that(1)
      final_not_claimable [of e] by (auto simp: attempt_row_def owed_def)
  show thesis
    by (rule that [OF run]) (rule list.rel_mono_strong [OF es], rule row)
qed

lemma attempt_row_left:
  "attempt_row E d e e' \<Longrightarrow>
   if oe_id e \<in> set (claimed_ids E 100 d) then attempts_left e' < attempts_left e else e' = e"
  using attempted_left [of e e'] by (auto simp: attempt_row_def split: if_splits)

lemma attempt_row_final: "attempt_row E d e e' \<Longrightarrow> \<not> final_event e' \<Longrightarrow> \<not> final_event e"
  by (auto simp: attempt_row_def split: if_splits)

lemma attempt_row_owed:
  "list_all2 (attempt_row E d) (outbox_events d) es \<Longrightarrow> owed now d \<Longrightarrow> owed now (d\<lparr>outbox_events := es\<rparr>)"
  by (fastforce simp: owed_def attempt_row_def attempted_def claimable_def Let_def final_event_def
      dest: list_all2_in_set2 split: if_splits)

lemma free_unsettled:
  "calm E \<Longrightarrow> owed now d \<Longrightarrow> now \<le> re_now E \<Longrightarrow> free_events E d = unsettled d"
  using final_not_claimable claimable_later
  by (auto simp: calm_free unsettled_def owed_def intro!: filter_cong)

text \<open>
  The attempts that are left fit into \<open>k\<close> runs: when a run takes all events, each loses an
  attempt in each; otherwise a run takes a hundred attempts.
\<close>

definition budget :: "nat \<Rightarrow> db \<Rightarrow> bool" where
  "budget k d \<longleftrightarrow>
     (length (unsettled d) \<le> 100 \<and> (\<forall>e \<in> set (outbox_events d). attempts_left e \<le> k)) \<or>
     (5 \<le> k \<and> sum_list (map attempts_left (outbox_events d)) \<le> 100 * (k - 4))"

lemma attempts_left_owed:
  "owed now d \<Longrightarrow> e \<in> set (outbox_events d) \<Longrightarrow>
   attempts_left e \<le> 5 \<and> (attempts_left e = 0 \<longleftrightarrow> final_event e)"
  by (auto simp: attempts_left_def owed_def)

lemma sum_attempts_left:
  assumes "owed now d"
  shows "length (unsettled d) \<le> sum_list (map attempts_left (outbox_events d))"
    and "sum_list (map attempts_left (outbox_events d)) \<le> 5 * length (unsettled d)"
proof -
  have "length (filter (\<lambda>e. \<not> final_event e) es) \<le> sum_list (map attempts_left es) \<and>
      sum_list (map attempts_left es) \<le> 5 * length (filter (\<lambda>e. \<not> final_event e) es)"
    if "\<And>e. e \<in> set es \<Longrightarrow> attempts_left e \<le> 5 \<and> (attempts_left e = 0 \<longleftrightarrow> final_event e)" for es
    using that by (induction es) force+
  from this [OF attempts_left_owed [OF assms]]
  show "length (unsettled d) \<le> sum_list (map attempts_left (outbox_events d))"
    and "sum_list (map attempts_left (outbox_events d)) \<le> 5 * length (unsettled d)"
    by (auto simp: unsettled_def)
qed

lemma budget_step:
  assumes calm: "calm E" and valid: "valid_db d" and owed: "owed now d" "now \<le> re_now E"
    and rows: "list_all2 (attempt_row E d) (outbox_events d) es" and "budget (Suc k) d"
  shows "budget k (d\<lparr>outbox_events := es\<rparr>)"
proof -
  let ?taken = "\<lambda>e. oe_id e \<in> set (claimed_ids E 100 d)"
  note free = free_unsettled [OF calm owed]
  have left: "list_all2 (\<lambda>e e'. if ?taken e then attempts_left e' < attempts_left e else e' = e)
      (outbox_events d) es" by (rule list_all2_mono [OF rows attempt_row_left])
  show ?thesis
  proof (cases "length (unsettled d) \<le> 100")
    case True
    have "attempts_left e \<le> Suc k" if "e \<in> set (outbox_events d)" for e
      using assms(6) attempts_left_owed [OF owed(1) that] that by (auto simp: budget_def)
    moreover have "\<not> final_event e \<Longrightarrow> ?taken e" if "e \<in> set (outbox_events d)" for e
      using claimed_all [OF calm _ that] owed that True free by (auto simp: owed_def intro: claimable_later)
    ultimately have "\<forall>e' \<in> set es. attempts_left e' \<le> k"
      using list_all2_in_set2 [OF left] by (fastforce simp: attempts_left_def split: if_splits)
    moreover have "length (filter (\<lambda>e. \<not> final_event e) es) \<le> length (filter (\<lambda>e. \<not> final_event e) (outbox_events d))"
      by (rule length_filter_weaker [OF rows attempt_row_final])
    ultimately show ?thesis using True by (simp add: budget_def unsettled_def)
  next
    case False
    with assms(6) have "5 \<le> Suc k" "sum_list (map attempts_left (outbox_events d)) \<le> 100 * (Suc k - 4)"
      by (auto simp: budget_def)
    moreover have "length (filter ?taken (outbox_events d)) = 100"
      using claimed_number [of E d 100] calm valid False by (simp add: free) (simp add: calm_def)
    moreover note sum_list_progress [OF left] sum_attempts_left(1) [OF owed(1)]
    ultimately show ?thesis using False by (auto simp: budget_def)
  qed
qed

lemma outage_rounds:
  assumes server: "redis_stream_server S" and down: "stream_outage S"
  shows "idle w \<Longrightarrow> valid_db (w_committed w) \<Longrightarrow> (\<And>E. E \<in> set Es \<Longrightarrow> calm E) \<Longrightarrow>
    (\<And>E. E \<in> set Es \<Longrightarrow> now \<le> re_now E) \<Longrightarrow> owed now (w_committed w) \<Longrightarrow>
    budget (length Es) (w_committed w) \<Longrightarrow>
    \<exists>ns w' es. relay_rounds S Es w = (map Inr ns, w') \<and>
      w_committed w' = (w_committed w)\<lparr>outbox_events := es\<rparr> \<and>
      list_all2 given_up (outbox_events (w_committed w)) es"
proof (induction Es arbitrary: w)
  case Nil
  then have "final_event e" if "e \<in> set (outbox_events (w_committed w))" for e
    using attempts_left_owed [OF Nil(5) that] that by (auto simp: budget_def)
  then show ?case
    by (intro exI [of _ "[]"] exI [of _ w] exI [of _ "outbox_events (w_committed w)"])
      (auto simp: given_up_def list_all2_same)
next
  case (Cons E Es)
  let ?rows = "outbox_events (w_committed w)"
  have calm: "calm E" "now \<le> re_now E" using Cons.prems by simp_all
  obtain n w1 es where run: "process_outbox_event S E w = (Inr n, w1)" "idle w1" "valid_db (w_committed w1)"
    and w1: "w_committed w1 = (w_committed w)\<lparr>outbox_events := es\<rparr>"
    and es: "list_all2 (attempt_row E (w_committed w)) ?rows es"
    by (rule outage_round [OF server down calm(1) Cons.prems(1,2,5)])
  have "budget (length Es) (w_committed w1)" "owed now (w_committed w1)"
    using budget_step [OF calm(1) Cons.prems(2,5) calm(2) es] attempt_row_owed [OF es] Cons.prems(5,6)
    by (simp_all add: w1)
  with Cons.IH [OF run(2,3)] Cons.prems(3,4) obtain ns w' es' where
    rest: "relay_rounds S Es w1 = (map Inr ns, w')"
      "w_committed w' = (w_committed w1)\<lparr>outbox_events := es'\<rparr>" "list_all2 given_up es es'"
    by (auto simp: w1)
  have "list_all2 given_up ?rows es'"
    by (rule list_all2_compose [OF es rest(3)])
      (auto simp: attempt_row_def intro: attempted_given_up split: if_splits)
  then show ?case
    using run(1) rest w1 by (intro exI [of _ "n # ns"] exI [of _ w'] exI [of _ es']) simp
qed

text \<open>How many runs an outage takes to give up \<open>n\<close> events.\<close>

definition outage_runs :: "nat \<Rightarrow> nat" where
  "outage_runs n = (if n \<le> 100 then 5 else 5 + n div 20)"

lemma budget_start:
  assumes owed: "owed now d" and runs: "outage_runs (length (unsettled d)) \<le> k"
  shows "budget k d"
proof (cases "length (unsettled d) \<le> 100")
  case True
  with runs attempts_left_owed [OF owed] show ?thesis by (fastforce simp: budget_def outage_runs_def)
next
  case False
  with runs have "5 + length (unsettled d) div 20 \<le> k" by (simp add: outage_runs_def)
  moreover have "5 * length (unsettled d) \<le> 100 * (1 + length (unsettled d) div 20)" by presburger
  moreover note sum_attempts_left(2) [OF owed]
  ultimately have "5 \<le> k \<and> sum_list (map attempts_left (outbox_events d)) \<le> 100 * (k - 4)" by linarith
  then show ?thesis by (simp add: budget_def)
qed

text \<open>
  C33. An outage of Redis ends: when every append to a stream raises, five runs of the relay, or
  \<open>5 + n div 20\<close> when \<open>n > 100\<close> events are unsettled (a run takes a hundred), turn every
  unsettled event, valid or not, into FAILED with five attempts and its lock released, and leave
  the settled events alone. No run raises and no event is lost. When the outage starts every
  unsettled event is due, so none is under another relay's fresh lock, and has attempts left
  (\<open>owed\<close>); the clock of the runs does not go back, no other session commits or locks an event
  meanwhile, and no statement fails.
\<close>

theorem outage_ends_in_failed:
  assumes "redis_stream_server S" and "stream_outage S" and "idle w" and "valid_db (w_committed w)"
    and "Es \<noteq> []" and "\<And>E. E \<in> set Es \<Longrightarrow> calm E" and "sorted (map re_now Es)"
    and "owed (re_now (hd Es)) (w_committed w)"
    and "outage_runs (length (unsettled (w_committed w))) \<le> length Es"
  shows "\<exists>ns w' es. relay_rounds S Es w = (map Inr ns, w') \<and>
    w_committed w' = (w_committed w)\<lparr>outbox_events := es\<rparr> \<and>
    list_all2 given_up (outbox_events (w_committed w)) es"
proof (rule outage_rounds [OF assms(1-4,6) _ assms(8)])
  show "re_now (hd Es) \<le> re_now E" if "E \<in> set Es" for E
    using assms(7) that by (cases Es) auto
  show "budget (length Es) (w_committed w)" by (rule budget_start [OF assms(8,9)])
qed

theorem outage_ends_in_failed_witness:
  "\<exists>ns w' e1 e2. relay_rounds down_streams (replicate 5 calm_env) outbox_world = (map Inr ns, w') \<and>
     outbox_events (w_committed w') = [e1, e2, settled_event] \<and>
     oe_status e1 = ES_FAILED \<and> oe_status e2 = ES_FAILED \<and> row_retries e1 = 5"
proof -
  have down: "stream_outage down_streams" by (simp add: stream_outage_def down_streams_def)
  have calm: "calm calm_env" by (simp add: calm_def reorders_def)
  have fin: "\<not> final_event sample_event" "\<not> final_event bad_event" "final_event settled_event"
    by (simp_all add: final_event_def sample_event_def bad_event_def settled_event_def)
  have owed: "owed 1000 outbox_db"
    by (simp add: owed_def outbox_events_db claimable_def row_retries_def sample_event_def bad_event_def
        settled_event_def final_event_def)
  from outage_ends_in_failed [OF down_stream_server down, of outbox_world "replicate 5 calm_env"] calm owed
  obtain ns w' es where "relay_rounds down_streams (replicate 5 calm_env) outbox_world = (map Inr ns, w')"
    "outbox_events (w_committed w') = es"
    "list_all2 given_up [sample_event, bad_event, settled_event] es"
    by (auto simp del: relay_rounds.simps replicate.simps
        simp: outbox_events_db unsettled_def fin outage_runs_def sorted_replicate)
  then show ?thesis by (fastforce simp: list_all2_Cons1 given_up_def fin)
qed

subsection \<open>A row that another relay has taken over\<close>

text \<open>
  C34. The final update of a run is by id only, whatever has become of the row: if the appends of
  the run raise, and meanwhile another relay, which took the event over once its lock was stale,
  has left the row as \<open>e1\<close>, PUBLISHED for instance, then the run puts that row back to PENDING with the
  number of attempts it counted itself (or to FAILED at five), and any later run can claim and
  publish the event again.
\<close>

theorem late_outcome_overwrites:
  assumes server: "redis_stream_server S" and down: "stream_outage S" and ord: "reorders E" and idle: "idle w"
    and valid: "valid_db (w_committed w)" and others: "valid_db (re_others E (claimed_db E (w_committed w)))"
    and no_faults: "re_claim_fault E = None" "re_update_fault E = None"
    and small: "\<And>e. e \<in> set (outbox_events (w_committed w)) \<Longrightarrow> row_retries e < 2 ^ 31 - 1"
    and e: "e \<in> set (outbox_events (w_committed w))" "oe_id e \<in> set (claimed_ids E 100 (w_committed w))"
    and e1: "e1 \<in> set (outbox_events (re_others E (claimed_db E (w_committed w))))" "oe_id e1 = oe_id e"
  shows "\<exists>n w' e'. process_outbox_event S E w = (Inr n, w') \<and>
    e' \<in> set (outbox_events (w_committed w')) \<and> oe_id e' = oe_id e \<and> oe_data e' = oe_data e1 \<and>
    row_retries e' = row_retries e + 1 \<and>
    (if row_retries e + 1 < 5 then oe_status e' = ES_PENDING \<and> (\<forall>now. claimable now e')
     else oe_status e' = ES_FAILED)"
proof -
  let ?d = "w_committed w"
  have fits: "fitting E put_back ?d"
    using small row_retries_fits [OF valid] by (fastforce simp: fitting_def put_back_def int4_def)
  from relay_writes [OF server ord idle valid others no_faults fits publishing_outage [OF server down] TrueI]
  obtain events v ups w' where run: "process_outbox_event S E w = (Inr (int (length events)), w')"
    and claim: "claim_process_events E 100 w = (Inr events, v)"
    and ok: "list_all2 (\<lambda>e up. put_back e up \<and> outcome_ok e up) events ups"
    and w': "w_committed w' = (if events = [] then ?d
      else let d = re_others E (claimed_db E ?d) in d\<lparr>outbox_events := map (outcome_of ups) (outbox_events d)\<rparr>)"
    by blast
  have "events \<noteq> []" using claim_result [OF claim ord idle valid] e by auto
  obtain up where up: "put_back (claimed_event e) up"
    "\<And>f. oe_id f = oe_id e \<Longrightarrow> outcome_of ups f = settle_row up f"
    using claimed_outcome [OF claim ord idle valid ok e] by blast
  have "settle_row up e1 \<in> set (outbox_events (w_committed w'))"
    using e1(1) up(2) [OF e1(2)] \<open>events \<noteq> []\<close> by (force simp: w' Let_def)
  with run up(1) e1(2) show ?thesis
    by (intro exI [of _ "int (length events)"] exI [of _ w'] exI [of _ "settle_row up e1"])
      (auto simp: put_back_def settle_row_retries claimable_def)
qed

theorem late_outcome_overwrites_witness:
  "\<exists>n w' e'. process_outbox_event down_streams late_env outbox_world = (Inr n, w') \<and>
    oe_status taken_over = ES_PUBLISHED \<and> oe_id taken_over = 11 \<and>
    taken_over \<in> set (outbox_events (re_others late_env (claimed_db late_env outbox_db))) \<and>
    e' \<in> set (outbox_events (w_committed w')) \<and> oe_id e' = 11 \<and> oe_status e' = ES_PENDING"
proof -
  have down: "stream_outage down_streams" by (simp add: stream_outage_def down_streams_def)
  have env: "reorders late_env" "re_claim_fault late_env = None" "re_update_fault late_env = None"
    by (simp_all add: late_env_def reorders_def)
  have valid: "valid_db (w_committed outbox_world)" by simp
  have others: "valid_db (re_others late_env (claimed_db late_env (w_committed outbox_world)))"
    unfolding outbox_world_sel by code_simp
  have claimed: "oe_id sample_event \<in> set (claimed_ids late_env 100 (w_committed outbox_world))"
    unfolding outbox_world_sel by code_simp
  have later: "taken_over \<in> set (outbox_events (re_others late_env (claimed_db late_env (w_committed outbox_world))))"
    unfolding outbox_world_sel by code_simp
  have small: "row_retries e < 2 ^ 31 - 1" if "e \<in> set (outbox_events (w_committed outbox_world))" for e
    using that by (auto simp: outbox_events_db row_retries_def sample_event_def bad_event_def settled_event_def)
  have sample: "sample_event \<in> set (outbox_events (w_committed outbox_world))" "row_retries sample_event = 0"
    "oe_id sample_event = 11" "oe_id taken_over = 11" "oe_status taken_over = ES_PUBLISHED"
    by (simp_all add: outbox_events_db row_retries_def taken_over_def mark_published_def sample_event_def)
  from late_outcome_overwrites [OF down_stream_server down env(1) outbox_world_sel(2) valid others env(2,3) small
      sample(1) claimed later] sample later show ?thesis by auto
qed

end
