(* ===== verification/Deposit_Progress.thy ===== *)
theory Deposit_Progress
  imports Live_Redis Payment_Progress Transaction_Safety Outbox_Liveness
begin

text \<open>
  The way of a deposit through the whole service: the webhook records the SMS with its event, the
  relay publishes the event, the worker reads the message and pays the order.
\<close>

subsection \<open>The webhook accepts a new deposit\<close>

text \<open>The environment of a transaction that nothing disturbs.\<close>

definition calm_tx :: "tx_env \<Rightarrow> bool" where
  "calm_tx E \<longleftrightarrow> tx_others E = id \<and> tx_flush_fault E = None \<and> tx_event_fault E = None \<and> tx_commit_fault E = None"

text \<open>The deposit is new to the tables, and fits their columns; the sequences draw unused ids.\<close>

definition new_deposit :: "tx_env \<Rightarrow> sms_data \<Rightarrow> db \<Rightarrow> bool" where
  "new_deposit E s d \<longleftrightarrow> 0 < tx_transaction_id E \<and> tx_transaction_id E \<notin> st_id ` set (sms_transactions d) \<and>
     tx_event_id E \<notin> oe_id ` set (outbox_events d) \<and> int4 (tx_event_id E) \<and>
     (sd_sms_amount s, sd_sms_inventory s, sd_sms_date s, sd_sms_time s) \<notin> sms_key ` set (sms_transactions d) \<and>
     fits_sms_transaction (new_sms_transaction (tx_transaction_id E) (sd_sms_amount s) (sd_sms_inventory s)
       (sd_sms_date s) (sd_sms_time s) (sd_webhook_payload s))"

lemma valid_add_sms:
  assumes "valid_db d" and "st_id t \<notin> st_id ` set (sms_transactions d)"
    and "sms_key t \<notin> sms_key ` set (sms_transactions d)" and "fits_sms_transaction t"
  shows "valid_db (add_sms t d)"
proof -
  have "foreign_keys (add_sms t d)"
    using assms(1) by (auto simp: valid_db_def integrity_def foreign_keys_def add_sms_def list_all_iff
        split: option.splits)
  with assms show ?thesis
    by (auto simp: valid_db_def integrity_def primary_keys_def idx_pending_price_def
        uq_sms_transaction_id_def uq_sms_amount_inventory_date_time_def unique_users_def
        unique_token_hash_def fits_columns_def add_sms_def)
qed

lemma valid_add_event:
  assumes "valid_db d" and "oe_id e \<notin> oe_id ` set (outbox_events d)" and "fits_outbox_event e"
  shows "valid_db (add_event e d)"
  using assms
  by (auto simp: valid_db_def integrity_def primary_keys_def idx_pending_price_def
      uq_sms_transaction_id_def uq_sms_amount_inventory_date_time_def unique_users_def
      unique_token_hash_def foreign_keys_def fits_columns_def add_event_def cong: option.case_cong)

lemma deposit_accepted:
  assumes parse: "parse_sms_transaction hex content = Inr (Some s)" "content \<noteq> []"
    and idle: "idle w" and valid: "valid_db (w_committed w)" and calm: "calm_tx E"
    and new: "new_deposit E s (w_committed w)"
  shows "\<exists>w'. receive_transaction E hex verification verification content w = (Inr (tx_transaction_id E), w') \<and>
    idle w' \<and> w_redis w' = w_redis w \<and> w_committed w' = recorded E s (w_committed w) \<and> valid_db (w_committed w')"
proof -
  let ?t = "new_sms_transaction (tx_transaction_id E) (sd_sms_amount s) (sd_sms_inventory s)
    (sd_sms_date s) (sd_sms_time s) (sd_webhook_payload s)"
  let ?e = "new_outbox_event E (payment_message (tx_transaction_id E) (sd_trace_id s) (sd_sms_amount s))"
  have v1: "valid_db (add_sms ?t (w_committed w))"
    using new by (intro valid_add_sms [OF valid])
      (auto simp: new_deposit_def sms_key_def new_sms_transaction_def)
  have "fits_outbox_event ?e"
    using new by (simp add: new_deposit_def fits_outbox_event_def new_outbox_event_def int4_def)
  then have v2: "valid_db (add_event ?e (add_sms ?t (w_committed w)))"
    using new by (intro valid_add_event [OF v1]) (auto simp: new_deposit_def new_outbox_event_def add_sms_def)
  from parse idle calm v1 v2 show ?thesis
    by (simp add: receive_transaction_def get_db_def io_combinators others_def rollback_def idle_def
        handle_transaction_service_def create_transaction_service_def create_outbox_event_service_def
        faulty_def flush_change_def commit_def Let_def calm_tx_def recorded_eq payment_message_def)
qed

subsection \<open>The relay publishes its event\<close>

text \<open>The row of the event after a run that published it.\<close>

definition published_row :: "int \<Rightarrow> int \<Rightarrow> outbox_event_row \<Rightarrow> outbox_event_row" where
  "published_row now i e = (if oe_id e = i then mark_published (mark_claimed now e) else e)"

lemma published_row_id [simp]: "oe_id (published_row now i e) = oe_id e"
  by (simp add: published_row_def mark_published_def)

lemma mset_single: "mset xs = {#x#} \<Longrightarrow> xs = [x]"
  by (cases xs) auto

lemma claim_single:
  assumes "reorders E" and "idle w" and valid: "valid_db (w_committed w)" and "re_claim_fault E = None"
    and free: "free_events E (w_committed w) = [ev]"
  shows "claim_process_events E 100 w = (Inr [claimed_event ev],
    w\<lparr>w_committed := claim_update (re_now E) [oe_id ev] (w_committed w),
      w_session := claim_update (re_now E) [oe_id ev] (w_committed w)\<rparr>)"
proof -
  have same: "w_session w = w_committed w" using assms(2) by (simp add: idle_def)
  have "mset (re_ties E [ev]) = {#ev#}" using assms(1) by (simp add: reorders_def)
  then have ids: "claimed_ids E 100 (w_committed w) = [oe_id ev]"
    by (simp add: claimed_ids_def free [unfolded free_events_def] mset_single)
  have ev: "ev \<in> set (outbox_events (w_committed w))" using free by (auto simp: free_events_def dest: filter_singleD)
  let ?rows = "filter (\<lambda>e. oe_id e \<in> {oe_id ev}) (map (claimed_row (re_now E) [oe_id ev]) (outbox_events (w_committed w)))"
  have "filter (\<lambda>e. oe_id e = oe_id ev) (outbox_events (w_committed w)) = [ev]"
    using filter_unique [of oe_id "\<lambda>_. True" "outbox_events (w_committed w)" ev] valid ev
    by (simp add: valid_db_def integrity_def primary_keys_def)
  then have "?rows = [mark_claimed (re_now E) ev]"
    by (simp add: filter_map comp_def claimed_row_def cong: filter_cong)
  moreover have "mset (re_returning E ?rows) = mset ?rows" using assms(1) by (simp add: reorders_def)
  ultimately have "re_returning E ?rows = [mark_claimed (re_now E) ev]"
    using mset_single by (metis mset_single_iff)
  then show ?thesis
    using assms(4) by (simp add: claim_run valid same ids Let_def claim_update_rows claimed_event_def)
qed

context live_redis
begin

lemma relay_publishes_one:
  assumes up: "up (w_redis w)" and E: "calm E" and idle: "idle w" and valid: "valid_db (w_committed w)"
    and free: "free_events E (w_committed w) = [ev]" and data: "validate_event_data (oe_data ev) = Inr (oe_data ev)"
  shows "\<exists>w' i k. process_outbox_event S E w = (Inr 1, w') \<and> idle w' \<and> up (w_redis w') \<and>
    smembers R (w_redis w') = smembers R (w_redis w) \<and> pel S (w_redis w') = pel S (w_redis w) \<and>
    backlog (w_redis w') ''pending_orders_queue'' g = drop k (backlog (w_redis w) ''pending_orders_queue'' g)
      @ [(i, enqueue_payload (re_clock E (oe_id ev)) (oe_data ev))] \<and> valid_db (w_committed w') \<and>
    w_committed w' = (w_committed w)\<lparr>outbox_events :=
      map (published_row (re_now E) (oe_id ev)) (outbox_events (w_committed w))\<rparr>"
proof -
  let ?fs = "enqueue_payload (re_clock E (oe_id ev)) (oe_data ev)" and ?s = "''pending_orders_queue''"
  let ?d = "claim_update (re_now E) [oe_id ev] (w_committed w)"
  let ?v = "w\<lparr>w_committed := ?d, w_session := ?d\<rparr>"
  have env: "reorders E" "re_others E = id" "re_claim_fault E = None" "re_update_fault E = None"
    using E by (auto simp: calm_def)
  have queue: "mq_stream_name default_queue = ?s"
    by (simp add: default_queue_def message_queue_def)
  obtain i r where add: "xadd S ?s ?fs (Some (mq_max_len default_queue)) (w_redis w) = (Inr i, r)" "up r"
    using xadd_up [OF up] by blast
  note added = xadd_Inr [OF add(1)] xadd_backlog [OF up add(1), of g]
  let ?up = "\<lparr>ou_id = oe_id ev, ou_status = ES_PUBLISHED, ou_retry_count = row_retries ev, ou_last_error = None\<rparr>"
  have ev: "ev \<in> set (outbox_events (w_committed w))" using free by (auto simp: free_events_def dest: filter_singleD)
  have "fits_outbox_event ev" using valid ev by (simp add: valid_db_def fits_columns_def list_all_iff)
  then have small: "int4 (row_retries ev)"
    by (auto simp: fits_outbox_event_def row_retries_def int4_def split: option.splits)
  have publish: "process_events S default_queue (re_clock E) [claimed_event ev] ?v = (Inr [?up], ?v\<lparr>w_redis := r\<rparr>)"
    using data add(1) retries_claimed_event [of ev]
    by (simp add: process_single_outbox_event_def claimed_event_def enqueue_def queue on_redis_def io_combinators
        retries_def)
  have vd: "valid_db ?d" by (rule valid_claim_update [OF valid])
  obtain v2 where upd: "process_outbox_updates None [?up] (?v\<lparr>w_redis := r\<rparr>) = (Inr (), v2)" "w_redis v2 = r"
    "w_committed v2 = ?d\<lparr>outbox_events := map (outcome_of [?up]) (outbox_events ?d)\<rparr>"
    using updates_succeed [of "?v\<lparr>w_redis := r\<rparr>" "[?up]"] vd small by auto
  have rows: "?d\<lparr>outbox_events := map (outcome_of [?up]) (outbox_events ?d)\<rparr> = (w_committed w)\<lparr>outbox_events :=
      map (published_row (re_now E) (oe_id ev)) (outbox_events (w_committed w))\<rparr>"
    by (simp add: claim_update_def update_where_def outcome_of_def published_row_def)
  have run: "process_outbox_event S E w = (Inr 1, v2\<lparr>w_session := w_committed v2\<rparr>)"
    using claim_single [OF env(1) idle valid env(3) free] publish upd(1) env(2,4)
    by (simp add: process_outbox_event_def get_db_def rollback_def others_def io_combinators)
  have "fits_outbox_event (published_row (re_now E) (oe_id ev) e)" if "fits_outbox_event e" for e
    using that by (auto simp: published_row_def mark_published_def mark_claimed_def fits_outbox_event_def)
  then have "valid_db ((w_committed w)\<lparr>outbox_events :=
      map (published_row (re_now E) (oe_id ev)) (outbox_events (w_committed w))\<rparr>)"
    using valid by (intro valid_outbox_events)
      (auto simp: list_all_iff valid_db_def fits_columns_def)
  with run upd rows add(2) added show ?thesis
    by (intro exI [of _ "v2\<lparr>w_session := w_committed v2\<rparr>"] exI [of _ i]) (auto simp: idle_def)
qed

end

subsection \<open>The worker handles its message\<close>

text \<open>A payment message as the worker reads it from an entry that \<open>enqueue\<close> wrote.\<close>

definition first_message :: "string \<Rightarrow> (pystr \<times> json) list \<Rightarrow> string \<Rightarrow> message" where
  "first_message i kvs now = \<lparr>m_id = i, m_stream = ''pending_orders_queue'', m_data = JDict kvs,
     m_attempts = 0, m_created_at = now\<rparr>"

context live_redis
begin

lemma payment_keeps_live:
  assumes run: "handle_payment R bind_int C data w = (x, w')" and "up (w_redis w)"
  shows "up (w_redis w') \<and> pel S (w_redis w') = pel S (w_redis w) \<and> backlog (w_redis w') = backlog (w_redis w)"
proof -
  let ?Q = "\<lambda>r. up r \<and> pel S r = pel S (w_redis w) \<and> backlog r = backlog (w_redis w)"
  have "?Q r'" if Q: "?Q r" and run: "smove R a b v r = (y, r')" for r r' a b v y
  proof -
    from smove_up Q obtain ok r1 where r1: "smove R a b v r = (Inr ok, r1)" "up r1" by blast
    with run have "r' = r1" by simp
    with r1 Q smove_backlog [of r a b v ok r1] smove_apart [OF r1(1)] show ?thesis by simp
  qed
  then have "keeps (redis_inv ?Q) (on_redis (smove R ''pending_orders'' ''free_amounts'' v))" for v
    by (intro redis_inv_on_redis) blast
  from keepsD [OF redis_handle_payment [OF this, of bind_int C data], of w] assms show ?thesis by (simp add: redis_inv_def)
qed

lemma worker_handles_one:
  assumes up: "up (w_redis w)"
    and entry: "backlog (w_redis w) ''pending_orders_queue'' ''orders_processors'' = [(i, enqueue_payload now (JDict kvs))]"
    and quiet: "\<And>j. pel S (w_redis w) ''pending_orders_queue'' ''orders_processors'' j = None"
    and data: "wf_json fl (JDict kvs)" "fl now = Some now" "truthy (dict_get kvs ''amount'')"
      "dict_get kvs ''type'' = JStr (lit ''payment'')"
    and pay: "\<And>r. up r \<Longrightarrow> smembers R r = smembers R (w_redis w) \<Longrightarrow>
      \<exists>w'. handle_payment R bind_int (races (first_message i kvs now)) (JDict kvs) (w\<lparr>w_redis := r\<rparr>) = (Inr True, w') \<and>
        w_session w' = d \<and> w_committed w' = d \<and> smembers R (w_redis w') = N"
  shows "\<exists>w'. start_worker S fl (payment_worker R bind_int races) fresh [B] w = (Inr (), w') \<and>
    w_session w' = d \<and> w_committed w' = d \<and> smembers R (w_redis w') = N \<and> up (w_redis w') \<and>
    at_rest S backlog payment_group (w_redis w')"
proof -
  let ?K = "payment_worker R bind_int races" and ?m = "first_message i kvs now"
  let ?s = "''pending_orders_queue''" and ?g = "''orders_processors''"
  have c: "cg_stream_name payment_group = ?s" "cg_group_name payment_group = ?g"
    by (simp_all add: payment_group_def consumer_group_def default_queue_def message_queue_def)
  have K: "wk_group_name ?K = ?g" "wk_worker_id ?K = ''worker-1''"
    by (simp_all add: payment_worker_def new_worker_def register_handler_def)
  have group: "consumer_group default_queue ?g ''worker-1'' fresh = payment_group"
    by (simp add: payment_group_def consumer_group_def)
  obtain r1 where r1: "create_group S default_queue ?g ''worker-1'' fresh w = (Inr payment_group, w\<lparr>w_redis := r1\<rparr>)"
    "up r1" "pel S r1 = pel S (w_redis w)" "smembers R r1 = smembers R (w_redis w)" "backlog r1 = backlog (w_redis w)"
    using group_exists [OF up, of default_queue ?g "''worker-1''" fresh] group by auto
  obtain r2 where r2: "claim_stale_message S fl (be_claim_now B) payment_group 6000 10 (w\<lparr>w_redis := r1\<rparr>)
      = (Inr [], w\<lparr>w_redis := r2\<rparr>)"
    "up r2" "pel S r2 = pel S (w_redis w)" "smembers R r2 = smembers R (w_redis w)" "backlog r2 = backlog (w_redis w)"
    using claim_nothing [of "w\<lparr>w_redis := r1\<rparr>" payment_group fl "be_claim_now B" 6000 10] r1 quiet c by auto
  have m: "to_message fl (be_read_now B) ?s (\<lambda>fs. int_field fs ''attempts'') (i, enqueue_payload now (JDict kvs)) = Inr ?m"
    unfolding enqueued_message [OF data(1,2)] by (simp add: first_message_def)
  obtain r3 where r3: "read_messages S fl (be_read_now B) payment_group 10 (w\<lparr>w_redis := r2\<rparr>)
      = (Inr [?m], w\<lparr>w_redis := r3\<rparr>)" "up r3" "pel S r3 = first_delivery ?s ?g {i} (pel S (w_redis w))"
    "smembers R r3 = smembers R (w_redis w)" "backlog r3 ?s ?g = []"
    using read_backlog [of "w\<lparr>w_redis := r2\<rparr>" payment_group i "enqueue_payload now (JDict kvs)" fl "be_read_now B" ?m 10]
      r2 entry c m by auto
  obtain w4 where w4: "handle_payment R bind_int (races ?m) (JDict kvs) (w\<lparr>w_redis := r3\<rparr>) = (Inr True, w4)"
    "w_session w4 = d" "w_committed w4 = d" "smembers R (w_redis w4) = N" using pay [OF r3(2,4)] by blast
  from payment_keeps_live [OF w4(1)] r3 have live4: "up (w_redis w4)"
    "pel S (w_redis w4) = first_delivery ?s ?g {i} (pel S (w_redis w))" "backlog (w_redis w4) ?s ?g = []" by auto
  obtain b r5 where r5: "acknowledge S payment_group i w4 = (Inr b, w4\<lparr>w_redis := r5\<rparr>)" "up r5"
    "pel S r5 = acked ?s ?g [i] (pel S (w_redis w4))" "smembers R r5 = N" "backlog r5 ?s ?g = []"
    using ack_pel [OF live4(1), of payment_group i] live4(3) w4(4) c by auto
  have sel: "m_data ?m = JDict kvs" "m_id ?m = i" by (simp_all add: first_message_def)
  have fields: "data_get (JDict kvs) k = Inr (dict_get kvs k)" for k by (simp add: data_get_def)
  have "get_handler ?K (JDict kvs) = Inr (Some (payment_handler R bind_int races))"
    using data(4) by (simp add: get_handler_def fields)
  then have "process_message ?K ?m (w\<lparr>w_redis := r3\<rparr>) = (Inr True, w4)"
    using w4(1) by (simp add: process_message_def payment_handler_def sel fields io_combinators)
  then have "work_messages S ?K payment_group (be_clock B) [?m] (w\<lparr>w_redis := r3\<rparr>) = (Inr (), w4\<lparr>w_redis := r5\<rparr>)"
    using data(3) r5(1) by (simp add: work_message_def sel fields io_combinators)
  with r1(1) r2(1) r3(1) have "start_worker S fl ?K fresh [B] w = (Inr (), w4\<lparr>w_redis := r5\<rparr>)"
    by (simp add: start_worker_def process_batch_def K io_combinators)
  moreover have "at_rest S backlog payment_group r5"
    using r5(3,5) quiet live4(2) by (simp add: at_rest_def c acked_iff first_delivery_def)
  ultimately show ?thesis using w4 r5 by auto
qed

end

subsection \<open>From the deposit to the paid order\<close>

lemma payment_message_get:
  "dict_get (payment_message t tr a) ''transaction_id'' = JInt t" "dict_get (payment_message t tr a) ''amount'' = JInt a"
  "dict_get (payment_message t tr a) ''type'' = JStr (lit ''payment'')"
  by (simp_all add: payment_message_def dict_get_def)

lemma payment_message_ok:
  "0 < a \<Longrightarrow> validate_event_data (JDict (payment_message t tr a)) = Inr (JDict (payment_message t tr a))"
  by (simp add: validate_event_data_def payment_message_def)

lemma payment_message_wf:
  "parse_sms_transaction hex content = Inr (Some s) \<Longrightarrow> wf_json fl (JDict (payment_message t (sd_trace_id s) a))"
  by (auto simp: payment_message_def parse_sms_transaction_def list_all_append split: option.splits sum.splits)

lemma published_after_recorded:
  assumes free: "free_events E d = []" and calm: "calm E" and new: "tx_event_id T \<notin> oe_id ` set (outbox_events d)"
  shows "free_events E (recorded T s d) = [new_outbox_event T (payment_message (tx_transaction_id T) (sd_trace_id s) (sd_sms_amount s))]"
    and "free_events E ((recorded T s d)\<lparr>outbox_events := map (published_row (re_now E) (tx_event_id T))
      (outbox_events (recorded T s d))\<rparr>) = []"
proof -
  let ?e = "new_outbox_event T (payment_message (tx_transaction_id T) (sd_trace_id s) (sd_sms_amount s))"
  have rows: "outbox_events (recorded T s d) = outbox_events d @ [?e]"
    by (simp add: recorded_eq add_event_def add_sms_def)
  have e: "oe_id ?e = tx_event_id T" "oe_status ?e = ES_PENDING" by (simp_all add: new_outbox_event_def)
  have "oe_id x \<noteq> tx_event_id T" if "x \<in> set (outbox_events d)" for x
    using new that by (metis image_eqI)
  then have "map (published_row (re_now E) (tx_event_id T)) (outbox_events d) = outbox_events d"
    by (intro map_idI) (simp add: published_row_def)
  with free calm e show "free_events E (recorded T s d) = [?e]"
    and "free_events E ((recorded T s d)\<lparr>outbox_events := map (published_row (re_now E) (tx_event_id T))
      (outbox_events (recorded T s d))\<rparr>) = []"
    by (simp_all add: free_events_def rows calm_def claimable_def Let_def published_row_def mark_published_def)
qed

text \<open>No fault and no other session while the worker pays.\<close>

definition calm_race :: "race \<Rightarrow> bool" where
  "calm_race C \<longleftrightarrow> rc_check_fault C = None \<and> rc_lock_fault C = None \<and> rc_flush_fault C = None \<and>
     rc_commit_fault C = None \<and> rc_before_lock C = id \<and> rc_after_lock C = id"

text \<open>
  C2. A deposit reaches its order: when the bank's message about a new deposit has the exact amount
  of a PENDING payment intent, the webhook answers with the id of the SMS, the next run of the
  relay publishes one event, and the next batch of a starting worker pays: in the committed
  tables the intent is PAID with this SMS and its order is PAID, no other intent or order has
  changed, and the amount was moved from \<open>pending_orders\<close> to \<open>free_amounts\<close>. It holds from any valid
  database and any state of the pool, when the queue and the outbox are at rest before, Redis is
  up, no statement fails and no other session interferes; and both are at rest again after it.
\<close>

theorem deposit_reaches_its_order:
  assumes server: "live_redis R S up backlog" and up: "up (w_redis w)"
    and rest: "at_rest S backlog payment_group (w_redis w)" "free_events E (w_committed w) = []"
    and idle: "idle w" and valid: "valid_db (w_committed w)"
    and calm: "calm_tx T" "calm E" "\<And>m. calm_race (races m)"
    and sms: "parse_sms_transaction hex content = Inr (Some s)" "content \<noteq> []"
    and new: "new_deposit T s (w_committed w)"
    and due: "p \<in> set (payment_intents (w_committed w))" "pi_status p = OS_PENDING" "pi_exact_amount p = sd_sms_amount s"
    and amount: "0 < sd_sms_amount s"
    and driver: "\<And>i. int4 i \<Longrightarrow> bind_int (JInt i) = Some i"
    and stamp: "fl (re_clock E (tx_event_id T)) = Some (re_clock E (tx_event_id T))"
  shows "\<exists>w1 w2 w3. receive_transaction T hex verification verification content w = (Inr (tx_transaction_id T), w1) \<and>
    process_outbox_event S E w1 = (Inr 1, w2) \<and>
    start_worker S fl (payment_worker R bind_int races) fresh [B] w2 = (Inr (), w3) \<and>
    idle w3 \<and> valid_db (w_committed w3) \<and>
    payment_intents (w_committed w3) = map (\<lambda>q. if pi_id q = pi_id p
      then q\<lparr>pi_status := OS_PAID, pi_sms_transaction_id := Some (tx_transaction_id T)\<rparr> else q) (payment_intents (w_committed w)) \<and>
    orders (w_committed w3) = map (\<lambda>ord. if o_id ord = pi_order_id p then ord\<lparr>o_status := OS_PAID\<rparr> else ord)
      (orders (w_committed w)) \<and>
    smembers R (w_redis w3) = moved ''pending_orders'' ''free_amounts'' (py_str (sd_sms_amount s)) (smembers R (w_redis w)) \<and>
    up (w_redis w3) \<and> at_rest S backlog payment_group (w_redis w3) \<and> free_events E (w_committed w3) = []"
proof -
  let ?t = "tx_transaction_id T" and ?i = "tx_event_id T" and ?d = "recorded T s (w_committed w)"
  let ?kvs = "payment_message ?t (sd_trace_id s) (sd_sms_amount s)"
  let ?d2 = "?d\<lparr>outbox_events := map (published_row (re_now E) ?i) (outbox_events ?d)\<rparr>"
  let ?N = "moved ''pending_orders'' ''free_amounts'' (py_str (sd_sms_amount s)) (smembers R (w_redis w))"
  have c: "cg_stream_name payment_group = ''pending_orders_queue''" "cg_group_name payment_group = ''orders_processors''"
    by (simp_all add: payment_group_def consumer_group_def default_queue_def message_queue_def)
  have "?i \<notin> oe_id ` set (outbox_events (w_committed w))" using new by (simp add: new_deposit_def)
  note events = published_after_recorded [OF rest(2) calm(2) this, of s]
  obtain w1 where w1: "receive_transaction T hex verification verification content w = (Inr ?t, w1)" "idle w1"
    "w_redis w1 = w_redis w" "w_committed w1 = ?d" "valid_db (w_committed w1)"
    using deposit_accepted [OF sms idle valid calm(1) new] by blast
  have ev: "oe_data (new_outbox_event T ?kvs) = JDict ?kvs" "oe_id (new_outbox_event T ?kvs) = ?i"
    by (simp_all add: new_outbox_event_def)
  obtain w2 i k where w2: "process_outbox_event S E w1 = (Inr 1, w2)" "idle w2" "up (w_redis w2)"
    "smembers R (w_redis w2) = smembers R (w_redis w)" "pel S (w_redis w2) = pel S (w_redis w)"
    "backlog (w_redis w2) ''pending_orders_queue'' ''orders_processors'' = [(i, enqueue_payload (re_clock E ?i) (JDict ?kvs))]"
    "valid_db (w_committed w2)" "w_committed w2 = ?d2"
    using live_redis.relay_publishes_one [OF server _ calm(2) w1(2,5), of "new_outbox_event T ?kvs" "''orders_processors''"]
      events(1) w1 up rest(1) payment_message_ok [OF amount] by (auto simp: ev at_rest_def c)
  have same: "payment_intents ?d2 = payment_intents (w_committed w)" "orders ?d2 = orders (w_committed w)"
    "?t \<in> st_id ` set (sms_transactions ?d2)"
    by (simp_all add: recorded_def)
  have "int4 ?t" "int4 (sd_sms_amount s)"
    using new by (simp_all add: new_deposit_def fits_sms_transaction_def new_sms_transaction_def)
  note bound = this [THEN driver]
  have unattached: "pi_sms_transaction_id q \<noteq> Some ?t" if "q \<in> set (payment_intents ?d2)" for q
    using that valid new unfolding same(1)
    by (auto simp: valid_db_def integrity_def foreign_keys_def list_all_iff new_deposit_def)
  have pay: "\<exists>v. handle_payment R bind_int (races m) (JDict ?kvs) (w2\<lparr>w_redis := r\<rparr>) = (Inr True, v) \<and>
      w_session v = paid_tables (Some ?t) p ?d2 \<and> w_committed v = paid_tables (Some ?t) p ?d2 \<and> smembers R (w_redis v) = ?N"
    if r: "up r" "smembers R r = smembers R (w_redis w2)" for r m
  proof -
    obtain ok r' where moved: "smove R ''pending_orders'' ''free_amounts'' (py_str (sd_sms_amount s)) r = (Inr ok, r')"
      using reliable_set_server.smove_up [OF live_redis.axioms(2) [OF server] r(1)] by blast
    then have "smembers R r' = ?N"
      using redis_set_server.smove_Inr [OF reliable_set_server.axioms(1) [OF live_redis.axioms(2) [OF server]]] r(2) w2(4)
      by metis
    with due_payment_run [of R ?kvs "w2\<lparr>w_redis := r\<rparr>" ok r' bind_int ?t "sd_sms_amount s" "races m" p]
      moved w2(2,7,8) bound new due same unattached calm(3) [of m] show ?thesis
      by (auto simp: payment_message_get idle_def calm_race_def new_deposit_def)
  qed
  obtain w3 where w3: "start_worker S fl (payment_worker R bind_int races) fresh [B] w2 = (Inr (), w3)"
    "w_session w3 = paid_tables (Some ?t) p ?d2" "w_committed w3 = paid_tables (Some ?t) p ?d2"
    "smembers R (w_redis w3) = ?N" "up (w_redis w3)" "at_rest S backlog payment_group (w_redis w3)"
    using live_redis.worker_handles_one [OF server w2(3,6), of fl bind_int races "paid_tables (Some ?t) p ?d2" ?N fresh B]
      payment_message_wf [OF sms(1)] stamp pay rest(1) w2(5) amount
    by (auto simp: payment_message_get at_rest_def c)
  have "valid_db (paid_tables (Some ?t) p ?d2)"
    using valid_settle [OF _ unattached same(3), of p] w2(7,8) by (simp add: settle_attach)
  moreover have "free_events E (paid_tables (Some ?t) p ?d2) = []"
    using events(2) by (simp add: free_events_def paid_tables_def)
  ultimately show ?thesis
    using w1(1) w2(1) w3 same(1,2)
    by (intro exI [of _ w1] exI [of _ w2] exI [of _ w3]) (simp add: idle_def paid_tables_def cong: if_cong)
qed

theorem deposit_reaches_its_order_witness:
  "\<exists>w1 w2 w3. receive_transaction sample_tx ''0123456789abcdef'' ''secret'' ''secret'' sample_content due_world = (Inr 6, w1) \<and>
    process_outbox_event ref_streams calm_env w1 = (Inr 1, w2) \<and>
    start_worker ref_streams Some (payment_worker ref_sets sample_driver (\<lambda>_. sample_race)) [] [sample_batch] w2 = (Inr (), w3) \<and>
    payment_intents (w_committed w3) = [due_intent\<lparr>pi_status := OS_PAID, pi_sms_transaction_id := Some 6\<rparr>] \<and>
    smembers ref_sets (w_redis w3) ''pending_orders'' = {}"
proof -
  have due: "payment_intents due_db = [due_intent]" "outbox_events due_db = []" "sms_transactions due_db = [sample_sms]"
    by (simp_all add: due_db_def add_order_def sample_db_def empty_db_def)
  have intent: "pi_status due_intent = OS_PENDING" "pi_exact_amount due_intent = 1500001"
    by (simp_all add: due_intent_def new_payment_intent_def)
  have live: "ref_live due_pool"
    by (simp add: ref_live_def ref_up_def due_pool_def ref_empty_def)
  have rest: "at_rest ref_streams ref_backlog payment_group due_pool"
    by (simp add: at_rest_def ref_backlog_def ref_streams_def ref_pel_def due_pool_def ref_empty_def)
  have free: "free_events calm_env due_db = []" by (simp add: free_events_def due)
  have calm: "calm_tx sample_tx" "calm calm_env" "calm_race sample_race"
    by (simp_all add: calm_tx_def sample_tx_def calm_def reorders_def calm_race_def)
  have new: "new_deposit sample_tx sample_sms_data due_db"
    unfolding new_deposit_def due by code_simp
  have sms: "sd_sms_amount sample_sms_data = 1500001" "sample_content \<noteq> []" "tx_transaction_id sample_tx = 6"
    by (simp_all add: sample_sms_data_def sample_content_def sample_tx_def)
  have pool: "smembers ref_sets due_pool ''pending_orders'' = {''1500001''}" "py_str 1500001 = ''1500001''"
    by (simp add: ref_sets_def due_pool_def, code_simp)
  from deposit_reaches_its_order [OF live.live_redis_axioms _ _ _ _ _ calm(1,2) _ sample_sms_parsed sms(2), of due_world
      "\<lambda>_. sample_race" due_intent sample_driver Some "''secret''" "[]" sample_batch]
  show ?thesis
    by (simp add: live rest free calm new due intent sms pool moved_def removed_def) fastforce
qed

end
