(* ===== verification/Order_Creation.thy ===== *)
theory Order_Creation
  imports Samples
begin

text \<open>
  What creating an order guarantees: to the database under any interleaving with other
  sessions, to the amount pool in Redis under any faults, and while Redis is down.
\<close>

subsection \<open>Inserting an order keeps the schema\<close>

lemma valid_add_order:
  assumes "valid_db d" and "at_order_id A \<notin> o_id ` set (orders d)"
    and "at_intent_id A \<notin> pi_id ` set (payment_intents d)"
    and "u \<in> u_id ` set (users d)" and "int4 (at_order_id A)" and "int4 (at_intent_id A)"
    and "int4 u" and "int4 m" and "int4 i"
    and "\<forall>p \<in> set (payment_intents d). pending p \<longrightarrow> pi_exact_amount p \<noteq> i"
  shows "valid_db (add_order (new_order A u m) (new_payment_intent A m i) d)"
proof -
  have "primary_keys (add_order (new_order A u m) (new_payment_intent A m i) d)"
    "foreign_keys (add_order (new_order A u m) (new_payment_intent A m i) d)"
    "fits_columns (add_order (new_order A u m) (new_payment_intent A m i) d)"
    using assms(1-9)
    by (fastforce simp: valid_db_def integrity_def primary_keys_def foreign_keys_def
        fits_columns_def fits_order_def fits_payment_intent_def add_order_def new_order_def
        new_payment_intent_def list_all_iff split: option.splits)+
  moreover have "idx_pending_price (add_order (new_order A u m) (new_payment_intent A m i) d)"
    using assms(1,10) by (auto simp: valid_db_def integrity_def idx_pending_price_def
        add_order_def new_payment_intent_def)
  ultimately show ?thesis
    using assms(1) by (simp add: valid_db_def integrity_def uq_sms_transaction_id_def
        uq_sms_amount_inventory_date_time_def unique_users_def unique_token_hash_def
        add_order_def new_payment_intent_def non_nulls_def map_filter_def)
qed

text \<open>
  C7. A created order is consistent, whatever other sessions commit meanwhile and whatever Redis
  replies: when \<open>create_order_service\<close> returns an order, the order is PENDING and belongs to the
  user with the requested amount, every schema constraint holds in the session's view, and the
  order has a PENDING payment intent whose exact amount no other PENDING intent has.
\<close>

theorem created_order_is_unique_pending:
  assumes "create_order_service R E u m mx w = (Inr (Some ord), w')"
  shows "o_user_id ord = u \<and> o_amount ord = m \<and> o_status ord = OS_PENDING \<and>
    ord \<in> set (orders (w_session w')) \<and> valid_db (w_session w') \<and>
    (\<exists>p. pi_order_id p = o_id ord \<and> pi_base_amount p = m \<and> pi_exact_amount p \<noteq> 0 \<and>
       pi_expired_at p = pi_created_at p + 24 * 60 * 60 \<and> pi_sms_transaction_id p = None \<and>
       filter (\<lambda>q. pending q \<and> pi_exact_amount q = pi_exact_amount p)
         (payment_intents (w_session w')) = [p])"
proof -
  from assms obtain k i where i: "i \<noteq> 0" and ord: "ord = new_order (E k) u m"
    and d: "w_session w' = add_order ord (new_payment_intent (E k) m i) (seen E 0 (Suc k) (w_session w))"
    and valid: "valid_db (w_session w')"
    by (rule create_order_service_Some)
  let ?p = "new_payment_intent (E k) m i"
  have "?p \<in> set (payment_intents (w_session w'))" and "pending ?p"
    using d by (simp_all add: add_order_def pending_def new_payment_intent_def)
  moreover have "distinct (map pi_exact_amount (filter pending (payment_intents (w_session w'))))"
    using valid by (simp add: valid_db_def integrity_def idx_pending_price_def)
  ultimately have "filter (\<lambda>q. pending q \<and> pi_exact_amount q = pi_exact_amount ?p)
      (payment_intents (w_session w')) = [?p]"
    by (rule filter_unique [rotated 1])
  with i ord d valid show ?thesis
    by (intro conjI exI [of _ ?p])
      (simp_all add: new_order_def new_payment_intent_def add_order_def)
qed

theorem created_order_is_unique_pending_witness:
  "valid_db (w_session (snd sample_order_result)) \<and>
    (\<exists>p. pi_order_id p = 1 \<and> pi_base_amount p = 1500000 \<and> pi_exact_amount p \<noteq> 0 \<and>
       filter (\<lambda>q. pending q \<and> pi_exact_amount q = pi_exact_amount p)
         (payment_intents (w_session (snd sample_order_result))) = [p])"
proof -
  have run: "create_order_service ref_sets (\<lambda>_. sample_attempt) 7 1500000 3 sample_world =
      (Inr (Some (new_order sample_attempt 7 1500000)), snd sample_order_result)"
    using sample_order_created by (simp add: prod_eq_iff sample_order_result_def)
  have "o_id (new_order sample_attempt 7 1500000) = 1"
    by (simp add: new_order_def sample_attempt_def)
  with created_order_is_unique_pending [OF run] show ?thesis by auto
qed

text \<open>One PENDING order for the amount with its intent, and nothing else, is new.\<close>

definition one_order :: "int \<Rightarrow> int \<Rightarrow> order_row \<Rightarrow> db \<Rightarrow> db \<Rightarrow> bool" where
  "one_order u m ord d d' \<longleftrightarrow> o_user_id ord = u \<and> o_amount ord = m \<and> o_status ord = OS_PENDING \<and>
     (\<exists>p. pi_order_id p = o_id ord \<and> pi_base_amount p = m \<and> pi_status p = OS_PENDING \<and>
        pi_sms_transaction_id p = None \<and>
        d' = d\<lparr>orders := orders d @ [ord], payment_intents := payment_intents d @ [p]\<rparr>)"

lemma one_order_added:
  "one_order u m (new_order A u m) d (add_order (new_order A u m) (new_payment_intent A m i) d)"
  unfolding one_order_def
  by (intro conjI exI [of _ "new_payment_intent A m i"])
    (simp_all add: add_order_def, simp_all add: new_order_def new_payment_intent_def)

lemma create_order_outcome:
  assumes "create_order R E commit_fault refresh_fault u m w = (res, w')" and "idle w"
  shows "idle w' \<and> (\<exists>k \<le> 3. case res of
      Inr ord \<Rightarrow> 0 < k \<and> one_order u m ord (seen E 0 k (w_committed w)) (w_committed w')
    | Inl e \<Rightarrow> catches HTTPException e \<and> (w_committed w' = seen E 0 k (w_committed w) \<or>
        refresh_fault \<noteq> None \<and> (\<exists>ord. one_order u m ord (seen E 0 k (w_committed w)) (w_committed w'))))"
proof -
  have idle: "idle w'"
    using assms(1) unfolding create_order_def by (rule get_db_idle)
  obtain x v where run: "create_order_service R E u m 3 w = (x, v)" by fastforce
  note step = assms(1) [unfolded create_order_def get_db_def try_io_def bind_io_def run]
  show ?thesis
  proof (cases "\<exists>ord. x = Inr (Some ord)")
    case True
    then obtain ord where x: "x = Inr (Some ord)" by blast
    from run [unfolded x] obtain k i where k: "Suc k \<le> 3" "ord = new_order (E k) u m"
      "w_session v = add_order ord (new_payment_intent (E k) m i) (seen E 0 (Suc k) (w_session w))"
      "w_committed v = seen E 0 (Suc k) (w_committed w)"
      by (rule create_order_service_Some)
    have one: "one_order u m ord (seen E 0 (Suc k) (w_committed w)) (w_session v)"
      using k(2,3) assms(2) one_order_added by (simp add: idle_def)
    show ?thesis
    proof (intro conjI exI [of _ "Suc k"])
      show "case res of
          Inr ord \<Rightarrow> 0 < Suc k \<and> one_order u m ord (seen E 0 (Suc k) (w_committed w)) (w_committed w')
        | Inl e \<Rightarrow> catches HTTPException e \<and> (w_committed w' = seen E 0 (Suc k) (w_committed w) \<or>
            refresh_fault \<noteq> None \<and> (\<exists>ord. one_order u m ord (seen E 0 (Suc k) (w_committed w)) (w_committed w')))"
        using step x k(4) one
        by (auto simp: commit_def return_io_def rollback_def raise_io_def bind_io_def faulty_def
            is_http split: option.splits if_splits)
    qed (use idle k(1) in auto)
  next
    case False
    then have "\<And>ord. x \<noteq> Inr (Some ord)" by blast
    with run obtain k where "k \<le> 3" "w_committed v = seen E 0 k (w_committed w)"
      by (rule create_order_service_other)
    with step False idle show ?thesis
      by (intro conjI exI [of _ k])
        (auto simp: return_io_def raise_io_def rollback_def bind_io_def
          is_http split: sum.splits option.splits if_splits prod.splits)
  qed
qed

text \<open>
  C9. Creating an order is atomic: after the endpoint the committed database differs from what
  the other sessions committed by exactly one PENDING order of the user with its payment intent
  when it returned this order, and by nothing when it raised, unless it was the loading of the intent
  for the response, after the commit, that raised; and what it raises is an HTTP error.
\<close>

theorem create_order_atomic:
  assumes "create_order R E commit_fault refresh_fault u m w = (res, w')" and "idle w"
  shows "idle w' \<and> (\<exists>k d. k \<le> 3 \<and> d = seen E 0 k (w_committed w) \<and> (case res of
      Inr ord \<Rightarrow> 0 < k \<and> one_order u m ord d (w_committed w')
    | Inl e \<Rightarrow> catches HTTPException e \<and>
        (w_committed w' = d \<or> refresh_fault \<noteq> None \<and> (\<exists>ord. one_order u m ord d (w_committed w')))))"
  using create_order_outcome [OF assms] by blast

theorem create_order_atomic_witness:
  "\<exists>k. one_order 7 1500000 (new_order sample_attempt 7 1500000)
     (seen (\<lambda>_. sample_attempt) 0 k sample_db) (w_committed (snd sample_endpoint_result))"
proof -
  have run: "create_order ref_sets (\<lambda>_. sample_attempt) None None 7 1500000 sample_world =
      (Inr (new_order sample_attempt 7 1500000), snd sample_endpoint_result)"
    using sample_endpoint_created by (simp add: prod_eq_iff sample_endpoint_result_def)
  have "idle sample_world" and "w_committed sample_world = sample_db"
    by (simp_all add: idle_def sample_world_def)
  with create_order_atomic [OF run this(1)] show ?thesis by auto
qed

subsection \<open>The amount pool under faults\<close>

context redis_set_server
begin

lemma disjoint_spop:
  "triple (sets_inv R pool_disjoint) (on_redis (spop R ''free_amounts''))
     (\<lambda>g. sets_inv R (\<lambda>S. pool_disjoint S \<and> (\<forall>x. g = Some x \<longrightarrow> x \<notin> S ''free_amounts'')))
     (\<lambda>_. sets_inv R pool_disjoint)"
proof (rule triple_on_redis)
  fix r g r'
  assume disj: "pool_disjoint (smembers R r)" and run: "spop R ''free_amounts'' r = (Inr g, r')"
  show "pool_disjoint (smembers R r') \<and> (\<forall>x. g = Some x \<longrightarrow> x \<notin> smembers R r' ''free_amounts'')"
  proof (cases g)
    case None
    with spop_None [OF run [unfolded None]] disj show ?thesis by simp
  next
    case (Some x)
    with spop_Some [OF run [unfolded Some]] disj show ?thesis by (simp add: pool_disjoint_moves)
  qed
next
  fix r e r'
  assume "pool_disjoint (smembers R r)" and "spop R ''free_amounts'' r = (Inl e, r')"
  then show "pool_disjoint (smembers R r')"
    by (auto dest!: spop_Inl simp: pool_disjoint_moves)
qed

lemma disjoint_reserve:
  "triple (sets_inv R (\<lambda>S. pool_disjoint S \<and> x \<notin> S ''free_amounts''))
     (on_redis (smove R ''amounts'' ''pending_orders'' x))
     (\<lambda>_. sets_inv R pool_disjoint) (\<lambda>_. sets_inv R pool_disjoint)"
  by (rule triple_on_redis) (auto dest!: smove_Inr smove_Inl simp: pool_disjoint_moves)

lemma disjoint_get_unique_amount [keeps_intro]:
  "keeps (sets_inv R pool_disjoint) (get_unique_amount R A base)"
proof -
  have fallback: "triple (sets_inv R pool_disjoint) (get_unique_amount_from_postgres A base 500)
      (\<lambda>_. sets_inv R pool_disjoint) (\<lambda>_. sets_inv R pool_disjoint)"
    unfolding get_unique_amount_from_postgres_def keeps_triple [symmetric] by (intro keeps_intro)
  show ?thesis
    unfolding get_unique_amount_def keeps_triple
    by (rule triple_try [where M = "\<lambda>_. sets_inv R pool_disjoint"],
        rule triple_bind [OF disjoint_spop])
      (auto intro!: triple_intro triple_bind [OF disjoint_reserve] triple_bind [OF fallback]
        simp: sets_inv_def split: option.split)
qed

lemma disjoint_compensate_redis [keeps_intro]:
  "keeps (sets_inv R pool_disjoint) (compensate_redis R i)"
proof -
  let ?x = "py_str i"
  have move: "triple (sets_inv R pool_disjoint) (on_redis (smove R ''pending_orders'' ''amounts'' ?x))
     (\<lambda>_. sets_inv R (\<lambda>S. pool_disjoint S \<and> ?x \<notin> S ''pending_orders''))
     (\<lambda>_. sets_inv R pool_disjoint)"
    by (rule triple_on_redis)
      (auto dest!: smove_Inr smove_Inl simp: pool_disjoint_moves)
  have add: "triple (sets_inv R (\<lambda>S. pool_disjoint S \<and> ?x \<notin> S ''pending_orders''))
     (on_redis (sadd R ''free_amounts'' [?x]))
     (\<lambda>_. sets_inv R pool_disjoint) (\<lambda>_. sets_inv R pool_disjoint)"
    by (rule triple_on_redis) (auto dest!: sadd_Inr sadd_Inl simp: pool_disjoint_moves)
  show ?thesis
    unfolding compensate_redis_def keeps_triple
    by (rule triple_try [where M = "\<lambda>_. sets_inv R pool_disjoint"],
        rule triple_bind [OF move], rule triple_bind [OF add])
      (auto intro!: triple_intro)
qed

lemma disjoint_log_pool_statistics [keeps_intro]:
  "keeps (sets_inv R pool_disjoint) (log_pool_statistics R)"
  unfolding log_pool_statistics_def
  by (intro keeps_intro sets_inv_on_redis) (auto dest: scard_same)

lemma disjoint_insert_order [keeps_intro]:
  "keeps (sets_inv R P) (insert_order A u m i)"
  unfolding insert_order_def by (intro keeps_intro)

lemma disjoint_create_order_from [keeps_intro]:
  "keeps (sets_inv R pool_disjoint) (create_order_from R E u m mx n)"
proof (induction "mx - n" arbitrary: n rule: less_induct)
  case less
  then show ?case
    by (subst create_order_from.simps) (intro keeps_intro; simp)
qed

end

subsection \<open>The amount pool without faults\<close>

text \<open>The order's exact amount went from \<open>free_amounts\<close> and \<open>amounts\<close> to \<open>pending_orders\<close>.\<close>

context reliable_set_server
begin

lemma get_unique_amount_up:
  assumes "up (w_redis w)" and fresh: "pool_fresh (smembers R (w_redis w))"
    and run: "get_unique_amount R A base w = (g, w')"
  shows "up (w_redis w') \<and> w_session w' = w_session w \<and> w_committed w' = w_committed w \<and>
    ((g = Inr None \<and> smembers R (w_redis w') = smembers R (w_redis w) \<and>
        smembers R (w_redis w) ''free_amounts'' = {}) \<or>
     (\<exists>i > 0. g = Inr (Some \<lparr>aa_value = i, aa_source = REDIS\<rparr>) \<and>
        py_str i \<in> smembers R (w_redis w) ''free_amounts'' \<and>
        smembers R (w_redis w') = reserved (py_str i) (smembers R (w_redis w))))"
proof -
  obtain x r1 where x: "spop R ''free_amounts'' (w_redis w) = (Inr x, r1)" and up1: "up r1"
    using spop_up assms(1) by blast
  show ?thesis
  proof (cases x)
    case None
    with run x up1 spop_None [OF x [unfolded None]] show ?thesis
      by (auto simp: get_unique_amount_def try_io_def bind_io_def on_redis_def return_io_def)
  next
    case (Some y)
    from spop_Some [OF x [unfolded Some]]
    have y: "y \<in> smembers R (w_redis w) ''free_amounts''"
      and s1: "smembers R r1 = removed ''free_amounts'' y (smembers R (w_redis w))" by auto
    from fresh y obtain i where i: "i > 0" "y = py_str i" by (auto simp: pool_fresh_def)
    obtain b r2 where m: "smove R ''amounts'' ''pending_orders'' y r1 = (Inr b, r2)" and up2: "up r2"
      using smove_up up1 by blast
    from smove_Inr [OF m] s1
    have "smembers R r2 = reserved y (smembers R (w_redis w))" by (simp add: reserved_def)
    with run x m Some i y up2 show ?thesis
      by (auto simp: get_unique_amount_def try_io_def bind_io_def on_redis_def return_io_def)
  qed
qed

lemma compensate_redis_up:
  assumes "up (w_redis w)"
  shows "\<exists>w'. compensate_redis R i w = (Inr (), w') \<and> up (w_redis w') \<and>
    smembers R (w_redis w') = released (py_str i) (smembers R (w_redis w))"
proof -
  obtain b r1 where m: "smove R ''pending_orders'' ''amounts'' (py_str i) (w_redis w) = (Inr b, r1)"
    and up1: "up r1" using smove_up assms by blast
  obtain n r2 where a: "sadd R ''free_amounts'' [py_str i] r1 = (Inr n, r2)" and up2: "up r2"
    using sadd_up up1 by blast
  from m a up2 smove_Inr [OF m] sadd_Inr [OF a] show ?thesis
    by (simp add: compensate_redis_def try_io_def bind_io_def on_redis_def return_io_def
        released_def)
qed

lemma log_pool_statistics_up:
  assumes "up (w_redis w)"
  shows "\<exists>w'. log_pool_statistics R w = (Inr (), w') \<and> up (w_redis w') \<and>
    smembers R (w_redis w') = smembers R (w_redis w)"
proof -
  obtain n r1 where m: "scard R ''amounts'' (w_redis w) = (Inr n, r1)"
    and up1: "up r1" using scard_up assms by blast
  obtain k r2 where a: "scard R ''free_amounts'' r1 = (Inr k, r2)" and up2: "up r2"
    using scard_up up1 by blast
  from m a up2 scard_same [OF m] scard_same [OF a] show ?thesis
    by (simp add: log_pool_statistics_def try_io_def bind_io_def on_redis_def return_io_def)
qed

text \<open>With a fresh pool and a reliable Redis the loop decides at its first attempt.\<close>

lemma create_order_pool:
  assumes up: "up (w_redis w)" and fresh: "pool_fresh (smembers R (w_redis w))"
    and run: "create_order_service R E u m mx w = (res, w')"
  shows "up (w_redis w') \<and> (case res of
      Inr (Some ord) \<Rightarrow> \<exists>i. py_str i \<in> smembers R (w_redis w) ''free_amounts'' \<and>
        smembers R (w_redis w') = reserved (py_str i) (smembers R (w_redis w)) \<and>
        ord = new_order (E 0) u m \<and>
        w_session w' =
          add_order ord (new_payment_intent (E 0) m i) (at_others (E 0) (w_session w))
    | _ \<Rightarrow> smembers R (w_redis w') = smembers R (w_redis w))"
proof (cases "0 < mx")
  case False
  with run up show ?thesis
    by (auto simp: create_order_service_def create_order_from.simps [of R E u m mx] return_io_def)
next
  case True
  note body = run [unfolded create_order_service_def create_order_from.simps [of R E u m mx 0]]
  obtain g w1 where g: "get_unique_amount R (E 0) (Some m) w = (g, w1)" by fastforce
  note alloc = get_unique_amount_up [OF up fresh g]
  then consider "g = Inr None" "smembers R (w_redis w1) = smembers R (w_redis w)"
    | i where "i > 0" "g = Inr (Some \<lparr>aa_value = i, aa_source = REDIS\<rparr>)"
      "py_str i \<in> smembers R (w_redis w) ''free_amounts''"
      "smembers R (w_redis w1) = reserved (py_str i) (smembers R (w_redis w))"
    by blast
  then show ?thesis
  proof cases
    case 1
    from alloc obtain w2 where "log_pool_statistics R w1 = (Inr (), w2)" "up (w_redis w2)"
      "smembers R (w_redis w2) = smembers R (w_redis w1)" using log_pool_statistics_up by blast
    with body True g 1 show ?thesis by (auto simp: bind_io_def return_io_def)
  next
    case (2 i)
    define w2 where "w2 = snd (others (at_others (E 0)) w1)"
    have w2: "others (at_others (E 0)) w1 = (Inr (), w2)" "w_redis w2 = w_redis w1"
      "w_session w2 = at_others (E 0) (w_session w)" using alloc by (simp_all add: w2_def others_def)
    obtain x w3 where ins: "insert_order (E 0) u m i w2 = (x, w3)" by fastforce
    show ?thesis
    proof (cases x)
      case (Inr ord)
      with body True g 2 w2 ins have "res = Inr (Some ord)" and "w' = w3"
        by (simp_all add: bind_io_def return_io_def try_else_io_def)
      with ins Inr 2 w2 alloc show ?thesis by (auto simp: insert_order_Inr)
    next
      case (Inl e)
      then have w3: "w3 = w2" using ins by (simp add: insert_order_Inl)
      from alloc w2 obtain w4 where w4: "compensate_redis R i w2 = (Inr (), w4)" "up (w_redis w4)"
        "smembers R (w_redis w4) = released (py_str i) (smembers R (w_redis w1))"
        using compensate_redis_up [of w2 i] by auto
      with 2 fresh have "smembers R (w_redis w4) = smembers R (w_redis w)"
        by (simp add: released_reserved)
      with body True g 2 w2 ins Inl w3 w4 show ?thesis
        by (cases "catches IntegrityError e") (auto simp: bind_io_def try_else_io_def raise_io_def)
    qed
  qed
qed

end

text \<open>
  C25. A failed order gives its amount back: when Redis raises nothing and the pool is as a start
  builds it (\<open>pool_fresh\<close>: every free amount is in \<open>amounts\<close> and not pending), every way \<open>create_order_service\<close> can fail (a conflict of the unique index,
  a database exception, an empty pool) leaves the three Redis sets exactly as they were, and a
  success moves the exact amount of the new payment intent from \<open>free_amounts\<close> and \<open>amounts\<close>
  to \<open>pending_orders\<close> and nothing else. A pool in which a paid amount is free again is no such
  pool, and a success on that amount reserves nothing (\<open>allocation_forgets_amount\<close>).
\<close>

theorem order_amount_reserved_or_restored:
  assumes "reliable_set_server R up" and "up (w_redis w)"
    and "pool_fresh (smembers R (w_redis w))"
    and "create_order_service R E u m mx w = (res, w')"
  shows "case res of
      Inr (Some ord) \<Rightarrow> \<exists>p. payment_intents (w_session w') =
          butlast (payment_intents (w_session w')) @ [p] \<and> pi_order_id p = o_id ord \<and>
        py_str (pi_exact_amount p) \<in> smembers R (w_redis w) ''free_amounts'' \<and>
        smembers R (w_redis w') = reserved (py_str (pi_exact_amount p)) (smembers R (w_redis w))
    | _ \<Rightarrow> smembers R (w_redis w') = smembers R (w_redis w)"
proof (cases "\<exists>ord. res = Inr (Some ord)")
  case False
  with reliable_set_server.create_order_pool [OF assms] show ?thesis
    by (auto split: sum.splits option.splits)
next
  case True
  then obtain ord where res: "res = Inr (Some ord)" by blast
  with reliable_set_server.create_order_pool [OF assms] obtain i where
    i: "py_str i \<in> smembers R (w_redis w) ''free_amounts''"
      "smembers R (w_redis w') = reserved (py_str i) (smembers R (w_redis w))"
    and d: "ord = new_order (E 0) u m"
      "w_session w' = add_order ord (new_payment_intent (E 0) m i) (at_others (E 0) (w_session w))"
    by auto
  with res show ?thesis
    by (auto simp: add_order_def new_payment_intent_def new_order_def
        intro!: exI [of _ "new_payment_intent (E 0) m i"])
qed

theorem order_amount_reserved_or_restored_witness:
  "\<exists>p. payment_intents (w_session (snd sample_order_result)) =
       butlast (payment_intents (w_session (snd sample_order_result))) @ [p] \<and>
     pi_order_id p = 1 \<and> py_str (pi_exact_amount p) \<in> {''1500001'', ''1500002''} \<and>
     smembers ref_sets (w_redis (snd sample_order_result)) =
       reserved (py_str (pi_exact_amount p)) (smembers ref_sets sample_pool)"
proof -
  have run: "create_order_service ref_sets (\<lambda>_. sample_attempt) 7 1500000 3 sample_world =
      (Inr (Some (new_order sample_attempt 7 1500000)), snd sample_order_result)"
    using sample_order_created by (simp add: prod_eq_iff sample_order_result_def)
  have "ref_up (w_redis sample_world)" and w: "w_redis sample_world = sample_pool"
    by (simp_all add: ref_up_def sample_world_def sample_pool_def)
  from order_amount_reserved_or_restored
    [OF ref.reliable_set_server_axioms this(1) _ run, unfolded w, OF sample_pool_fresh]
  show ?thesis
    by (simp add: new_order_def sample_attempt_def) (simp add: ref_sets_def sample_pool_def)
qed

subsection \<open>While Redis is down\<close>

definition taken_amounts :: "db \<Rightarrow> int set" where
  "taken_amounts d = pi_exact_amount ` set (filter pending (payment_intents d))"

text \<open>
  C36. Orders are still created while Redis is down: if \<open>SPOP\<close> raises, the database is reachable,
  no other session interferes and the sequences give fresh keys, then an order for an amount the
  schema accepts is created at the first attempt, with an exact amount in the window
  \<open>amount + 1 .. amount + 500\<close> that no PENDING intent holds; only when the whole window is taken
  is the answer \<open>None\<close> and the database as before.
\<close>

theorem order_created_during_redis_outage:
  assumes "redis_set_server R" and down: "\<And>r. \<exists>e r'. spop R ''free_amounts'' r = (Inl e, r')"
    and valid: "valid_db (w_session w)" and m: "order_schema m = Some m"
    and u: "u \<in> u_id ` set (users (w_session w))"
    and env: "at_query_fault (E 0) = None" "at_others (E 0) = id" "at_flush_fault (E 0) = None"
    and pick: "\<And>xs. xs \<noteq> [] \<Longrightarrow> at_pick (E 0) xs \<in> set xs"
    and keys: "at_order_id (E 0) \<notin> o_id ` set (orders (w_session w))" "int4 (at_order_id (E 0))"
      "at_intent_id (E 0) \<notin> pi_id ` set (payment_intents (w_session w))" "int4 (at_intent_id (E 0))"
  shows "if {m + 1 .. m + 500} \<subseteq> taken_amounts (w_session w) then
      fst (create_order_service R E u m 3 w) = Inr None \<and>
      w_session (snd (create_order_service R E u m 3 w)) = w_session w
    else \<exists>i \<in> {m + 1 .. m + 500} - taken_amounts (w_session w).
      fst (create_order_service R E u m 3 w) = Inr (Some (new_order (E 0) u m)) \<and>
      w_session (snd (create_order_service R E u m 3 w)) =
        add_order (new_order (E 0) u m) (new_payment_intent (E 0) m i) (w_session w)"
proof -
  let ?d = "w_session w" and ?cs = "free_candidates (m + 1) (m + 500) (w_session w)"
  obtain e r' where pop: "spop R ''free_amounts'' (w_redis w) = (Inl e, r')" using down by blast
  then have redis: "catches RedisError e" using redis_set_server.spop_Inl [OF assms(1)] by blast
  let ?w = "w\<lparr>w_redis := r'\<rparr>"
  have range: "1500000 \<le> m" "m \<le> 1550000" using m by (auto simp: order_schema_def split: if_splits)
  then have int4: "int4 (m + 1)" "int4 (m + 500)" "int4 m" by (auto simp: int4_def)
  have cs: "set ?cs = {m + 1 .. m + 500} - taken_amounts ?d"
    by (auto simp: free_candidates_iff taken_amounts_def)
  have alloc: "get_unique_amount R (E 0) (Some m) w = (Inr (if ?cs = [] then None
      else Some \<lparr>aa_value = at_pick (E 0) ?cs, aa_source = POSTGRES\<rparr>), ?w)"
    using env pop redis int4
    by (auto simp: get_unique_amount_def try_io_def bind_io_def on_redis_def return_io_def
        get_unique_amount_from_postgres_def candidate_window_def faulty_def on_session_def
        candidate_query_def neq_Nil_conv)
  note body = create_order_service_def create_order_from.simps [of R E u m 3 0]
  show ?thesis
  proof (cases "?cs = []")
    case True
    obtain w2 where "log_pool_statistics R ?w = (Inr (), w2)" using log_pool_returns by blast
    with True cs alloc quiet_steps(3) [OF this] show ?thesis
      by (auto simp: body bind_io_def return_io_def)
  next
    case False
    let ?i = "at_pick (E 0) ?cs"
    have i: "?i \<in> {m + 1 .. m + 500} - taken_amounts ?d" using pick [OF False] cs by simp
    then have "?i \<noteq> 0" "int4 ?i" using range by (auto simp: int4_def)
    have "int4 u" using valid u by (auto simp: valid_db_def fits_columns_def fits_user_def list_all_iff)
    moreover have "\<forall>p \<in> set (payment_intents ?d). pending p \<longrightarrow> pi_exact_amount p \<noteq> ?i"
      using i unfolding taken_amounts_def by force
    ultimately have "valid_db (add_order (new_order (E 0) u m) (new_payment_intent (E 0) m ?i) ?d)"
      using valid_add_order [OF valid keys(1,3) u keys(2,4) _ int4(3)] \<open>int4 ?i\<close> by blast
    then have "insert_order (E 0) u m ?i ?w = (Inr (new_order (E 0) u m),
        ?w\<lparr>w_session := add_order (new_order (E 0) u m) (new_payment_intent (E 0) m ?i) ?d\<rparr>)"
      using env by (simp add: insert_order_Inr)
    with False alloc env \<open>?i \<noteq> 0\<close> i cs show ?thesis
      by (auto simp: body bind_io_def return_io_def others_def try_else_io_def)
  qed
qed

theorem order_created_during_redis_outage_witness:
  "\<exists>i \<in> {1500001 .. 1500500}.
     fst (create_order_service down_sets (\<lambda>_. sample_attempt) 7 1500000 3 sample_world) =
       Inr (Some (new_order sample_attempt 7 1500000)) \<and>
     w_session (snd (create_order_service down_sets (\<lambda>_. sample_attempt) 7 1500000 3 sample_world)) =
       add_order (new_order sample_attempt 7 1500000) (new_payment_intent sample_attempt 1500000 i)
         sample_db"
proof -
  have down: "\<And>r. \<exists>e r'. spop down_sets ''free_amounts'' r = (Inl e, r')"
    by (simp add: down_sets_def)
  have taken: "taken_amounts sample_db = {}"
    by (simp add: taken_amounts_def sample_db_def empty_db_def)
  have w: "w_session sample_world = sample_db" by (simp add: sample_world_def)
  have m: "order_schema 1500000 = Some 1500000" by (simp add: order_schema_def)
  have "7 \<in> u_id ` set (users sample_db)" "orders sample_db = []" "payment_intents sample_db = []"
    by (simp_all add: sample_db_def sample_user_def empty_db_def)
  then show ?thesis
    using order_created_during_redis_outage [OF down_set_server down, of sample_world 1500000 7
        "\<lambda>_. sample_attempt", unfolded w, OF valid_sample_db m]
    by (simp add: taken sample_attempt_def int4_def)
qed

end
