(* ===== verification/Worker_Retries.thy ===== *)
theory Worker_Retries
  imports Worker_Payments
begin

text \<open>
  The retries of the worker: the attempts of a message count its earlier deliveries; the attempts
  decide what a failure does to the message; and one message that is not a dictionary stops the
  worker from reading new messages.
\<close>

subsection \<open>Attempts count deliveries\<close>

context redis_stream_server
begin

definition deliveries :: "consumer_group \<Rightarrow> 'r world \<Rightarrow> string \<Rightarrow> nat option" where
  "deliveries c w = pel S (w_redis w) (cg_stream_name c) (cg_group_name c)"

lemma xclaim_step:
  assumes "on_redis (xclaim S (cg_stream_name c) (cg_group_name c) n t i) w = (Inr es, v)"
  shows "entries S (w_redis v) = entries S (w_redis w) \<and>
    (\<forall>j. j \<noteq> i \<longrightarrow> deliveries c v j = deliveries c w j) \<and>
    (es = [] \<or> (\<exists>fs. es = [(i, fs)] \<and> deliveries c v i = map_option Suc (deliveries c w i)))"
proof -
  from assms have "xclaim S (cg_stream_name c) (cg_group_name c) n t i (w_redis w) = (Inr es, w_redis v)"
    by (auto dest: on_redis_world)
  from xclaim_Inr [OF this] show ?thesis
    by (auto simp: deliveries_def redelivered_def acked_iff)
qed

lemma claim_entries_counts:
  assumes "claim_entries S fl now c t ps w = (Inr ms, w')" and "distinct (map pe_message_id ps)"
    and "\<And>p. p \<in> set ps \<Longrightarrow> deliveries c w (pe_message_id p) = Some (pe_times_delivered p)"
  shows "(\<forall>j. j \<notin> pe_message_id ` set ps \<longrightarrow> deliveries c w' j = deliveries c w j) \<and>
    (\<forall>m \<in> set ms. \<exists>p \<in> set ps. m_id m = pe_message_id p \<and> t \<le> pe_time_since_delivered p \<and>
       m_attempts m = int (pe_times_delivered p) \<and> deliveries c w' (m_id m) = Some (Suc (pe_times_delivered p)))"
  using assms
proof (induction ps arbitrary: ms w)
  case Nil
  then show ?case by (simp add: return_io_def)
next
  case (Cons p ps)
  show ?case
  proof (cases "pe_time_since_delivered p \<ge> t")
    case False
    with Cons.prems Cons.IH [of w ms] show ?thesis by auto
  next
    case True
    let ?claim = "on_redis (xclaim S (cg_stream_name c) (cg_group_name c) (cg_consumer_name c) t (pe_message_id p))"
    let ?to = "to_message fl now (cg_stream_name c) (\<lambda>_. Inr (int (pe_times_delivered p)))"
    from Cons.prems(1) True obtain es v ns rest where claim: "?claim w = (Inr es, v)"
      and ns: "map_result ?to es = Inr ns" and run: "claim_entries S fl now c t ps v = (Inr rest, w')"
      and ms: "ms = ns @ rest"
      by (cases "?claim w"; cases "fst (?claim w)")
        (auto simp: bind_io_def lift_io_def return_io_def split: sum.splits prod.splits)
    note step = xclaim_step [OF claim]
    have dist: "distinct (map pe_message_id ps)" and apart: "pe_message_id p \<notin> pe_message_id ` set ps"
      using Cons.prems(2) by auto
    have "deliveries c v (pe_message_id q) = Some (pe_times_delivered q)" if "q \<in> set ps" for q
    proof -
      from that apart have "pe_message_id q \<noteq> pe_message_id p" by (metis image_eqI)
      with Cons.prems(3) [of q] that step show ?thesis by simp
    qed
    from Cons.IH [OF run dist this] have IH:
      "\<forall>j. j \<notin> pe_message_id ` set ps \<longrightarrow> deliveries c w' j = deliveries c v j"
      "\<forall>m \<in> set rest. \<exists>q \<in> set ps. m_id m = pe_message_id q \<and> t \<le> pe_time_since_delivered q \<and>
         m_attempts m = int (pe_times_delivered q) \<and> deliveries c w' (m_id m) = Some (Suc (pe_times_delivered q))"
      by blast+
    have first: "m_id m = pe_message_id p \<and> m_attempts m = int (pe_times_delivered p) \<and>
        deliveries c w' (m_id m) = Some (Suc (pe_times_delivered p))" if "m \<in> set ns" for m
    proof -
      from map_result_mem [OF ns that] obtain e where e: "e \<in> set es" "?to e = Inr m" by blast
      with step obtain fs where fs: "e = (pe_message_id p, fs)"
        and "deliveries c v (pe_message_id p) = map_option Suc (deliveries c w (pe_message_id p))" by auto
      with Cons.prems(3) [of p] IH(1) apart to_message_sel e(2) show ?thesis by fastforce
    qed
    show ?thesis using IH step first True unfolding ms by fastforce
  qed
qed

lemma claim_stale_counts:
  assumes "claim_stale_message S fl now c t n w = (Inr ms, w')" and "m \<in> set ms"
  shows "\<exists>k. deliveries c w (m_id m) = Some k \<and> m_attempts m = int k \<and>
    deliveries c w' (m_id m) = Some (Suc k)"
proof -
  let ?ask = "xpending_range S (cg_stream_name c) (cg_group_name c) n"
  obtain y v where run: "on_redis ?ask w = (y, v)" by fastforce
  with assms(1) obtain ps where y: "y = Inr ps" and rest: "claim_entries S fl now c t ps v = (Inr ms, w')"
    by (cases y) (auto simp: claim_stale_message_def bind_io_def)
  from run y have ask: "?ask (w_redis w) = (Inr ps, w_redis v)" by (auto dest: on_redis_world)
  from xpending_range_same [OF ask] xpending_range_Inr [OF ask]
  have same: "deliveries c v = deliveries c w" and "distinct (map pe_message_id ps)"
    and counts: "\<And>p. p \<in> set ps \<Longrightarrow> deliveries c v (pe_message_id p) = Some (pe_times_delivered p)"
    by (auto simp: deliveries_def)
  from claim_entries_counts [OF rest this(2,3)] assms(2) counts same show ?thesis by fastforce
qed

lemma read_first_delivery:
  assumes "read_messages S fl t c n w = (Inr ms, w')" and "m \<in> set ms"
  shows "deliveries c w (m_id m) = None \<and> deliveries c w' (m_id m) = Some 1"
  using read_entry [OF assms] unfolding deliveries_def by metis

end

text \<open>
  The attempts of a message are the number of its earlier deliveries to the group: a claimed
  message was delivered \<open>m_attempts\<close> times before and once more now, and a message that is read
  was never delivered before. No message is handed out uncounted.
\<close>

lemma attempts_count_deliveries:
  assumes server: "redis_stream_server S"
    and claim: "claim_stale_message S fl now c t n w = (Inr ms, w1)" "m \<in> set ms"
    and read: "read_messages S fl now' c n' w1 = (Inr ns, w2)" "m' \<in> set ns"
  shows "\<exists>k. pel S (w_redis w) (cg_stream_name c) (cg_group_name c) (m_id m) = Some k \<and>
      m_attempts m = int k \<and>
      pel S (w_redis w1) (cg_stream_name c) (cg_group_name c) (m_id m) = Some (Suc k) \<and>
      pel S (w_redis w1) (cg_stream_name c) (cg_group_name c) (m_id m') = None \<and>
      pel S (w_redis w2) (cg_stream_name c) (cg_group_name c) (m_id m') = Some 1 \<and> m_id m \<noteq> m_id m'"
  using redis_stream_server.claim_stale_counts [OF server claim]
    redis_stream_server.read_first_delivery [OF server read]
  unfolding redis_stream_server.deliveries_def [OF server] by force

text \<open>Two messages: one was delivered once before, and one is new.\<close>

definition two_messages :: "ref_state world" where
  "two_messages = due_world\<lparr>w_redis := due_pool\<lparr>
     rs_streams := (\<lambda>s. if s = ''pending_orders_queue'' then
       [(''2'', enqueue_payload ''900.5'' (JDict due_message)),
        (''3'', enqueue_payload ''1000.5'' (JDict due_message))] else []),
     rs_delivered := (\<lambda>s g. [''2'']), rs_idle := 6000, rs_pel := (\<lambda>s g. [(''2'', 1)])\<rparr>\<rparr>"

definition claimed_two :: "(exn + message list) \<times> ref_state world" where
  "claimed_two = claim_stale_message ref_streams Some ''1001.5'' payment_group 6000 10 two_messages"

definition read_two :: "(exn + message list) \<times> ref_state world" where
  "read_two = read_messages ref_streams Some ''1001.5'' payment_group 10 (snd claimed_two)"

definition stale_message :: message where
  "stale_message = due_queue_message\<lparr>m_attempts := 1, m_created_at := ''900.5''\<rparr>"

lemma two_messages_run: "fst claimed_two = Inr [stale_message]"
  "fst read_two = Inr [due_queue_message\<lparr>m_id := ''3''\<rparr>]"
  by (code_simp+)

lemma attempts_count_deliveries_witness:
  "\<exists>k. m_attempts stale_message = int k \<and>
     pel ref_streams (w_redis (snd claimed_two)) ''pending_orders_queue'' ''orders_processors'' ''2'' = Some (Suc k) \<and>
     pel ref_streams (w_redis (snd read_two)) ''pending_orders_queue'' ''orders_processors'' ''3'' = Some 1"
proof -
  have "claim_stale_message ref_streams Some ''1001.5'' payment_group 6000 10 two_messages
      = (Inr [stale_message], snd claimed_two)"
    and "read_messages ref_streams Some ''1001.5'' payment_group 10 (snd claimed_two)
      = (Inr [due_queue_message\<lparr>m_id := ''3''\<rparr>], snd read_two)"
    using two_messages_run by (simp_all add: claimed_two_def read_two_def prod_eq_iff)
  from attempts_count_deliveries [OF ref.redis_stream_server_axioms this(1) _ this(2)]
  show ?thesis
    by (auto simp: stale_message_def due_queue_message_def payment_group_def consumer_group_def
        default_queue_def message_queue_def)
qed

subsection \<open>The fate of a message\<close>

text \<open>
  C27. The attempts decide: when Redis works, a message with an amount and a known way to its
  handler leaves the pending list when it was handled; when it was not, it is left alone as long
  as its attempts are below the maximum, and otherwise it is put into the dead letter stream and
  leaves the pending list. No error gets out.
\<close>

theorem attempts_decide_fate:
  assumes server: "reliable_stream_server S up" and worker: "queue_worker S K c"
    and data: "m_data m = JDict kvs" "truthy (dict_get kvs ''amount'')"
    and run: "process_message K m w = (Inr ok, v)" and up: "up (w_redis v)"
  shows "\<exists>w'. work_message S K c t m w = (Inr (), w') \<and> up (w_redis w') \<and>
    (if ok \<or> wk_max_retries K \<le> m_attempts m then
       \<not> in_pel S c w' (m_id m) \<and> (ok \<or> buried S K w' m)
     else w' = v \<and> (\<forall>i. in_pel S c w' i = in_pel S c w i))"
proof -
  note plain = reliable_stream_server.axioms(1) [OF server]
  have ack: "\<exists>b x'. acknowledge S c (m_id m) x = (Inr b, x') \<and> up (w_redis x') \<and>
      entries S (w_redis x') = entries S (w_redis x) \<and> \<not> in_pel S c x' (m_id m)"
    if "up (w_redis x)" for x :: "'a world"
  proof -
    from reliable_stream_server.xack_up [OF server that] obtain k r where
      r: "xack S (cg_stream_name c) (cg_group_name c) [m_id m] (w_redis x) = (Inr k, r)" "up r" by blast
    then have "acknowledge S c (m_id m) x = (Inr (k > 0), x\<lparr>w_redis := r\<rparr>)"
      by (simp add: acknowledge_def on_redis_def io_combinators)
    with r redis_stream_server.xack_Inr [OF plain r(1)] show ?thesis by (auto simp: in_pel_def acked_iff)
  qed
  have fields: "data_get (m_data m) ''amount'' = Inr (dict_get kvs ''amount'')"
    "data_get (m_data m) ''trace_id'' = Inr (dict_get kvs ''trace_id'')" by (simp_all add: data)
  note step = work_message_def handle_failure_def fields io_combinators run data(2)
  show ?thesis
  proof (cases ok)
    case True
    with ack [OF up] show ?thesis by (fastforce simp: step)
  next
    case failed: False
    show ?thesis
    proof (cases "wk_max_retries K \<le> m_attempts m")
      case False
      with failed queue_worker.process_keeps [OF worker run] up show ?thesis
        by (simp add: step in_pel_def)
    next
      case True
      from reliable_stream_server.xadd_up [OF server up] obtain i r where
        r: "xadd S (dead_stream K) (dead_fields m t) None (w_redis v) = (Inr i, r)" "up r" by blast
      then have move: "move_to_dead_letter S K t m v = (Inr i, v\<lparr>w_redis := r\<rparr>)"
        by (simp add: move_to_dead_letter_def dead_stream_def on_redis_def)
      then have "buried S K (v\<lparr>w_redis := r\<rparr>) m" using queue_worker.move_result [OF worker] by blast
      with ack [of "v\<lparr>w_redis := r\<rparr>"] r(2) failed True move show ?thesis
        by (fastforce simp: step buried_def)
    qed
  qed
qed

text \<open>A payment for an amount that no order has, at its last attempt.\<close>

definition unknown_amount :: "(pystr \<times> json) list" where
  "unknown_amount = [(lit ''transaction_id'', JInt 6), (lit ''amount'', JFloat ''nan''),
     (lit ''type'', JStr (lit ''payment''))]"

definition last_attempt :: message where
  "last_attempt = \<lparr>m_id = ''2'', m_stream = ''pending_orders_queue'', m_data = JDict unknown_amount,
     m_attempts = 3, m_created_at = ''900.5''\<rparr>"

definition last_run :: "(exn + bool) \<times> ref_state world" where
  "last_run = process_message sample_worker last_attempt two_messages"

lemma last_run_fails: "fst last_run = Inr False" "rs_faults (w_redis (snd last_run)) = []"
  by (code_simp+)

theorem attempts_decide_fate_witness:
  "\<exists>w'. work_message ref_streams sample_worker payment_group ''1002.5'' last_attempt two_messages = (Inr (), w') \<and>
     \<not> in_pel ref_streams payment_group w' ''2'' \<and> buried ref_streams sample_worker w' last_attempt"
proof -
  have "process_message sample_worker last_attempt two_messages = (Inr False, snd last_run)"
    using last_run_fails(1) by (simp add: last_run_def prod_eq_iff)
  moreover have "queue_worker ref_streams sample_worker payment_group"
    unfolding sample_worker_def by (rule ref.payments.queue_worker_axioms)
  moreover have "truthy (dict_get unknown_amount ''amount'')" by code_simp
  moreover have "ref_up (w_redis (snd last_run))" using last_run_fails(2) by (simp add: ref_up_def)
  ultimately show ?thesis
    using attempts_decide_fate [OF ref.reliable_stream_server_axioms _ _ _ _, of sample_worker payment_group
        last_attempt unknown_amount two_messages False "snd last_run" "''1002.5''"]
    by (auto simp: last_attempt_def sample_worker_def)
qed

subsection \<open>A message that is not a dictionary\<close>

lemma work_no_dict: "\<not> is_dict (m_data m) \<Longrightarrow>
    \<exists>e. work_message S K c t m w = (Inl e, w)"
  by (cases "m_data m") (auto simp: work_message_def data_get_def io_combinators)

lemma poisoned_batch:
  assumes "claim_stale_message S fl (be_claim_now E) c 6000 10 w = (Inr (p # rest), w')"
    and "\<not> is_dict (m_data p)"
  shows "(\<exists>e. process_batch S fl K c E w = (Inl e, w')) \<and> batch_visits S fl K c E w = [(p, w')]"
  using assms work_no_dict [of p S K c "be_clock E (m_id p)" w']
  by (auto simp: process_batch_def batch_visits_def bind_io_def)

text \<open>
  C28. One message that is not a dictionary stops the worker: as long as the claim of stale messages
  starts with such a message (which an administrator can send by replaying a rejected event, whose
  payload was not a dictionary), every batch ends in the \<open>AttributeError\<close> of \<open>message.data.get\<close> before
  the new messages are read; nothing but that message is ever taken up, and it stays pending for
  the next batch.
\<close>

theorem poison_message_blocks_worker:
  assumes start: "P w" and poison: "\<And>v E. P v \<Longrightarrow> E \<in> set Es \<Longrightarrow>
      \<exists>p rest v'. claim_stale_message S fl (be_claim_now E) c 6000 10 v = (Inr (p # rest), v') \<and>
        \<not> is_dict (m_data p) \<and> P v'"
  shows "\<exists>w'. run_worker S fl K c Es w = (Inr (), w') \<and> P w' \<and>
    length (run_visits S fl K c Es w) = length Es \<and>
    (\<forall>(m, v) \<in> set (run_visits S fl K c Es w). \<not> is_dict (m_data m))"
  using assms
proof (induction Es arbitrary: w)
  case Nil
  then show ?case by (simp add: return_io_def)
next
  case (Cons E Es)
  have "E \<in> set (E # Es)" by simp
  from Cons.prems(2) [OF Cons.prems(1) this] obtain p rest v where
    claim: "claim_stale_message S fl (be_claim_now E) c 6000 10 w = (Inr (p # rest), v)"
    and p: "\<not> is_dict (m_data p)" "P v" by blast
  note batch = poisoned_batch [OF claim p(1), of K]
  from Cons.IH [OF p(2)] Cons.prems(2) obtain w' where
    "run_worker S fl K c Es v = (Inr (), w')" "P w'" "length (run_visits S fl K c Es v) = length Es"
    "\<forall>(m, v) \<in> set (run_visits S fl K c Es v). \<not> is_dict (m_data m)" by force
  with batch p(1) show ?case
    by (auto simp: run_worker_step simp del: run_worker.simps)
qed

text \<open>The queue after the replay of an event with the payload \<open>[]\<close>, and a payment behind it.\<close>

definition poison_redis :: "nat \<Rightarrow> ref_state" where
  "poison_redis k = due_pool\<lparr>
     rs_streams := (\<lambda>s. if s = ''pending_orders_queue'' then
       [(''2'', [(''data'', lit ''[]''), (''attempts'', lit ''0'')]),
        (''3'', enqueue_payload ''1000.5'' (JDict due_message))] else []),
     rs_delivered := (\<lambda>s g. [''2'']), rs_idle := 6000,
     rs_pel := (\<lambda>s. if s = ''pending_orders_queue'' then
       (\<lambda>g. if g = ''orders_processors'' then [(''2'', k)] else []) else (\<lambda>g. []))\<rparr>"

definition poison_world :: "nat \<Rightarrow> ref_state world" where
  "poison_world k = due_world\<lparr>w_redis := poison_redis k\<rparr>"

lemma poison_claim:
  "\<exists>p rest. claim_stale_message ref_streams Some now payment_group 6000 10 (poison_world k)
      = (Inr (p # rest), poison_world (Suc k)) \<and> \<not> is_dict (m_data p)"
proof -
  have "loads Some (lit ''[]'') = Some (JList [])" by code_simp
  moreover have "rs_faults (poison_redis k) = []" "rs_idle (poison_redis k) = 6000"
    "rs_pel (poison_redis k) ''pending_orders_queue'' ''orders_processors'' = [(''2'', k)]"
    "map_of (rs_streams (poison_redis k) ''pending_orders_queue'') ''2'' =
       Some [(''data'', lit ''[]''), (''attempts'', lit ''0'')]"
    by (simp_all add: poison_redis_def due_pool_def)
  moreover have "ref_set_pel ''pending_orders_queue'' ''orders_processors'' [(''2'', Suc k)] (poison_redis k)
      = poison_redis (Suc k)"
    by (simp add: poison_redis_def ref_set_pel_def fun_eq_iff)
  moreover have "cg_stream_name payment_group = ''pending_orders_queue''"
    "cg_group_name payment_group = ''orders_processors''"
    by (simp_all add: payment_group_def consumer_group_def default_queue_def message_queue_def)
  ultimately show ?thesis
    by (simp add: claim_stale_message_def on_redis_def ref_streams_def ref_cmd_def ref_xpending_def
        ref_xclaim_def poison_world_def to_message_def json_field_def field_get_def float_field_def
        io_combinators Let_def)
qed

theorem poison_message_blocks_worker_witness:
  "\<exists>w'. run_worker ref_streams Some sample_worker payment_group (replicate 50 sample_batch) (poison_world 1)
     = (Inr (), w') \<and> (\<exists>k. w' = poison_world k)"
proof -
  have "\<exists>p rest v'. claim_stale_message ref_streams Some (be_claim_now E) payment_group 6000 10 v
      = (Inr (p # rest), v') \<and> \<not> is_dict (m_data p) \<and> (\<exists>k. v' = poison_world k)"
    if "\<exists>k. v = poison_world k" for v E
    using that poison_claim by blast
  from poison_message_blocks_worker [where P = "\<lambda>v. \<exists>k. v = poison_world k", OF _ this] show ?thesis
    by blast
qed

end
