(* ===== verification/Dead_Letters.thy ===== *)
theory Dead_Letters
  imports Worker_Retries
begin

text \<open>
  The dead letter queue of app/modules/admin/dlq_manager.py, with its two endpoints of
  app/modules/admin/router.py: reading dead letters page by page, and replaying one.
\<close>

record dead_letter =
  dl_msg_id :: string
  dl_data :: json
  dl_original_id :: "pystr option"
  dl_attempts :: int
  dl_failed_at :: string

record dead_page =
  dp_messages :: "dead_letter list"
  dp_next_cursor :: "string option"

definition dead_letter :: "(string \<Rightarrow> string option) \<Rightarrow> stream_entry \<Rightarrow> exn + dead_letter" where
  "dead_letter fl e = (case e of (msg_id, fs) \<Rightarrow>
     (case json_field fl fs of
        Inl err \<Rightarrow> Inl err
      | Inr data \<Rightarrow> (case int_field fs ''attempts'' of
          Inl err \<Rightarrow> Inl err
        | Inr k \<Rightarrow> (case float_field fl fs ''failed_at'' ''0.0'' of
            Inl err \<Rightarrow> Inl err
          | Inr t \<Rightarrow> Inr \<lparr>dl_msg_id = msg_id, dl_data = data, dl_original_id = map_of fs ''original_id'',
              dl_attempts = k, dl_failed_at = t\<rparr>))))"

definition start_id :: "string \<Rightarrow> string" where
  "start_id cursor = (if cursor = ''-'' then cursor else ''('' @ cursor)"

definition get_dead_letters :: "'r redis_streams \<Rightarrow> (string \<Rightarrow> string option) \<Rightarrow> message_queue
    \<Rightarrow> nat \<Rightarrow> string \<Rightarrow> 'r world \<Rightarrow> (exn + dead_page) \<times> 'r world" where
  "get_dead_letters S fl q count cursor =
     bind_io (on_redis (xrange S (mq_dead_letter_stream q) (start_id cursor) ''+'' (Some count))) (\<lambda>dead_messages.
     bind_io (lift_io (map_result (dead_letter fl) dead_messages)) (\<lambda>parsed_message.
     if length dead_messages < count then
       return_io \<lparr>dp_messages = parsed_message, dp_next_cursor = None\<rparr>
     else if dead_messages = [] then raise_io (Exn IndexError ''list index out of range'')
     else return_io \<lparr>dp_messages = parsed_message, dp_next_cursor = Some (fst (last dead_messages))\<rparr>))"

text \<open>\<open>fields['attempts'] = '0'\<close>, then \<open>XADD\<close> and \<open>XDEL\<close> in one transaction.\<close>

definition replay_fields :: "fields \<Rightarrow> fields" where
  "replay_fields fs = AList.update ''attempts'' (lit ''0'') fs"

definition replay_message :: "'r redis_streams \<Rightarrow> message_queue \<Rightarrow> string
    \<Rightarrow> 'r world \<Rightarrow> (exn + string option) \<times> 'r world" where
  "replay_message S q msg_id =
     bind_io (on_redis (xrange S (mq_dead_letter_stream q) msg_id msg_id None)) (\<lambda>message.
     case message of
       [] \<Rightarrow> return_io None
     | (_, fs) # _ \<Rightarrow>
         bind_io (on_redis (xadd_xdel S (mq_stream_name q) (replay_fields fs) (Some (mq_max_len q))
           (mq_dead_letter_stream q) msg_id)) (\<lambda>(new_msg_id, _).
         return_io (Some new_msg_id)))"

definition dlq_dashboard :: "'r redis_streams \<Rightarrow> (string \<Rightarrow> string option) \<Rightarrow> string
    \<Rightarrow> 'r world \<Rightarrow> (exn + dead_page) \<times> 'r world" where
  "dlq_dashboard S fl cursor = get_dead_letters S fl default_queue 10 cursor"

definition replay_dlq_dashboard :: "'r redis_streams \<Rightarrow> string \<Rightarrow> 'r world \<Rightarrow> (exn + string) \<times> 'r world" where
  "replay_dlq_dashboard S message_id =
     bind_io (replay_message S default_queue message_id) (\<lambda>replay.
     case replay of
       None \<Rightarrow> raise_io (Http 404 ''There is no result'')
     | Some new_msg_id \<Rightarrow> return_io new_msg_id)"

subsection \<open>Sample runs\<close>

definition burial :: "(exn + string) \<times> ref_state world" where
  "burial = move_to_dead_letter ref_streams sample_worker ''1002.5'' due_queue_message due_world"

definition sample_replay :: "(exn + string) \<times> ref_state world" where
  "sample_replay = replay_dlq_dashboard ref_streams ''2'' (snd burial)"

definition read_again :: "(exn + message list) \<times> ref_state world" where
  "read_again = read_messages ref_streams Some ''1003.5'' payment_group 10 (snd sample_replay)"

definition again_message :: message where
  "again_message = due_queue_message\<lparr>m_id := ''3'', m_created_at := ''1003.5''\<rparr>"

definition sample_letters :: "dead_letter list" where
  "sample_letters = [\<lparr>dl_msg_id = ''2'', dl_data = JDict due_message, dl_original_id = Some (lit ''2''),
     dl_attempts = 0, dl_failed_at = ''1002.5''\<rparr>]"

lemma burial_checked: "checked (\<lambda>(x, w). x = Inr ''2'' \<and>
    map fst (entries ref_streams (w_redis w) ''pending_orders_queue:dead'') = [''2''] \<and>
    map_result (dead_letter Some) (entries ref_streams (w_redis w) ''pending_orders_queue:dead'') = Inr sample_letters \<and>
    rs_faults (w_redis w) = []) burial"
  by code_simp

lemma sample_burial: "fst burial = Inr ''2''"
  "map fst (entries ref_streams (w_redis (snd burial)) ''pending_orders_queue:dead'') = [''2'']"
  "map_result (dead_letter Some) (entries ref_streams (w_redis (snd burial)) ''pending_orders_queue:dead'')
     = Inr sample_letters"
  "rs_faults (w_redis (snd burial)) = []"
  using burial_checked by (simp_all add: checked_def case_prod_beta)

lemma sample_replay_read: "fst sample_replay = Inr ''3''" "fst read_again = Inr [again_message]"
  by (code_simp+)

subsection \<open>Pages\<close>

text \<open>What a client sees that follows \<open>next_cursor\<close> until there is none, within \<open>n\<close> requests.\<close>

fun follow_pages :: "'r redis_streams \<Rightarrow> (string \<Rightarrow> string option) \<Rightarrow> nat \<Rightarrow> string
    \<Rightarrow> 'r world \<Rightarrow> (exn + dead_letter list) option \<times> 'r world" where
  "follow_pages S fl 0 cursor w = (None, w)"
| "follow_pages S fl (Suc n) cursor w = (case dlq_dashboard S fl cursor w of
      (Inl e, w') \<Rightarrow> (Some (Inl e), w')
    | (Inr page, w') \<Rightarrow> (case dp_next_cursor page of
        None \<Rightarrow> (Some (Inr (dp_messages page)), w')
      | Some c \<Rightarrow> (case follow_pages S fl n c w' of
          (Some (Inr rest), w'') \<Rightarrow> (Some (Inr (dp_messages page @ rest)), w'')
        | r \<Rightarrow> r)))"

lemma map_result_take: "map_result f xs = Inr ys \<Longrightarrow> map_result f (take n xs) = Inr (take n ys)"
  by (induction xs arbitrary: n ys) (auto simp: take_Cons' split: sum.splits)

lemma map_result_drop: "map_result f xs = Inr ys \<Longrightarrow> map_result f (drop n xs) = Inr (drop n ys)"
  by (induction xs arbitrary: n ys) (auto simp: drop_Cons' split: sum.splits)

text \<open>The entries that remain to be read from a cursor on.\<close>

definition after_cursor :: "string \<Rightarrow> stream_entry list \<Rightarrow> stream_entry list \<Rightarrow> bool" where
  "after_cursor cursor es ys \<longleftrightarrow> (cursor = ''-'' \<and> ys = es) \<or>
     (\<exists>xs fs. cursor \<noteq> ''-'' \<and> es = xs @ (cursor, fs) # ys \<and> cursor \<notin> fst ` set xs)"

context reliable_stream_server
begin

lemma one_page:
  assumes "up (w_redis w)" and es: "entries S (w_redis w) (mq_dead_letter_stream q) = es"
    and "after_cursor cursor es ys" and ok: "map_result (dead_letter fl) ys = Inr ds" and "0 < n"
  shows "\<exists>w'. get_dead_letters S fl q n cursor w = (Inr \<lparr>dp_messages = take n ds,
      dp_next_cursor = (if length ys < n then None else Some (fst (last (take n ys))))\<rparr>, w') \<and>
    up (w_redis w') \<and> entries S (w_redis w') = entries S (w_redis w)"
proof -
  let ?d = "mq_dead_letter_stream q"
  have "start_id cursor = ''-'' \<or> (\<exists>i \<in> fst ` set (entries S (w_redis w) ?d). start_id cursor = ''('' @ i)"
    using assms(3) es by (auto simp: after_cursor_def start_id_def)
  from xrange_up [OF assms(1) this, of "Some n"] obtain es' r where
    run: "xrange S ?d (start_id cursor) ''+'' (Some n) (w_redis w) = (Inr es', r)" "up r" by blast
  have "es' = take n ys"
    using assms(3) run(1) xrange_start [of ?d n "w_redis w" es' r] xrange_after [of ?d cursor n "w_redis w" es' r] es
    by (auto simp: after_cursor_def start_id_def)
  moreover have "map_result (dead_letter fl) (take n ys) = Inr (take n ds)"
    using ok by (rule map_result_take)
  ultimately show ?thesis
    using run assms(5) xrange_same [OF run(1)]
    by (auto simp: get_dead_letters_def on_redis_def io_combinators)
qed

lemma pages_from:
  assumes "up (w_redis w)" and "entries S (w_redis w) (mq_dead_letter_stream default_queue) = es"
    and "after_cursor cursor es ys" and "map_result (dead_letter fl) ys = Inr ds"
    and "distinct (map fst es)" and "''-'' \<notin> fst ` set es" and "length ys < n"
  shows "\<exists>w'. follow_pages S fl n cursor w = (Some (Inr ds), w') \<and> entries S (w_redis w') = entries S (w_redis w)"
  using assms(1-4,7)
proof (induction n arbitrary: cursor w ys ds)
  case (Suc n)
  from one_page [OF Suc.prems(1-4), of 10] obtain w1 where
    page: "dlq_dashboard S fl cursor w = (Inr \<lparr>dp_messages = take 10 ds,
      dp_next_cursor = (if length ys < 10 then None else Some (fst (last (take 10 ys))))\<rparr>, w1)"
    and w1: "up (w_redis w1)" "entries S (w_redis w1) = entries S (w_redis w)"
    by (auto simp: dlq_dashboard_def)
  have len: "length ds = length ys" using map_result_Inr_length [OF Suc.prems(4)] .
  show ?case
  proof (cases "length ys < 10")
    case True
    with page w1 len show ?thesis by simp
  next
    case False
    let ?c = "fst (last (take 10 ys))"
    have split: "map_result (dead_letter fl) (drop 10 ys) = Inr (drop 10 ds)"
      using Suc.prems(4) by (rule map_result_drop)
    obtain zs c fs where take: "take 10 ys = zs @ [(c, fs)]"
      using False by (metis append_butlast_last_id gr_zeroI le_zero_eq length_0_conv linorder_not_less
          prod.collapse take_eq_Nil2 zero_neq_numeral)
    then have ys: "ys = zs @ (c, fs) # drop 10 ys" by (metis append_Cons append_Nil append_assoc append_take_drop_id)
    have "c \<noteq> ''-''" and "after_cursor c es (drop 10 ys)"
    proof -
      obtain xs where es: "es = xs @ ys"
        using Suc.prems(3) by (auto simp: after_cursor_def)
      with ys have es': "es = (xs @ zs) @ (c, fs) # drop 10 ys" by simp
      with assms(6) show "c \<noteq> ''-''" by force
      moreover have "c \<notin> fst ` set (xs @ zs)" using assms(5) by (subst (asm) es') auto
      ultimately show "after_cursor c es (drop 10 ys)" using es' by (auto simp: after_cursor_def)
    qed
    with Suc.IH [OF w1(1) _ _ split] w1 Suc.prems False obtain w2 where
      "follow_pages S fl n c w1 = (Some (Inr (drop 10 ds)), w2)" "entries S (w_redis w2) = entries S (w_redis w)"
      by force
    with page False take show ?thesis by simp
  qed
qed simp

end

text \<open>
  C31. The pages of the dashboard cover the dead letter stream: a client that follows the cursors,
  from \<open>-\<close> on, gets every dead letter exactly once and in order, and is done after at most one
  request more than there are letters; the stream stays as it is.
\<close>

theorem dead_letter_pages_cover:
  assumes server: "reliable_stream_server S up" and "up (w_redis w)"
    and es: "entries S (w_redis w) ''pending_orders_queue:dead'' = es"
    and letters: "map_result (dead_letter fl) es = Inr ds"
    and ids: "distinct (map fst es)" "''-'' \<notin> fst ` set es"
  shows "\<exists>w'. follow_pages S fl (Suc (length es)) ''-'' w = (Some (Inr ds), w') \<and>
    entries S (w_redis w') = entries S (w_redis w) \<and> map dl_msg_id ds = map fst es"
proof -
  have "mq_dead_letter_stream default_queue = ''pending_orders_queue:dead''"
    by (simp add: default_queue_def message_queue_def)
  moreover have "map dl_msg_id ds = map fst es"
    using letters by (induction es arbitrary: ds) (auto simp: dead_letter_def split: sum.splits prod.splits)
  moreover have "after_cursor ''-'' es es" by (simp add: after_cursor_def)
  ultimately show ?thesis
    using reliable_stream_server.pages_from [OF server assms(2) _ _ letters ids, of "''-''" "Suc (length es)"] es
    by auto
qed

theorem dead_letter_pages_cover_witness:
  "\<exists>w'. follow_pages ref_streams Some 2 ''-'' (snd burial) = (Some (Inr sample_letters), w')"
proof -
  let ?es = "entries ref_streams (w_redis (snd burial)) ''pending_orders_queue:dead''"
  have ids: "distinct (map fst ?es)" "''-'' \<notin> fst ` set ?es"
    unfolding sample_burial(2) set_map [symmetric] by simp_all
  have "ref_up (w_redis (snd burial))" using sample_burial(4) by (simp add: ref_up_def)
  from dead_letter_pages_cover [OF ref.reliable_stream_server_axioms this refl sample_burial(3) ids]
  have "\<exists>w'. follow_pages ref_streams Some (Suc (length (map fst ?es))) ''-'' (snd burial)
      = (Some (Inr sample_letters), w')" by auto
  then show ?thesis unfolding sample_burial(2) by (simp add: numeral_2_eq_2)
qed

subsection \<open>Replaying\<close>

lemma replay_dead_fields:
  "replay_fields (dead_fields m now) = [(''data'', dumps (m_data m)), (''original_id'', lit (m_id m)),
     (''attempts'', lit ''0''), (''failed_at'', lit now)]"
  by (simp add: replay_fields_def dead_fields_def)

context redis_stream_server
begin

lemma replay_cases:
  assumes "replay_message S q i w = (x, w')" and apart: "mq_dead_letter_stream q \<noteq> mq_stream_name q"
  obtains (absent) "x = Inr None" "i \<notin> fst ` set (entries S (w_redis w) (mq_dead_letter_stream q))"
      "entries S (w_redis w') = entries S (w_redis w)"
  | (moved) j l fs E where "x = Inr (Some j)" "(l, fs) \<in> set (entries S (w_redis w) (mq_dead_letter_stream q))"
      "i \<in> fst ` set (entries S (w_redis w) (mq_dead_letter_stream q)) \<Longrightarrow> l = i"
      "appended (mq_stream_name q) (replay_fields fs) (Some (mq_max_len q)) j (entries S (w_redis w)) E"
      "deleted (mq_dead_letter_stream q) i E (entries S (w_redis w'))"
  | (raised) e where "x = Inl e" "entries S (w_redis w') = entries S (w_redis w) \<or>
      (\<exists>j l fs E. (l, fs) \<in> set (entries S (w_redis w) (mq_dead_letter_stream q)) \<and>
         (i \<in> fst ` set (entries S (w_redis w) (mq_dead_letter_stream q)) \<longrightarrow> l = i) \<and>
         appended (mq_stream_name q) (replay_fields fs) (Some (mq_max_len q)) j (entries S (w_redis w)) E \<and>
         deleted (mq_dead_letter_stream q) i E (entries S (w_redis w')))"
proof -
  let ?d = "mq_dead_letter_stream q" and ?es = "entries S (w_redis w) (mq_dead_letter_stream q)"
  obtain y v where run: "on_redis (xrange S ?d i i None) w = (y, v)" by fastforce
  then have look: "xrange S ?d i i None (w_redis w) = (y, w_redis v)" by (auto dest: on_redis_world)
  from xrange_same [OF look] have same: "entries S (w_redis v) = entries S (w_redis w)" by simp
  show ?thesis
  proof (cases y)
    case (Inl e)
    with assms(1) run same show ?thesis by (intro raised) (auto simp: replay_message_def bind_io_def)
  next
    case (Inr es)
    note sub = xrange_Inr [OF look [unfolded Inr]]
    have exact: "es = filter (\<lambda>e. fst e = i) ?es" if "i \<in> fst ` set ?es"
      using xrange_id [OF look [unfolded Inr] that] .
    show ?thesis
    proof (cases es)
      case Nil
      then have "i \<notin> fst ` set ?es" using exact by (fastforce simp: filter_empty_conv dest: sym)
      with assms(1) run same Inr Nil show ?thesis
        by (intro absent) (auto simp: replay_message_def io_combinators)
    next
      case (Cons e rest)
      obtain l fs where e: "e = (l, fs)" by fastforce
      with Cons sub have mem: "(l, fs) \<in> set ?es" by auto
      have id: "l = i" if "i \<in> fst ` set ?es"
        using exact [OF that] Cons e by (auto dest!: sym [of "_ # _"] simp: filter_eq_Cons_iff)
      let ?move = "xadd_xdel S (mq_stream_name q) (replay_fields fs) (Some (mq_max_len q)) ?d i"
      obtain z u where z: "on_redis ?move v = (z, u)" by fastforce
      then have move: "?move (w_redis v) = (z, w_redis u)" by (auto dest: on_redis_world)
      have w': "w' = u" and x: "x = map_sum id (\<lambda>p. Some (fst p)) z"
        using assms(1) run Inr Cons e z by (auto simp: replay_message_def io_combinators split: sum.splits)
      show ?thesis
      proof (cases z)
        case (Inl e)
        from xadd_xdel_Inl [OF move [unfolded Inl] apart] same
        consider "entries S (w_redis u) = entries S (w_redis w)"
          | j E where "appended (mq_stream_name q) (replay_fields fs) (Some (mq_max_len q)) j (entries S (w_redis w)) E"
            "deleted ?d i E (entries S (w_redis u))" by auto
        then show ?thesis
        proof cases
          case 1
          with x Inl w' show ?thesis by (intro raised [of e]) auto
        next
          case (2 j E)
          with mem id w' have "\<exists>j l fs E. (l, fs) \<in> set ?es \<and> (i \<in> fst ` set ?es \<longrightarrow> l = i) \<and>
              appended (mq_stream_name q) (replay_fields fs) (Some (mq_max_len q)) j (entries S (w_redis w)) E \<and>
              deleted ?d i E (entries S (w_redis w'))" by blast
          with x Inl show ?thesis by (intro raised [of e]) simp_all
        qed
      next
        case (Inr p)
        obtain j k where p: "p = (j, k)" by fastforce
        with xadd_xdel_Inr [OF move [unfolded Inr, unfolded this] apart] same obtain E where
          "appended (mq_stream_name q) (replay_fields fs) (Some (mq_max_len q)) j (entries S (w_redis w)) E"
          "deleted ?d i E (entries S (w_redis u))" by auto
        from moved [OF _ mem id this [folded w']] x Inr p show ?thesis by simp
      qed
    qed
  qed
qed

end

text \<open>
  A letter of the dead letter stream of \<open>s\<close> became the entry \<open>j\<close> of \<open>s\<close>, and at most one letter is
  gone. For the id of a letter it is that letter in both cases.
\<close>

definition moved_back :: "'r redis_streams \<Rightarrow> string \<Rightarrow> string \<Rightarrow> string \<Rightarrow> 'r world \<Rightarrow> 'r world \<Rightarrow> bool" where
  "moved_back S s i j w w' \<longleftrightarrow> (\<exists>l fs x. (l, fs) \<in> set (entries S (w_redis w) (s @ '':dead'')) \<and>
     (j, replay_fields fs) \<in> set (entries S (w_redis w') s) \<and>
     j \<notin> fst ` set (entries S (w_redis w) s) \<and>
     entries S (w_redis w') (s @ '':dead'')
       = filter (\<lambda>e. fst e \<noteq> x) (entries S (w_redis w) (s @ '':dead'')) \<and>
     (i \<in> fst ` set (entries S (w_redis w) (s @ '':dead'')) \<longrightarrow> l = i \<and> x = i))"

lemma moved_backI:
  assumes "(l, fs) \<in> set (entries S (w_redis w) (s @ '':dead''))"
    and "i \<in> fst ` set (entries S (w_redis w) (s @ '':dead'')) \<Longrightarrow> l = i"
    and added: "appended s (replay_fields fs) n j (entries S (w_redis w)) E"
    and "deleted (s @ '':dead'') i E (entries S (w_redis w'))"
  shows "moved_back S s i j w w'"
proof -
  have "E (s @ '':dead'') = entries S (w_redis w) (s @ '':dead'')"
    using appended_other [OF added] by simp
  with assms(4) obtain x where
    x: "entries S (w_redis w') = E(s @ '':dead'' := filter (\<lambda>e. fst e \<noteq> x) (entries S (w_redis w) (s @ '':dead'')))"
    "i \<in> fst ` set (entries S (w_redis w) (s @ '':dead'')) \<Longrightarrow> x = i"
    by (auto simp: deleted_def)
  have "(j, replay_fields fs) \<in> set (entries S (w_redis w') s)" "j \<notin> fst ` set (entries S (w_redis w) s)"
    using appended_mem [OF added] added by (auto simp: x(1) appended_def)
  with assms(1,2) x show ?thesis unfolding moved_back_def by fastforce
qed

text \<open>
  C30. What a replay does for any text an administrator sends as the id. It raises, with nothing done
  or the whole transaction done; it finds nothing and changes nothing, and then there is no letter
  with this id; or the fields of a letter, with the attempts reset, are a new entry of the queue. For
  the id of a letter it is this letter that is copied and exactly this letter that leaves the dead
  letter stream, so it is replayed at most once. For another text that Redis completes to
  an id, the copied letter need not be the one that leaves; at most one leaves.
\<close>

theorem replay_moves_dead_letter:
  assumes server: "redis_stream_server S" and run: "replay_message S (message_queue s n) i w = (x, w')"
  shows "case x of
      Inl e \<Rightarrow> entries S (w_redis w') = entries S (w_redis w) \<or> (\<exists>j. moved_back S s i j w w')
    | Inr None \<Rightarrow> entries S (w_redis w') = entries S (w_redis w) \<and>
        i \<notin> fst ` set (entries S (w_redis w) (s @ '':dead''))
    | Inr (Some j) \<Rightarrow> moved_back S s i j w w'"
proof -
  have apart: "mq_dead_letter_stream (message_queue s n) \<noteq> mq_stream_name (message_queue s n)"
    and names: "mq_dead_letter_stream (message_queue s n) = s @ '':dead''" "mq_stream_name (message_queue s n) = s"
    by (simp_all add: message_queue_def)
  show ?thesis
  proof (rule redis_stream_server.replay_cases [OF server run apart], goal_cases)
    case (2 j l fs E)
    then show ?case unfolding names by (auto intro: moved_backI)
  next
    case 3
    then show ?case unfolding names by (auto intro: moved_backI)
  qed (auto simp: names)
qed

text \<open>An id without its sequence number: the letter is replayed and stays a dead letter.\<close>

definition incomplete_world :: "ref_state world" where
  "incomplete_world = due_world\<lparr>w_redis := due_pool\<lparr>rs_streams :=
     (\<lambda>s. if s = ''pending_orders_queue:dead'' then [(''123-1'', dead_fields due_queue_message ''1002.5'')] else [])\<rparr>\<rparr>"

lemma incomplete_id_duplicates: "checked (\<lambda>(x, w). x = Inr ''2'' \<and>
    map fst (entries ref_streams (w_redis w) ''pending_orders_queue:dead'') = [''123-1''] \<and>
    map fst (entries ref_streams (w_redis w) ''pending_orders_queue'') = [''2''])
  (replay_dlq_dashboard ref_streams ''123'' incomplete_world)"
  by code_simp

theorem replay_moves_dead_letter_witness:
  "moved_back ref_streams ''pending_orders_queue'' ''2'' ''3'' (snd burial) (snd sample_replay)"
proof -
  have "replay_message ref_streams default_queue ''2'' (snd burial) = (Inr (Some ''3''), snd sample_replay)"
    using sample_replay_read(1)
    by (auto simp: sample_replay_def replay_dlq_dashboard_def io_combinators prod_eq_iff
        split: prod.splits sum.splits option.splits)
  from replay_moves_dead_letter [OF ref.redis_stream_server_axioms this [unfolded default_queue_def]]
  show ?thesis by simp
qed

text \<open>
  C29. A message survives the dead letter queue: what the worker moved there and an administrator
  replayed is read again with the same data and no attempts, and it is no dead letter any more.
  Its time is that of the new read, since the worker does not keep \<open>created_at\<close>.
\<close>

theorem dead_letter_replay_roundtrip:
  assumes server: "redis_stream_server S" and queue: "wk_queue K = default_queue"
    and dead: "move_to_dead_letter S K now m w = (Inr i, w1)"
    and replay: "replay_dlq_dashboard S i w1 = (Inr j, w2)"
    and read: "read_messages S fl t c n w2 = (Inr ms, w3)" "m' \<in> set ms" "m_id m' = j"
    and c: "cg_stream_name c = ''pending_orders_queue''" and wf: "wf_json fl (m_data m)"
  shows "m' = \<lparr>m_id = j, m_stream = ''pending_orders_queue'', m_data = m_data m, m_attempts = 0,
      m_created_at = t\<rparr> \<and>
    i \<notin> fst ` set (entries S (w_redis w2) ''pending_orders_queue:dead'')"
proof -
  let ?s = "''pending_orders_queue''" and ?d = "''pending_orders_queue:dead''"
  have names: "mq_dead_letter_stream default_queue = ?d" "mq_stream_name default_queue = ?s"
    by (simp_all add: default_queue_def message_queue_def)
  from dead have "xadd S ?d (dead_fields m now) None (w_redis w) = (Inr i, w_redis w1)"
    by (auto simp: move_to_dead_letter_def queue names dest: on_redis_world)
  note added = redis_stream_server.xadd_Inr [OF server this]
  have buried: "i \<in> fst ` set (entries S (w_redis w1) ?d)" using appended_mem added by force
  have letter: "fs = dead_fields m now" if "(i, fs) \<in> set (entries S (w_redis w1) ?d)" for fs
    using that added by (auto simp: appended_def) force+
  from replay have "replay_message S default_queue i w1 = (Inr (Some j), w2)"
    by (auto simp: replay_dlq_dashboard_def io_combinators split: prod.splits sum.splits option.splits)
  then obtain l fs E where "(l, fs) \<in> set (entries S (w_redis w1) ?d)"
    and "i \<in> fst ` set (entries S (w_redis w1) ?d) \<Longrightarrow> l = i"
    and E: "appended ?s (replay_fields fs) (Some (mq_max_len default_queue)) j (entries S (w_redis w1)) E"
    and del: "deleted ?d i E (entries S (w_redis w2))"
    by (cases rule: redis_stream_server.replay_cases [OF server]) (auto simp: names)
  with buried have fs: "(i, fs) \<in> set (entries S (w_redis w1) ?d)" by auto
  have "E ?d = entries S (w_redis w1) ?d" using appended_other [OF E] by simp
  with del buried have w2: "entries S (w_redis w2) = E(?d := filter (\<lambda>e. fst e \<noteq> i) (E ?d))"
    by (auto simp: deleted_def)
  have new: "gs = replay_fields (dead_fields m now)" if "(j, gs) \<in> set (entries S (w_redis w2) ?s)" for gs
    using that E letter [OF fs] unfolding w2 by (auto simp: appended_def dest!: in_set_dropD) force+
  from redis_stream_server.read_entry [OF server read(1,2)] read(3) c obtain gs where
    "(j, gs) \<in> set (entries S (w_redis w2) ?s)"
    "to_message fl t ?s (\<lambda>fs. int_field fs ''attempts'') (j, gs) = Inr m'" by auto
  with new have "to_message fl t ?s (\<lambda>fs. int_field fs ''attempts'')
      (j, replay_fields (dead_fields m now)) = Inr m'" by blast
  moreover have "py_int ''0'' = Some 0" by code_simp
  ultimately have "m' = \<lparr>m_id = j, m_stream = ?s, m_data = m_data m, m_attempts = 0, m_created_at = t\<rparr>"
    using wf by (simp add: to_message_def json_field_def field_get_def int_field_def float_field_def
        replay_dead_fields loads_dumps_value)
  moreover have "i \<notin> fst ` set (entries S (w_redis w2) ?d)" unfolding w2 by auto
  ultimately show ?thesis by blast
qed

theorem dead_letter_replay_roundtrip_witness:
  "again_message = \<lparr>m_id = ''3'', m_stream = ''pending_orders_queue'', m_data = m_data due_queue_message,
     m_attempts = 0, m_created_at = ''1003.5''\<rparr> \<and>
   ''2'' \<notin> fst ` set (entries ref_streams (w_redis (snd sample_replay)) ''pending_orders_queue:dead'')"
proof (rule dead_letter_replay_roundtrip [OF ref.redis_stream_server_axioms])
  show "wk_queue sample_worker = default_queue" by (simp add: sample_worker_def)
  show "move_to_dead_letter ref_streams sample_worker ''1002.5'' due_queue_message due_world
      = (Inr ''2'', snd burial)"
    using sample_burial(1) by (simp add: burial_def prod_eq_iff)
  show "replay_dlq_dashboard ref_streams ''2'' (snd burial) = (Inr ''3'', snd sample_replay)"
    using sample_replay_read(1) by (simp add: sample_replay_def prod_eq_iff)
  show "read_messages ref_streams Some ''1003.5'' payment_group 10 (snd sample_replay)
      = (Inr [again_message], snd read_again)"
    using sample_replay_read(2) by (simp add: read_again_def prod_eq_iff)
  show "wf_json Some (m_data due_queue_message)" by code_simp
qed (simp_all add: again_message_def payment_group_def consumer_group_def default_queue_def message_queue_def)

end
