(* ===== verification/Startup.thy ===== *)
theory Startup
  imports Orders
begin

text \<open>
  The start of the service: \<open>AmountSeeder\<close> of app/db/redis_db.py, the keyset pagination of the
  pending intents in app/modules/order/service.py, and \<open>lifespan\<close> of app/main.py up to the start
  of the scheduler, which runs \<open>process_outbox_event\<close> (see Outbox) every minute. Then the page of
  pending orders for administrators.

  The tables are those of one moment: what other sessions commit between two pages is left out.
\<close>

subsection \<open>Seeding the amounts\<close>

function batches :: "nat \<Rightarrow> 'a list \<Rightarrow> 'a list list" where
  "batches n xs = (if xs = [] \<or> n = 0 then [] else take n xs # batches n (drop n xs))"
  by auto

termination batches
  by (relation "measure (\<lambda>(n, xs). length xs)") auto

declare batches.simps [simp del]

fun add_batches :: "'r redis_sets \<Rightarrow> string \<Rightarrow> string list list \<Rightarrow> 'r world \<Rightarrow> (exn + unit) \<times> 'r world" where
  "add_batches R key [] = return_io ()"
| "add_batches R key (b # bs) = bind_io (on_redis (sadd R key b)) (\<lambda>_. add_batches R key bs)"

definition is_exist_range_amount :: "'r redis_sets \<Rightarrow> int \<Rightarrow> int \<Rightarrow> nat
    \<Rightarrow> 'r world \<Rightarrow> (exn + unit) \<times> 'r world" where
  "is_exist_range_amount R start end batch =
     bind_io (on_redis (rexists R ''amounts'')) (\<lambda>ok.
     if ok then return_io ()
     else add_batches R ''amounts'' (batches batch (map py_str [start..end])))"

subsection \<open>Pages of pending intents\<close>

definition pending_after :: "int \<Rightarrow> db \<Rightarrow> payment_intent_row list" where
  "pending_after l d = sort_key pi_id (filter (\<lambda>p. pi_status p = OS_PENDING \<and> pi_id p > l) (payment_intents d))"

lemma last_after: "take limit (pending_after l d) \<noteq> [] \<Longrightarrow>
    last (take limit (pending_after l d)) \<in> set (payment_intents d) \<and>
    pi_status (last (take limit (pending_after l d))) = OS_PENDING \<and>
    l < pi_id (last (take limit (pending_after l d)))"
  using in_set_takeD [OF last_in_set, of limit "pending_after l d"] by (auto simp: pending_after_def)

function get_all_pending_orders :: "nat \<Rightarrow> db \<Rightarrow> int \<Rightarrow> payment_intent_row list list" where
  "get_all_pending_orders limit d last_order =
     (let page = take limit (pending_after last_order d) in
      if page = [] then []
      else page # get_all_pending_orders limit d (pi_id (last page)))"
  by auto

termination get_all_pending_orders
proof (relation "measure (\<lambda>(limit, d, l). length (filter (\<lambda>p. pi_id p > l) (payment_intents d)))")
  fix limit :: nat and d l page
  assume "page = take limit (pending_after l d)" and "page \<noteq> []"
  with last_after [of limit l d] have last: "last page \<in> set (payment_intents d)" "l < pi_id (last page)"
    by auto
  have "length (filter (\<lambda>p. pi_id p > pi_id (last page)) (payment_intents d))
      < length (filter (\<lambda>p. pi_id p > l) (payment_intents d))"
  proof -
    have "filter (\<lambda>p. pi_id p > pi_id (last page)) (payment_intents d) =
        filter (\<lambda>p. pi_id p > pi_id (last page)) (filter (\<lambda>p. pi_id p > l) (payment_intents d))"
      using last(2) by (auto intro!: filter_cong)
    also have "length \<dots> < length (filter (\<lambda>p. pi_id p > l) (payment_intents d))"
      using last by (intro length_filter_less [of "last page"]) auto
    finally show ?thesis .
  qed
  then show "((limit, d, pi_id (last page)), limit, d, l)
      \<in> measure (\<lambda>(limit, d, l). length (filter (\<lambda>p. pi_id p > l) (payment_intents d)))" by simp
qed simp

declare get_all_pending_orders.simps [simp del]

subsection \<open>\<open>lifespan\<close>\<close>

definition REDIS_BUFFER :: nat where "REDIS_BUFFER = 1000"

fun fill_pending :: "'r redis_sets \<Rightarrow> int list \<Rightarrow> payment_intent_row list list
    \<Rightarrow> 'r world \<Rightarrow> (exn + unit) \<times> 'r world" where
  "fill_pending R buffer [] =
     (if buffer \<noteq> [] then bind_io (on_redis (sadd R ''pending_orders'' (map py_str buffer))) (\<lambda>_. return_io ())
      else return_io ())"
| "fill_pending R buffer (page # pages) =
     (let extended = buffer @ map pi_exact_amount page in
      if length extended \<ge> REDIS_BUFFER then
        bind_io (on_redis (sadd R ''pending_orders'' (map py_str extended))) (\<lambda>_. fill_pending R [] pages)
      else fill_pending R extended pages)"

definition lifespan :: "'r redis_sets \<Rightarrow> 'r world \<Rightarrow> (exn + unit) \<times> 'r world" where
  "lifespan R =
     bind_io (is_exist_range_amount R 1500000 1550000 10000) (\<lambda>_.
     bind_io (get_db
       (bind_io (on_redis (rdel R ''pending_orders'')) (\<lambda>_.
        bind_io (get_io (\<lambda>w. get_all_pending_orders 100 (w_session w) 0)) (\<lambda>pages.
        fill_pending R [] pages)))) (\<lambda>_.
     bind_io (on_redis (sdiffstore R ''free_amounts'' ''amounts'' ''pending_orders'')) (\<lambda>_.
     return_io ())))"

subsection \<open>The page of an administrator\<close>

record admin_order =
  ao_order :: order_row
  ao_user :: user_row
  ao_payment :: payment_intent_row

record admin_page =
  ap_next_cursor :: "int option"
  ap_orders :: "admin_order list"

text \<open>The rows that the joined loads attach to an intent: its order and the order's user.\<close>

definition admin_orders :: "db \<Rightarrow> payment_intent_row \<Rightarrow> admin_order list" where
  "admin_orders d p = concat (map (\<lambda>ord. map (\<lambda>u. \<lparr>ao_order = ord, ao_user = u, ao_payment = p\<rparr>)
     (filter (\<lambda>u. u_id u = o_user_id ord) (users d)))
     (filter (\<lambda>ord. o_id ord = pi_order_id p) (orders d)))"

text \<open>\<open>if cursor\<close>: None and 0 give the first page.\<close>

definition get_pending_orders :: "nat \<Rightarrow> int option \<Rightarrow> db \<Rightarrow> exn + admin_page" where
  "get_pending_orders limit cursor d =
     (let intents = (case cursor of
          None \<Rightarrow> filter (\<lambda>p. pi_status p = OS_PENDING) (payment_intents d)
        | Some c \<Rightarrow> filter (\<lambda>p. pi_status p = OS_PENDING \<and> (c = 0 \<or> pi_id p > c)) (payment_intents d));
        rows = take limit (sort_key pi_id intents)
      in if (case cursor of None \<Rightarrow> False | Some c \<Rightarrow> \<not> int4 c) then Inl (Exn DBAPIError ''value out of int32 range'')
         else Inr \<lparr>ap_next_cursor = (if rows = [] then None else Some (pi_id (last rows))),
           ap_orders = concat (map (admin_orders d) rows)\<rparr>)"

text \<open>The page before it is rendered (see Responses).\<close>

definition get_all_users_orders :: "nat \<Rightarrow> int option \<Rightarrow> 'r world \<Rightarrow> (exn + admin_page) \<times> 'r world" where
  "get_all_users_orders limit cursor =
     (if limit < 1 \<or> 100 < limit then raise_io (Http 422 ''limit'')
      else
        get_db (on_session (get_pending_orders limit cursor)))"

end
