(* ===== verification/Startup_Safety.thy ===== *)
theory Startup_Safety
  imports Startup Samples "HOL-Library.Multiset"
begin

text \<open>
  What the start of the service guarantees: keyset pagination enumerates every pending intent
  once; the pool of amounts is rebuilt from the database; and what an interrupted seeding costs.
\<close>

subsection \<open>Keyset pagination\<close>

lemma keyset_rest:
  fixes f :: "'a \<Rightarrow> int"
  assumes "sorted (map f xs)" and "distinct (map f xs)" and "take n xs \<noteq> []"
  shows "filter (\<lambda>x. f x > f (last (take n xs))) xs = drop n xs"
proof -
  let ?l = "last (take n xs)"
  have xs: "xs = take n xs @ drop n xs" by simp
  have l: "?l \<in> set (take n xs)" using assms(3) by (rule last_in_set)
  have "map f (take n xs) @ map f (drop n xs) = map f xs" by (simp flip: map_append)
  with assms(1,2) have sorted: "sorted (map f (take n xs) @ map f (drop n xs))" and
    distinct: "distinct (map f (take n xs) @ map f (drop n xs))" by simp_all
  have "f x \<le> f ?l" if "x \<in> set (take n xs)" for x
  proof -
    from assms(3) have "take n xs = butlast (take n xs) @ [?l]" by simp
    with sorted have "sorted (map f (butlast (take n xs)) @ [f ?l])"
      by (metis list.simps(8,9) map_append sorted_append)
    moreover from that assms(3) have "x \<in> set (butlast (take n xs)) \<or> x = ?l"
      by (metis append_butlast_last_id in_set_conv_decomp_last set_ConsD set_append Un_iff empty_iff list.set(1))
    ultimately show ?thesis by (auto simp: sorted_append)
  qed
  then have none: "filter (\<lambda>x. f x > f ?l) (take n xs) = []" by (force simp: filter_empty_conv)
  have "f x > f ?l" if "x \<in> set (drop n xs)" for x
  proof -
    from sorted l that have "f ?l \<le> f x" by (auto simp: sorted_append)
    moreover from distinct l that have "f ?l \<noteq> f x"
      by (metis (no_types, lifting) disjoint_iff distinct_append image_eqI list.set_map)
    ultimately show ?thesis by simp
  qed
  then have "filter (\<lambda>x. f x > f ?l) (drop n xs) = drop n xs" by (simp add: filter_id_conv)
  with none show ?thesis by (subst xs) (simp only: filter_append append_Nil)
qed

lemma distinct_sort_key: "distinct (map f (sort_key f xs)) = distinct (map f (xs :: 'a list))"
  for f :: "'a \<Rightarrow> int"
proof -
  have "mset (map f (sort_key f xs)) = mset (map f xs)" by simp
  then show ?thesis by (metis mset_eq_imp_distinct_iff)
qed

lemma valid_intent_keys: "valid_db d \<Longrightarrow> distinct (map pi_id (payment_intents d))"
  by (simp add: valid_db_def integrity_def primary_keys_def)

lemma pending_after_rest:
  assumes "valid_db d" and "take n (pending_after l d) \<noteq> []"
  shows "pending_after (pi_id (last (take n (pending_after l d)))) d = drop n (pending_after l d)"
proof -
  let ?last = "last (take n (pending_after l d))"
  have "l < pi_id ?last" using last_after [OF assms(2)] by simp
  then have "filter (\<lambda>p. pi_status p = OS_PENDING \<and> pi_id p > pi_id ?last) (payment_intents d) =
      filter (\<lambda>p. pi_id p > pi_id ?last) (filter (\<lambda>p. pi_status p = OS_PENDING \<and> pi_id p > l) (payment_intents d))"
    by (auto intro!: filter_cong)
  then have "pending_after (pi_id ?last) d = filter (\<lambda>p. pi_id p > pi_id ?last) (pending_after l d)"
    by (simp add: pending_after_def filter_sort)
  also have "\<dots> = drop n (pending_after l d)"
  proof (rule keyset_rest [OF _ _ assms(2)])
    show "sorted (map pi_id (pending_after l d))" by (simp add: pending_after_def)
    show "distinct (map pi_id (pending_after l d))"
      unfolding pending_after_def distinct_sort_key by (simp add: distinct_map_filter valid_intent_keys assms(1))
  qed
  finally show ?thesis .
qed

lemma pages_concat:
  assumes "valid_db d" and "0 < limit"
  shows "concat (get_all_pending_orders limit d l) = pending_after l d"
  using assms
proof (induction limit d l rule: get_all_pending_orders.induct)
  case (1 limit d l)
  let ?page = "take limit (pending_after l d)"
  show ?case
  proof (cases "?page = []")
    case True
    with 1(3) show ?thesis by (simp add: get_all_pending_orders.simps [of limit d l])
  next
    case False
    from 1(1) [OF refl False 1(2,3)] have
      "concat (get_all_pending_orders limit d (pi_id (last ?page))) = pending_after (pi_id (last ?page)) d" .
    then have "concat (get_all_pending_orders limit d l) = ?page @ pending_after (pi_id (last ?page)) d"
      using False by (simp add: get_all_pending_orders.simps [of limit d l] Let_def)
    with pending_after_rest [OF 1(2) False] show ?thesis by simp
  qed
qed

lemma pages_bounded:
  "page \<in> set (get_all_pending_orders limit d l) \<Longrightarrow> page \<noteq> [] \<and> length page \<le> limit"
proof (induction limit d l rule: get_all_pending_orders.induct)
  case (1 limit d l)
  then show ?case
    by (cases "take limit (pending_after l d) = []")
      (auto simp: get_all_pending_orders.simps [of limit d l] Let_def)
qed

text \<open>
  Keyset pagination enumerates the pending intents: the pages of \<open>get_all_pending_orders\<close>, each with
  at most \<open>limit\<close> rows, end after the last one, and put together are what one query without a
  limit would return: every PENDING intent exactly once, in the order of the keys.
\<close>

lemma pending_pages_enumerate:
  assumes "valid_db d" and "0 < limit"
  shows "concat (get_all_pending_orders limit d l) = pending_after l d \<and>
    list_all (\<lambda>page. page \<noteq> [] \<and> length page \<le> limit) (get_all_pending_orders limit d l) \<and>
    distinct (map pi_id (concat (get_all_pending_orders limit d l)))"
proof -
  have "distinct (map pi_id (pending_after l d))"
    unfolding pending_after_def distinct_sort_key by (simp add: distinct_map_filter valid_intent_keys assms(1))
  with pages_concat [OF assms] pages_bounded show ?thesis by (auto simp: list_all_iff)
qed

definition two_pending :: db where
  "two_pending = add_order (new_order (sample_attempt\<lparr>at_order_id := 2\<rparr>) 7 1500000)
     (new_payment_intent (sample_attempt\<lparr>at_order_id := 2, at_intent_id := 2\<rparr>) 1500000 1500003) due_db"

lemma valid_two_pending: "valid_db two_pending"
  by code_simp

lemma pending_pages_enumerate_witness:
  "concat (get_all_pending_orders 1 two_pending 0) = pending_after 0 two_pending \<and>
   distinct (map pi_id (concat (get_all_pending_orders 1 two_pending 0))) \<and>
   map pi_id (pending_after 0 two_pending) = [1, 2]"
proof -
  have "map pi_id (pending_after 0 two_pending) = [1, 2]" by code_simp
  with pending_pages_enumerate [OF valid_two_pending, of 1 0, OF zero_less_one] show ?thesis by blast
qed

subsection \<open>The pool at the start\<close>

lemma batches_concat: "0 < n \<Longrightarrow> concat (batches n xs) = xs"
proof (induction n xs rule: batches.induct)
  case (1 n xs)
  show ?case
  proof (cases "xs = []")
    case True
    then show ?thesis by (simp add: batches.simps [of n "[]"])
  next
    case False
    with 1 show ?thesis by (subst batches.simps) simp
  qed
qed

definition pending_amounts :: "db \<Rightarrow> string set" where
  "pending_amounts d = (\<lambda>p. py_str (pi_exact_amount p)) ` {p \<in> set (payment_intents d). pi_status p = OS_PENDING}"

definition amount_range :: "int \<Rightarrow> int \<Rightarrow> string set" where
  "amount_range a b = py_str ` {a..b}"

definition db_same :: "'r world \<Rightarrow> 'r world \<Rightarrow> bool" where
  "db_same w w' \<longleftrightarrow> w_committed w' = w_committed w \<and> w_session w' = w_session w"

lemma db_same_simps [simp]: "db_same w w"
  by (simp add: db_same_def)

lemma db_same_trans: "db_same w w1 \<Longrightarrow> db_same w1 w2 \<Longrightarrow> db_same w w2"
  by (simp add: db_same_def)

lemma added_added [simp]: "added k ys (added k xs S) = added k (xs @ ys) S"
  by (auto simp: added_def fun_eq_iff)

lemma added_Nil [simp]: "added k [] S = S"
  by (simp add: added_def fun_eq_iff)

context redis_set_server
begin

lemma on_sadd:
  assumes "on_redis (sadd R k xs) w = (Inr n, w')"
  shows "db_same w w'" and "smembers R (w_redis w') = added k xs (smembers R (w_redis w))"
  using on_redis_world [OF assms] sadd_Inr by (auto simp: db_same_def)

lemma add_batches_Inr:
  "add_batches R k bs w = (Inr u, w') \<Longrightarrow> db_same w w' \<and>
   smembers R (w_redis w') = added k (concat bs) (smembers R (w_redis w))"
proof (induction bs arbitrary: w)
  case Nil
  then show ?case by (simp add: return_io_def)
next
  case (Cons b bs)
  from Cons.prems obtain n w1 where add: "on_redis (sadd R k b) w = (Inr n, w1)"
    and rest: "add_batches R k bs w1 = (Inr u, w')" by (auto elim: bind_io_returnsE)
  from Cons.IH [OF rest] on_sadd [OF add] show ?case by (auto intro: db_same_trans)
qed

lemma seeding:
  assumes "is_exist_range_amount R a b n w = (Inr u, w')" and "0 < n"
  shows "db_same w w'" and "smembers R (w_redis w') =
    (if smembers R (w_redis w) ''amounts'' = {} then (smembers R (w_redis w))(''amounts'' := amount_range a b)
     else smembers R (w_redis w))"
proof -
  from assms(1) obtain ok w1 where ex: "on_redis (rexists R ''amounts'') w = (Inr ok, w1)"
    and rest: "(if ok then return_io () else add_batches R ''amounts'' (batches n (map py_str [a..b]))) w1 = (Inr u, w')"
    by (auto simp: is_exist_range_amount_def elim: bind_io_returnsE)
  note w1 = on_redis_world [OF ex]
  from rexists_Inr w1 have ok: "ok \<longleftrightarrow> smembers R (w_redis w) ''amounts'' \<noteq> {}" by blast
  have same: "smembers R (w_redis w1) = smembers R (w_redis w)" by (rule rexists_same) (use w1 in blast)
  have db: "db_same w w1" using w1 by (simp add: db_same_def)
  have "db_same w w' \<and> smembers R (w_redis w') =
    (if smembers R (w_redis w) ''amounts'' = {} then (smembers R (w_redis w))(''amounts'' := amount_range a b)
     else smembers R (w_redis w))"
  proof (cases ok)
    case True
    with rest ok same db show ?thesis by (simp add: return_io_def)
  next
    case False
    with rest have "add_batches R ''amounts'' (batches n (map py_str [a..b])) w1 = (Inr u, w')" by simp
    from add_batches_Inr [OF this] ok same db False assms(2) show ?thesis
      by (simp add: batches_concat db_same_trans [OF db] added_def amount_range_def)
  qed
  then show "db_same w w'" and "smembers R (w_redis w') =
    (if smembers R (w_redis w) ''amounts'' = {} then (smembers R (w_redis w))(''amounts'' := amount_range a b)
     else smembers R (w_redis w))" by blast+
qed

lemma filled:
  "fill_pending R buffer pages w = (Inr u, w') \<Longrightarrow> db_same w w' \<and>
   smembers R (w_redis w') = added ''pending_orders''
     (map py_str (buffer @ map pi_exact_amount (concat pages))) (smembers R (w_redis w))"
proof (induction pages arbitrary: buffer w)
  case Nil
  then show ?case
    by (cases "buffer = []") (auto simp: return_io_def on_sadd elim!: bind_io_returnsE)
next
  case (Cons page pages)
  let ?ext = "buffer @ map pi_exact_amount page"
  show ?case
  proof (cases "length ?ext \<ge> REDIS_BUFFER")
    case True
    with Cons.prems obtain n w1 where add: "on_redis (sadd R ''pending_orders'' (map py_str ?ext)) w = (Inr n, w1)"
      and rest: "fill_pending R [] pages w1 = (Inr u, w')" by (auto simp: Let_def elim!: bind_io_returnsE)
    from Cons.IH [OF rest] on_sadd [OF add] show ?thesis by (auto intro: db_same_trans)
  next
    case False
    with Cons.prems have "fill_pending R ?ext pages w = (Inr u, w')" by (simp add: Let_def)
    from Cons.IH [OF this] show ?thesis by simp
  qed
qed

lemma deleting:
  assumes "on_redis (rdel R k) w = (Inr n, w')"
  shows "db_same w w'" and "smembers R (w_redis w') = (smembers R (w_redis w))(k := {})"
  using on_redis_world [OF assms] rdel_Inr by (auto simp: db_same_def)

lemma storing_difference:
  assumes "on_redis (sdiffstore R dst a b) w = (Inr n, w')"
  shows "smembers R (w_redis w') = diff_stored dst a b (smembers R (w_redis w))"
  using on_redis_world [OF assms] sdiffstore_Inr by auto

lemma lifespan_sets:
  assumes "lifespan R w = (Inr u, w')" and "valid_db (w_session w)"
  shows "smembers R (w_redis w') = (let S = smembers R (w_redis w);
      amounts = (if S ''amounts'' = {} then amount_range 1500000 1550000 else S ''amounts'');
      pending = set (map (py_str \<circ> pi_exact_amount) (pending_after 0 (w_session w)))
    in S(''amounts'' := amounts, ''pending_orders'' := pending, ''free_amounts'' := amounts - pending))"
proof -
  from assms(1) obtain u1 w1 u2 w2 n w3 where
    seed: "is_exist_range_amount R 1500000 1550000 10000 w = (Inr u1, w1)" and
    db: "get_db (bind_io (on_redis (rdel R ''pending_orders'')) (\<lambda>_.
        bind_io (get_io (\<lambda>w. get_all_pending_orders 100 (w_session w) 0)) (\<lambda>pages.
        fill_pending R [] pages))) w1 = (Inr u2, w2)" and
    diff: "on_redis (sdiffstore R ''free_amounts'' ''amounts'' ''pending_orders'') w2 = (Inr n, w3)" and
    w': "w' = w3"
    by (auto simp: lifespan_def return_io_def elim!: bind_io_returnsE)
  from db obtain n2 v1 v2 where del: "on_redis (rdel R ''pending_orders'') w1 = (Inr n2, v1)" and
    fill: "fill_pending R [] (get_all_pending_orders 100 (w_session v1) 0) v1 = (Inr u2, v2)" and
    w2: "w_redis w2 = w_redis v2"
    by (auto simp: get_db_def get_io_def rollback_def split: prod.splits elim!: bind_io_returnsE)
  have session: "w_session v1 = w_session w"
    using seeding(1) [OF seed] deleting(1) [OF del] by (simp add: db_same_def)
  from pages_concat [OF assms(2), of 100 0] have
    pages: "concat (get_all_pending_orders 100 (w_session v1) 0) = pending_after 0 (w_session w)"
    by (simp add: session)
  show ?thesis
    using seeding(2) [OF seed] deleting(2) [OF del] filled [OF fill] storing_difference [OF diff]
    by (simp add: pages w' w2 Let_def added_def diff_stored_def fun_eq_iff)
qed

lemma add_batches_Inl:
  "add_batches R k bs w = (Inl e, w') \<Longrightarrow>
   \<exists>i. smembers R (w_redis w') = added k (concat (take i bs)) (smembers R (w_redis w))"
proof (induction bs arbitrary: w)
  case Nil
  then show ?case by (simp add: return_io_def)
next
  case (Cons b bs)
  show ?case
  proof (cases "on_redis (sadd R k b) w")
    case (Pair reply w1)
    show ?thesis
    proof (cases reply)
      case (Inl e1)
      with Pair Cons.prems have "w' = w1" by (simp add: bind_io_def)
      moreover from on_redis_world [OF Pair] Inl sadd_Inl have
        "smembers R (w_redis w1) = smembers R (w_redis w) \<or>
         smembers R (w_redis w1) = added k b (smembers R (w_redis w))" by blast
      ultimately show ?thesis by (auto intro: exI [of _ 0] exI [of _ 1])
    next
      case (Inr n)
      with Pair Cons.prems have "add_batches R k bs w1 = (Inl e, w')" by (simp add: bind_io_def)
      from Cons.IH [OF this] obtain i where
        "smembers R (w_redis w') = added k (concat (take i bs)) (smembers R (w_redis w1))" by blast
      with on_sadd(2) [OF Pair [unfolded Inr]] show ?thesis by (intro exI [of _ "Suc i"]) simp
    qed
  qed
qed

lemma seeding_again:
  assumes "smembers R (w_redis w) ''amounts'' \<noteq> {}" and "is_exist_range_amount R a b n w = (x, w')"
  shows "smembers R (w_redis w') = smembers R (w_redis w)"
proof (cases "on_redis (rexists R ''amounts'') w")
  case (Pair reply w1)
  from on_redis_world [OF Pair] rexists_same have same: "smembers R (w_redis w1) = smembers R (w_redis w)"
    by blast
  from on_redis_world [OF Pair] rexists_Inr assms(1) have "reply = Inr ok \<Longrightarrow> ok" for ok by blast
  with assms(2) Pair same show ?thesis
    by (cases reply) (auto simp: is_exist_range_amount_def bind_io_def return_io_def)
qed

lemma interrupted:
  assumes "is_exist_range_amount R a b n w = (Inl e, w')" and "smembers R (w_redis w) ''amounts'' = {}"
  shows "\<exists>i. smembers R (w_redis w') ''amounts'' =
    set (concat (take i (batches n (map py_str [a..b]))))"
proof (cases "on_redis (rexists R ''amounts'') w")
  case (Pair reply w1)
  from on_redis_world [OF Pair] rexists_same have same: "smembers R (w_redis w1) = smembers R (w_redis w)"
    by blast
  show ?thesis
  proof (cases reply)
    case (Inl e1)
    with assms Pair same show ?thesis
      by (auto simp: is_exist_range_amount_def bind_io_def intro: exI [of _ 0])
  next
    case (Inr ok)
    with on_redis_world [OF Pair] rexists_Inr assms(2) have "\<not> ok" by blast
    with assms(1) Pair Inr have "add_batches R ''amounts'' (batches n (map py_str [a..b])) w1 = (Inl e, w')"
      by (simp add: is_exist_range_amount_def bind_io_def)
    from add_batches_Inl [OF this] obtain i where
      "smembers R (w_redis w') = added ''amounts'' (concat (take i (batches n (map py_str [a..b])))) (smembers R (w_redis w1))"
      by blast
    with same assms(2) show ?thesis by (intro exI [of _ i]) (simp add: added_def)
  qed
qed

end

lemma take_batches:
  assumes "0 < n"
  shows "concat (take i (batches n xs)) = take (i * n) xs"
proof (induction i arbitrary: xs)
  case (Suc i)
  show ?case
  proof (cases "xs = []")
    case True
    then show ?thesis by (simp add: batches.simps [of n "[]"])
  next
    case False
    with assms have "batches n xs = take n xs # batches n (drop n xs)" by (subst batches.simps) simp
    with Suc show ?thesis by (simp add: take_add)
  qed
qed simp

text \<open>
  C14. A start that completes rebuilds the pool from the database: \<open>pending_orders\<close> holds exactly
  the exact amounts of the PENDING intents, \<open>free_amounts\<close> what is left of \<open>amounts\<close>, so that no
  amount is both free and pending, and \<open>amounts\<close> is the whole range when it was empty, and
  otherwise what it was.
\<close>

theorem startup_rebuilds_pool:
  assumes "redis_set_server R" and "valid_db (w_session w)"
    and "list_all (\<lambda>p. 0 < pi_id p) (payment_intents (w_session w))"
    and "lifespan R w = (Inr u, w')"
  shows "smembers R (w_redis w') ''pending_orders'' = pending_amounts (w_session w) \<and>
    smembers R (w_redis w') ''free_amounts'' =
      smembers R (w_redis w') ''amounts'' - pending_amounts (w_session w) \<and>
    smembers R (w_redis w') ''amounts'' =
      (if smembers R (w_redis w) ''amounts'' = {} then amount_range 1500000 1550000
       else smembers R (w_redis w) ''amounts'') \<and>
    pool_disjoint (smembers R (w_redis w'))"
proof -
  have "set (map (py_str \<circ> pi_exact_amount) (pending_after 0 (w_session w))) = pending_amounts (w_session w)"
    using assms(3) by (auto simp: pending_after_def pending_amounts_def list_all_iff)
  with redis_set_server.lifespan_sets [OF assms(1,4,2)] show ?thesis
    by (auto simp: Let_def pool_disjoint_def)
qed

definition startup_result :: "(exn + unit) \<times> ref_state world" where
  "startup_result = lifespan ref_sets due_world"

lemma startup_result_Inr: "fst startup_result = Inr ()"
  by code_simp

theorem startup_rebuilds_pool_witness:
  "smembers ref_sets (w_redis (snd startup_result)) ''pending_orders'' = {''1500001''} \<and>
   smembers ref_sets (w_redis (snd startup_result)) ''free_amounts'' = {''1500002''} \<and>
   pool_disjoint (smembers ref_sets (w_redis (snd startup_result)))"
proof -
  have run: "lifespan ref_sets due_world = (Inr (), snd startup_result)"
    using startup_result_Inr by (simp add: startup_result_def prod_eq_iff)
  have ids: "list_all (\<lambda>p. 0 < pi_id p) (payment_intents (w_session due_world))" by code_simp
  have "map (py_str \<circ> pi_exact_amount) (filter (\<lambda>p. pi_status p = OS_PENDING) (payment_intents due_db)) = [''1500001'']"
    by code_simp
  from arg_cong [OF this, of set] have pending: "pending_amounts due_db = {''1500001''}"
    by (simp add: pending_amounts_def image_comp)
  have amounts: "smembers ref_sets (w_redis due_world) ''amounts'' = {''1500002''}"
    by (simp add: ref_sets_def due_pool_def)
  from startup_rebuilds_pool [OF ref.redis_set_server_axioms _ ids run] pending amounts show ?thesis by simp
qed

text \<open>
  A seeding that was interrupted is never completed: when the connection is lost after some
  of the batches, \<open>amounts\<close> holds a prefix of the range, and every later start takes it for the
  whole of it.
\<close>

lemma interrupted_seeding_is_final:
  assumes "redis_set_server R" and "0 < n"
    and "smembers R (w_redis w) ''amounts'' = {}"
    and "is_exist_range_amount R a b n w = (Inl e, w1)"
    and "smembers R (w_redis w1) ''amounts'' \<noteq> {}"
    and "is_exist_range_amount R a b n w1 = (x, w2)"
  shows "\<exists>i. smembers R (w_redis w2) ''amounts'' = py_str ` set (take (i * n) [a..b])"
proof -
  from redis_set_server.interrupted [OF assms(1,4,3)] obtain i where
    "smembers R (w_redis w1) ''amounts'' = py_str ` set (take (i * n) [a..b])"
    by (auto simp: take_batches [OF assms(2)] take_map)
  with redis_set_server.seeding_again [OF assms(1,5,6)] show ?thesis by auto
qed


definition lost_connection :: "ref_state world" where
  "lost_connection = \<lparr>w_committed = empty_db, w_session = empty_db,
     w_redis = ref_empty\<lparr>rs_faults := [False, False, True]\<rparr>\<rparr>"

definition interrupted_result :: "(exn + unit) \<times> ref_state world" where
  "interrupted_result = is_exist_range_amount ref_sets 1 5 2 lost_connection"

definition restarted_result :: "(exn + unit) \<times> ref_state world" where
  "restarted_result = is_exist_range_amount ref_sets 1 5 2 (snd interrupted_result)"

lemma interrupted_runs:
  "fst interrupted_result = Inl (Exn RedisConnectionError ''connection lost'')"
  "rs_sets (w_redis (snd interrupted_result)) ''amounts'' = [''1'', ''2'']"
  "fst restarted_result = Inr ()"
  "rs_sets (w_redis (snd restarted_result)) ''amounts'' = [''1'', ''2'']"
  by (code_simp+)

theorem interrupted_seeding_is_final_witness:
  "fst restarted_result = Inr () \<and>
   smembers ref_sets (w_redis (snd restarted_result)) ''amounts'' = {''1'', ''2''} \<and>
   (\<exists>i. smembers ref_sets (w_redis (snd restarted_result)) ''amounts'' = py_str ` set (take (i * 2) [1..5]))"
proof -
  have 1: "is_exist_range_amount ref_sets 1 5 2 lost_connection =
      (Inl (Exn RedisConnectionError ''connection lost''), snd interrupted_result)"
    using interrupted_runs(1) by (simp add: interrupted_result_def prod_eq_iff)
  have 2: "is_exist_range_amount ref_sets 1 5 2 (snd interrupted_result) = (Inr (), snd restarted_result)"
    using interrupted_runs(3) by (simp add: restarted_result_def prod_eq_iff)
  have 3: "smembers ref_sets (w_redis lost_connection) ''amounts'' = {}"
    by (simp add: lost_connection_def ref_sets_def ref_empty_def)
  have 4: "smembers ref_sets s k = set (rs_sets s k)" for s k by (simp add: ref_sets_def)
  with interrupted_runs interrupted_seeding_is_final [OF ref.redis_set_server_axioms _ 3 1 _ 2] show ?thesis
    by simp
qed

end
