(* ===== verification/Tokens.thy ===== *)
theory Tokens
  imports World Json_Roundtrip
begin

text \<open>
  Passwords and tokens: app/modules/users/security.py, with the lookups of users it calls from
  app/modules/users/service.py, and the guard of the administrator endpoints from
  app/modules/admin/service.py.

  passlib and PyJWT are packages the program calls: a \<open>crypto\<close> record holds their functions, with
  the secret key and the algorithm applied. The expiry is kept apart from the other claims, as the
  package turns it into a number. The locales \<open>token_codec\<close> and \<open>password_hashing\<close> state what their
  documentation says.
\<close>

record crypto =
  cr_hash :: "pystr \<Rightarrow> exn + pystr"
  cr_verify :: "pystr \<Rightarrow> pystr option \<Rightarrow> exn + bool"
  cr_encode :: "(pystr \<times> json) list \<Rightarrow> int \<Rightarrow> pystr"
  cr_decode :: "int \<Rightarrow> pystr \<Rightarrow> exn + (pystr \<times> json) list"

text \<open>The claims this program signs: texts under the keys \<open>sub\<close>, \<open>jti\<close> and \<open>type\<close>.\<close>

fun text_claim :: "pystr \<times> json \<Rightarrow> bool" where
  "text_claim (k, JStr s) = (k \<in> set (map lit [''sub'', ''jti'', ''type'']) \<and> list_all scalar s)"
| "text_claim _ = False"

definition signable :: "(pystr \<times> json) list \<Rightarrow> bool" where
  "signable claims = (distinct (map fst claims) \<and> list_all text_claim claims)"

locale token_codec =
  fixes C :: crypto
  assumes decode_fresh: "signable claims \<Longrightarrow> now < expiry \<Longrightarrow>
      \<exists>payload. cr_decode C now (cr_encode C claims expiry) = Inr payload \<and>
        (\<forall>k \<in> {''sub'', ''jti'', ''type''}. dict_get payload k = dict_get claims k)"
    and decode_expired: "signable claims \<Longrightarrow> expiry \<le> now \<Longrightarrow>
      \<exists>m. cr_decode C now (cr_encode C claims expiry) = Inl (Exn ExpiredSignatureError m)"
    and encode_text: "signable claims \<Longrightarrow> list_all scalar (cr_encode C claims expiry)"

locale password_hashing =
  fixes C :: crypto
  assumes verify_hash: "cr_hash C p = Inr h \<Longrightarrow> cr_verify C p (Some h) = Inr True"
    and verify_missing: "cr_verify C q None \<noteq> Inr True"

subsection \<open>Users\<close>

text \<open>What the driver accepts as a text parameter.\<close>

definition bound_text :: "pystr \<Rightarrow> exn + pystr" where
  "bound_text s = (if text_ok s then Inr s else Inl (Exn DBAPIError ''invalid input for query argument''))"

definition query :: "(db \<Rightarrow> 'a list) \<Rightarrow> db \<Rightarrow> exn + 'a option" where
  "query rows d = result_one_or_none (Exn MultipleResultsFound ''Multiple rows were found'') (rows d)"

definition get_user_by_username :: "pystr \<Rightarrow> 'r world \<Rightarrow> (exn + user_row option) \<times> 'r world" where
  "get_user_by_username username =
     bind_io (lift_io (bound_text username)) (\<lambda>name.
     on_session (query (\<lambda>d. filter (\<lambda>u. u_username u = Some name) (users d))))"

definition get_user_by_telegram_id :: "int \<Rightarrow> 'r world \<Rightarrow> (exn + user_row option) \<times> 'r world" where
  "get_user_by_telegram_id telegram_id =
     (if int8 telegram_id then
        on_session (query (\<lambda>d. filter (\<lambda>u. u_telegram_id u = Some telegram_id) (users d)))
      else raise_io (Exn DBAPIError ''invalid input for query argument''))"

text \<open>\<open>False\<close> is \<open>None\<close>.\<close>

definition authenticate_user :: "crypto \<Rightarrow> pystr \<Rightarrow> pystr \<Rightarrow> 'r world \<Rightarrow> (exn + user_row option) \<times> 'r world" where
  "authenticate_user C username password =
     bind_io (get_user_by_username username) (\<lambda>found.
     case found of
       None \<Rightarrow> return_io None
     | Some user \<Rightarrow>
         bind_io (lift_io (cr_verify C password (u_hashed_password user))) (\<lambda>ok.
         if \<not> ok then return_io None else return_io (Some user)))"

subsection \<open>Tokens\<close>

text \<open>A \<open>timedelta\<close> in seconds; zero is false.\<close>

definition expiry :: "int \<Rightarrow> int option \<Rightarrow> int \<Rightarrow> int" where
  "expiry now expires_delta by_default =
     now + (case expires_delta of None \<Rightarrow> by_default | Some d \<Rightarrow> if d = 0 then by_default else d)"

definition create_access_token :: "crypto \<Rightarrow> int \<Rightarrow> (pystr \<times> json) list \<Rightarrow> int option \<Rightarrow> pystr" where
  "create_access_token C now data expires_delta =
     cr_encode C (dict_insert (lit ''type'') (JStr (lit ''access'')) data) (expiry now expires_delta (15 * 60))"

definition create_refresh_token :: "crypto \<Rightarrow> int \<Rightarrow> pystr \<Rightarrow> pystr \<Rightarrow> int option \<Rightarrow> pystr" where
  "create_refresh_token C now sub jti expires_delta =
     cr_encode C (dict_insert (lit ''type'') (JStr (lit ''refresh''))
         [(lit ''sub'', JStr sub), (lit ''jti'', JStr jti), (lit ''type'', JStr (lit ''refresh''))])
       (expiry now expires_delta (7 * 24 * 60 * 60))"

definition decode_refresh_token :: "crypto \<Rightarrow> int \<Rightarrow> pystr \<Rightarrow> exn + (pystr \<times> json) list" where
  "decode_refresh_token C now token = cr_decode C now token"

definition credentials_exception :: exn where
  "credentials_exception = Http 401 ''Could not validate credentials''"

text \<open>\<open>TokenData(username=...)\<close> accepts a text; the \<open>except\<close> clause is for the errors of the package.\<close>

definition token_username :: "crypto \<Rightarrow> int \<Rightarrow> pystr \<Rightarrow> exn + pystr" where
  "token_username C now token =
     (case cr_decode C now token of
        Inl e \<Rightarrow> if catches InvalidTokenError e then Inl credentials_exception else Inl e
      | Inr payload \<Rightarrow>
          if dict_get payload ''type'' \<noteq> JStr (lit ''access'') then Inl credentials_exception
          else case dict_get payload ''sub'' of
            JNull \<Rightarrow> Inl credentials_exception
          | JStr username \<Rightarrow> Inr username
          | _ \<Rightarrow> Inl (Exn ValueError ''ValidationError''))"

definition get_current_user :: "crypto \<Rightarrow> int \<Rightarrow> pystr \<Rightarrow> 'r world \<Rightarrow> (exn + user_row) \<times> 'r world" where
  "get_current_user C now token =
     bind_io (lift_io (token_username C now token)) (\<lambda>username.
     bind_io (get_user_by_username username) (\<lambda>user.
     case user of None \<Rightarrow> raise_io credentials_exception | Some u \<Rightarrow> return_io u))"

definition get_current_admin_user :: "crypto \<Rightarrow> int \<Rightarrow> pystr \<Rightarrow> 'r world \<Rightarrow> (exn + user_row) \<times> 'r world" where
  "get_current_admin_user C now token =
     bind_io (get_current_user C now token) (\<lambda>current_user.
     if u_admin current_user then return_io current_user
     else raise_io (Http 403 ''You can't access to the admin panel''))"

text \<open>\<open>GET /users/me\<close>; the response schema asks for a username, which the lookup had.\<close>

definition read_users_me :: "crypto \<Rightarrow> int \<Rightarrow> pystr \<Rightarrow> 'r world \<Rightarrow> (exn + user_row) \<times> 'r world" where
  "read_users_me C now token = get_db (get_current_user C now token)"

subsection \<open>What the functions promise\<close>

lemma dict_get_simps [simp]:
  "dict_get ((lit k', v) # kvs) k = (if k' = k then v else dict_get kvs k)"
  "dict_get [] k = JNull"
  by (simp_all add: dict_get_def)

lemma signable_access: "list_all scalar sub \<Longrightarrow>
    signable (dict_insert (lit ''type'') (JStr (lit ''access'')) [(lit ''sub'', JStr sub)])"
  by (simp add: signable_def dict_insert_def)

lemma signable_refresh: "list_all scalar sub \<Longrightarrow> list_all scalar jti \<Longrightarrow>
    signable (dict_insert (lit ''type'') (JStr (lit ''refresh''))
      [(lit ''sub'', JStr sub), (lit ''jti'', JStr jti), (lit ''type'', JStr (lit ''refresh''))])"
  by (simp add: signable_def dict_insert_def)

lemma text_ok_scalar: "text_ok s \<Longrightarrow> list_all scalar s"
  by (auto simp: text_ok_def scalar_def list_all_iff not_le)

context token_codec
begin

lemma access_token_accepted:
  assumes "list_all scalar sub" and "now < expiry issued delta (15 * 60)"
  shows "token_username C now (create_access_token C issued [(lit ''sub'', JStr sub)] delta) = Inr sub"
  using decode_fresh [OF signable_access [OF assms(1)] assms(2)]
  by (auto simp: token_username_def create_access_token_def dict_insert_def)

lemma access_token_expired:
  assumes "list_all scalar sub" and "expiry issued delta (15 * 60) \<le> now"
  shows "token_username C now (create_access_token C issued [(lit ''sub'', JStr sub)] delta) =
    Inl credentials_exception"
  using decode_expired [OF signable_access [OF assms(1)] assms(2)]
  by (auto simp: token_username_def create_access_token_def subclass_eval)

lemma refresh_token_rejected:
  assumes "list_all scalar sub" and "list_all scalar jti"
  shows "token_username C now (create_refresh_token C issued sub jti delta) = Inl credentials_exception"
proof (cases "now < expiry issued delta (7 * 24 * 60 * 60)")
  case True
  from decode_fresh [OF signable_refresh [OF assms] this] show ?thesis
    by (auto simp: token_username_def create_refresh_token_def dict_insert_def)
next
  case False
  then have "expiry issued delta (7 * 24 * 60 * 60) \<le> now" by simp
  from decode_expired [OF signable_refresh [OF assms] this] show ?thesis
    by (auto simp: token_username_def create_refresh_token_def subclass_eval)
qed

lemma refresh_token_decoded:
  assumes "list_all scalar sub" and "list_all scalar jti"
    and "now < expiry issued delta (7 * 24 * 60 * 60)"
  shows "\<exists>payload. decode_refresh_token C now (create_refresh_token C issued sub jti delta) = Inr payload \<and>
    dict_get payload ''type'' = JStr (lit ''refresh'') \<and> dict_get payload ''jti'' = JStr jti \<and>
    dict_get payload ''sub'' = JStr sub"
  using decode_fresh [OF signable_refresh [OF assms(1,2)] assms(3)]
  by (auto simp: decode_refresh_token_def create_refresh_token_def dict_insert_def)

end

subsection \<open>A codec without a signature\<close>

text \<open>
  For the witnesses: the claims are written as JSON and checked for the expiry, and a password is
  hashed to itself with a mark.
\<close>

definition plain_crypto :: crypto where
  "plain_crypto = \<lparr>
     cr_hash = (\<lambda>p. Inr (36 # p)),
     cr_verify = (\<lambda>p hashed. Inr (hashed = Some (36 # p))),
     cr_encode = (\<lambda>claims e. dumps (JDict (claims @ [(lit ''exp'', JInt e)]))),
     cr_decode = (\<lambda>now token. case loads (\<lambda>_. None) token of
         Some (JDict payload) \<Rightarrow> (case dict_get payload ''exp'' of
             JInt e \<Rightarrow> if e \<le> now then Inl (Exn ExpiredSignatureError ''Signature has expired'')
               else Inr payload
           | _ \<Rightarrow> Inl (Exn InvalidTokenError ''Expiration Time claim (exp) must be an integer.''))
       | _ \<Rightarrow> Inl (Exn DecodeError ''Not enough segments''))\<rparr>"

definition latin :: "pystr \<Rightarrow> bool" where
  "latin = list_all (\<lambda>c. c < 256)"

lemma latin_simps [simp]: "latin []" "latin (c # s) \<longleftrightarrow> c < 256 \<and> latin s"
  "latin (s @ t) \<longleftrightarrow> latin s \<and> latin t"
  by (simp_all add: latin_def)

lemma latin_scalar: "latin s \<Longrightarrow> list_all scalar s"
  by (auto simp: latin_def scalar_def list_all_iff)

lemma hex_digit_latin [simp]: "hex_digit (n mod 16) < 256"
proof -
  have "n mod 16 < 16" by simp
  then show ?thesis unfolding hex_digit_def by (cases "n mod 16 < 10") simp_all
qed

lemma latin_hex4 [simp]: "latin (hex4 n)"
  unfolding hex4_def by (simp only: latin_simps hex_digit_latin simp_thms)

lemma latin_escape: "latin (escape_code c)"
  by (simp add: escape_code_def unicode_escape_def)

lemma latin_concat: "(\<And>x. x \<in> set xs \<Longrightarrow> latin (f x)) \<Longrightarrow> latin (concat (map f xs))"
  by (induction xs) auto

lemma latin_dumps_str: "latin (dumps_str s)"
  by (simp add: dumps_str_def latin_concat latin_escape)

lemma latin_joined: "(\<And>x. x \<in> set xs \<Longrightarrow> latin x) \<Longrightarrow> latin (joined xs)"
  by (cases xs) (auto simp: joined_def intro: latin_concat)

lemma text_claimD: "text_claim (k, v) \<Longrightarrow>
    k \<in> set (map lit [''sub'', ''jti'', ''type'']) \<and> (\<exists>s. v = JStr s \<and> list_all scalar s)"
  by (cases v) auto

lemma claims_wf:
  assumes "signable claims"
  shows "wf_json fl (JDict (claims @ [(lit ''exp'', JInt e)]))"
proof -
  have "list_all scalar k \<and> wf_json fl v \<and> k \<noteq> lit ''exp''" if "(k, v) \<in> set claims" for k v
    using assms that text_claimD [of k v] by (auto simp: signable_def list_all_iff [of text_claim])
  with assms show ?thesis by (fastforce simp: signable_def list_all_iff [of "\<lambda>(k, v). _ k v"])
qed

lemma plain_decode:
  assumes "signable claims"
  shows "cr_decode plain_crypto now (cr_encode plain_crypto claims e) =
    (if e \<le> now then Inl (Exn ExpiredSignatureError ''Signature has expired'')
     else Inr (claims @ [(lit ''exp'', JInt e)]))"
proof -
  have exp: "dict_get (claims @ [(lit ''exp'', JInt e)]) ''exp'' = JInt e"
  proof -
    have "lit ''exp'' \<notin> fst ` set claims"
      using assms by (auto simp: signable_def list_all_iff dest!: bspec text_claimD)
    then have "map_of claims (lit ''exp'') = None" by (simp add: map_of_eq_None_iff)
    then show ?thesis by (simp add: dict_get_def map_add_def)
  qed
  from loads_dumps_value [OF claims_wf [OF assms]] have
    "loads (\<lambda>_. None) (cr_encode plain_crypto claims e) = Some (JDict (claims @ [(lit ''exp'', JInt e)]))"
    by (simp add: plain_crypto_def)
  with exp show ?thesis by (simp add: plain_crypto_def)
qed

lemma dict_get_append: "k \<noteq> ''exp'' \<Longrightarrow>
    dict_get (claims @ [(lit ''exp'', v)]) k = dict_get claims k"
  by (simp add: dict_get_def map_add_def split: option.splits)

lemma plain_encode_latin:
  assumes "signable claims"
  shows "latin (cr_encode plain_crypto claims e)"
proof -
  have "latin (dumps v)" if "(k, v) \<in> set claims" for k v
    using assms that text_claimD [of k v]
    by (auto simp: signable_def list_all_iff [of text_claim] latin_dumps_str)
  moreover have "latin (lit (py_str e))"
    by (simp add: latin_def lit_def list_all_iff char_code_small)
  ultimately show ?thesis
    by (auto simp: plain_crypto_def intro!: latin_joined latin_dumps_str)
qed

interpretation plain: token_codec plain_crypto
  by unfold_locales
    (auto simp: plain_decode dict_get_append intro!: latin_scalar plain_encode_latin)

interpretation plain: password_hashing plain_crypto
  by unfold_locales (auto simp: plain_crypto_def)

end
