(* ===== verification/Users.thy ===== *)
theory Users
  imports Tokens
begin

text \<open>
  Users: the request schemas of app/modules/users/schema.py, and the services and endpoints of
  app/modules/users/service.py and app/modules/users/router.py that create users and list them.

  \<open>user_env\<close> holds the key the database draws, the clock, what the other sessions commit before the
  statement, and the exceptions of the statements. A schema is a function that gives the validated
  record, or \<open>None\<close> for a validation error, which the framework answers with 422.
\<close>

record user_env =
  ue_user_id :: int
  ue_now :: int
  ue_others :: "db \<Rightarrow> db"
  ue_flush_fault :: "exn option"
  ue_commit_fault :: "exn option"
  ue_refresh_fault :: "exn option"

subsection \<open>Schemas\<close>

definition strip_text :: "pystr \<Rightarrow> pystr" where
  "strip_text s = rev (dropWhile unicode_space (rev (dropWhile unicode_space s)))"

definition between :: "nat \<Rightarrow> nat \<Rightarrow> pystr \<Rightarrow> bool" where
  "between a b s = (a \<le> length s \<and> length s \<le> b)"

record register_schema =
  rg_username :: pystr
  rg_password :: pystr
  rg_name :: pystr

definition user_register_schema :: "pystr \<Rightarrow> pystr \<Rightarrow> pystr \<Rightarrow> register_schema option" where
  "user_register_schema username password name =
     (if between 5 50 username \<and> between 8 50 password \<and> between 2 50 name then
        (let v = strip_text username in
         if v = [] then None
         else Some \<lparr>rg_username = v, rg_password = password, rg_name = name\<rparr>)
      else None)"

record telegram_schema =
  tg_telegram_id :: int
  tg_username :: "pystr option"
  tg_name :: pystr

definition user_telegram_schema :: "int \<Rightarrow> pystr option \<Rightarrow> pystr \<Rightarrow> telegram_schema option" where
  "user_telegram_schema telegram_id username name =
     (if 100 \<le> telegram_id \<and> telegram_id \<le> 99999999999999999999 \<and>
         (case username of None \<Rightarrow> True | Some n \<Rightarrow> between 2 100 n) \<and> between 2 100 name then
        (let v = strip_text name in
         if telegram_id \<le> 100 \<or> v = [] then None
         else Some \<lparr>tg_telegram_id = telegram_id, tg_username = username, tg_name = v\<rparr>)
      else None)"

record cursor_params =
  cp_cursor :: "int option"
  cp_limit :: nat

definition cursor_schema :: "int option \<Rightarrow> int option \<Rightarrow> cursor_params option" where
  "cursor_schema cursor limit =
     (let n = (case limit of None \<Rightarrow> 1 | Some l \<Rightarrow> l) in
      if (case cursor of None \<Rightarrow> True | Some c \<Rightarrow> c \<le> 20000) \<and> 0 \<le> n \<and> n \<le> 100 then
        Some \<lparr>cp_cursor = cursor, cp_limit = nat n\<rparr>
      else None)"

definition unprocessable :: exn where
  "unprocessable = Http 422 ''Unprocessable Entity''"

definition response_error :: exn where
  "response_error = Exn ValueError ''ResponseValidationError''"

subsection \<open>Creating users\<close>

definition new_user :: "user_env \<Rightarrow> int option \<Rightarrow> pystr option \<Rightarrow> pystr option \<Rightarrow> pystr \<Rightarrow> user_row" where
  "new_user E telegram_id username hashed_password name =
     \<lparr>u_id = ue_user_id E, u_telegram_id = telegram_id, u_username = username,
      u_hashed_password = hashed_password, u_name = name, u_admin = False, u_is_active = True,
      u_joined_at = ue_now E\<rparr>"

definition add_user :: "user_row \<Rightarrow> db \<Rightarrow> db" where
  "add_user u d = d\<lparr>users := users d @ [u]\<rparr>"

text \<open>\<open>session.add\<close> and \<open>session.flush\<close>, with the constraint error translated.\<close>

definition flush_user :: "user_env \<Rightarrow> user_row \<Rightarrow> exn \<Rightarrow> 'r world \<Rightarrow> (exn + user_row) \<times> 'r world" where
  "flush_user E user already =
     try_io
       (bind_io (faulty (ue_flush_fault E) (flush_change (add_user user))) (\<lambda>_. return_io user))
       (\<lambda>e. if catches IntegrityError e then raise_io already else raise_io e)"

definition create_telegram_user_service :: "user_env \<Rightarrow> telegram_schema
    \<Rightarrow> 'r world \<Rightarrow> (exn + user_row) \<times> 'r world" where
  "create_telegram_user_service E user_data =
     flush_user E
       (new_user E (Some (tg_telegram_id user_data)) (tg_username user_data) None (tg_name user_data))
       (Exn UserAlreadyExistsError ''User already exists'')"

definition register_user_service :: "crypto \<Rightarrow> user_env \<Rightarrow> pystr \<Rightarrow> pystr \<Rightarrow> pystr
    \<Rightarrow> 'r world \<Rightarrow> (exn + user_row) \<times> 'r world" where
  "register_user_service C E username password name =
     bind_io (lift_io (cr_hash C password)) (\<lambda>hashed_password.
     flush_user E (new_user E None (Some username) (Some hashed_password) name)
       (Exn UsernameAlreadyExistsError ''username already exists''))"

text \<open>\<open>session.refresh\<close> reads the row again.\<close>

definition refresh_user :: "int \<Rightarrow> db \<Rightarrow> exn + user_row" where
  "refresh_user i d = (case filter (\<lambda>u. u_id u = i) (users d) of
      [] \<Rightarrow> Inl (Exn InvalidRequestError ''Could not refresh instance'') | u # _ \<Rightarrow> Inr u)"

definition create_telegram_user :: "user_env \<Rightarrow> int \<Rightarrow> pystr option \<Rightarrow> pystr
    \<Rightarrow> 'r world \<Rightarrow> (exn + user_row) \<times> 'r world" where
  "create_telegram_user E telegram_id username name =
     (case user_telegram_schema telegram_id username name of
        None \<Rightarrow> raise_io unprocessable
      | Some user \<Rightarrow>
          get_db
            (bind_io (others (ue_others E)) (\<lambda>_.
             try_io
               (bind_io (create_telegram_user_service E user) (\<lambda>created.
                bind_io (commit (ue_commit_fault E)) (\<lambda>_.
                faulty (ue_refresh_fault E) (on_session (refresh_user (u_id created))))))
               (\<lambda>e. if catches UserAlreadyExistsError e then
                      bind_io rollback (\<lambda>_. raise_io (Http 409 ''User already exists''))
                    else raise_io e))))"

definition register_user :: "crypto \<Rightarrow> user_env \<Rightarrow> pystr \<Rightarrow> pystr \<Rightarrow> pystr
    \<Rightarrow> 'r world \<Rightarrow> (exn + user_row) \<times> 'r world" where
  "register_user C E username password name =
     (case user_register_schema username password name of
        None \<Rightarrow> raise_io unprocessable
      | Some user \<Rightarrow>
          get_db
            (bind_io (others (ue_others E)) (\<lambda>_.
             try_io
               (bind_io (register_user_service C E (rg_username user) (rg_password user) (rg_name user)) (\<lambda>created.
                bind_io (commit (ue_commit_fault E)) (\<lambda>_.
                return_io created)))
               (\<lambda>e. if catches UsernameAlreadyExistsError e then
                      bind_io rollback (\<lambda>_. raise_io (Http 409 ''Username already exists''))
                    else raise_io e))))"

subsection \<open>Listing users\<close>

record user_page =
  up_items :: "user_row list"
  up_next_cursor :: "int option"
  up_has_more :: bool

text \<open>\<open>users[-1]\<close> raises on an empty list.\<close>

definition get_all_users :: "int option \<Rightarrow> nat \<Rightarrow> db \<Rightarrow> exn + user_page" where
  "get_all_users cursor limit d =
     (if (case cursor of None \<Rightarrow> False | Some c \<Rightarrow> \<not> int4 c) then
        Inl (Exn DBAPIError ''value out of int32 range'')
      else
        let rows = sort_key u_id (case cursor of None \<Rightarrow> users d
              | Some c \<Rightarrow> filter (\<lambda>u. u_id u > c) (users d));
          fetched = take (limit + 1) rows;
          has_more = (length fetched > limit);
          page = (if has_more then take limit fetched else fetched)
        in if has_more then
             (if page = [] then Inl (Exn IndexError ''list index out of range'')
              else Inr \<lparr>up_items = page, up_next_cursor = Some (u_id (last page)), up_has_more = True\<rparr>)
           else Inr \<lparr>up_items = page, up_next_cursor = None, up_has_more = False\<rparr>)"

text \<open>The page before it is rendered (see Responses).\<close>

definition get_users :: "int option \<Rightarrow> int option \<Rightarrow> 'r world \<Rightarrow> (exn + user_page) \<times> 'r world" where
  "get_users cursor limit =
     (case cursor_schema cursor limit of
        None \<Rightarrow> raise_io unprocessable
      | Some params \<Rightarrow>
          get_db (on_session (get_all_users (cp_cursor params) (cp_limit params))))"

end
