(* ===== verification/Redis_Keys.thy ===== *)
theory Redis_Keys
  imports World Json_Roundtrip
begin

text \<open>
  The plain keys of Redis and the grace period of app/db/redis_db.py, in which a refresh token
  that was just exchanged still answers with the pair it was exchanged for.

  As with the sets, the client is a record of commands over any server state, and the locale
  \<open>redis_key_server\<close> states what the documentation says of them. A key set with an expiry may be
  gone at any later command, so a command may find fewer keys than the one before left.
\<close>

record 'r redis_keys =
  kvalue :: "'r \<Rightarrow> pystr \<Rightarrow> pystr option"
  kset :: "pystr \<Rightarrow> pystr \<Rightarrow> int \<Rightarrow> 'r \<Rightarrow> (exn + unit) \<times> 'r"
  kget :: "pystr \<Rightarrow> 'r \<Rightarrow> (exn + pystr option) \<times> 'r"

locale redis_key_server =
  fixes K :: "'r redis_keys"
  assumes kset_Inr: "kset K k v ex r = (Inr u, r') \<Longrightarrow>
      kvalue K r' k = Some v \<and> (kvalue K r')(k := None) \<subseteq>\<^sub>m kvalue K r"
    and kset_Inl: "kset K k v ex r = (Inl e, r') \<Longrightarrow> catches RedisError e \<and>
      (kvalue K r' \<subseteq>\<^sub>m kvalue K r \<or> kvalue K r' \<subseteq>\<^sub>m (kvalue K r)(k \<mapsto> v))"
    and kget_Inr: "kget K k r = (Inr found, r') \<Longrightarrow>
      kvalue K r' k = found \<and> kvalue K r' \<subseteq>\<^sub>m kvalue K r"
    and kget_Inl: "kget K k r = (Inl e, r') \<Longrightarrow> catches RedisError e \<and> kvalue K r' \<subseteq>\<^sub>m kvalue K r"

subsection \<open>The grace period\<close>

definition grace_payload :: "pystr \<Rightarrow> pystr \<Rightarrow> json" where
  "grace_payload access_token refresh_token = JDict
     [(lit ''access_token'', JStr access_token), (lit ''refresh_token'', JStr refresh_token),
      (lit ''token_type'', JStr (lit ''bearer''))]"

definition add_token_to_grace_period :: "'r redis_keys \<Rightarrow> pystr \<Rightarrow> pystr \<Rightarrow> pystr
    \<Rightarrow> 'r world \<Rightarrow> (exn + unit) \<times> 'r world" where
  "add_token_to_grace_period K jti access_token refresh_token =
     on_redis (kset K jti (dumps (grace_payload access_token refresh_token)) 30)"

text \<open>\<open>JNull\<close> is the returned \<open>None\<close>; an empty string is false, too.\<close>

definition token_in_grace_period :: "'r redis_keys \<Rightarrow> (string \<Rightarrow> string option) \<Rightarrow> pystr
    \<Rightarrow> 'r world \<Rightarrow> (exn + json) \<times> 'r world" where
  "token_in_grace_period K fl jti =
     bind_io (on_redis (kget K jti)) (\<lambda>result.
     case result of
       None \<Rightarrow> return_io JNull
     | Some text \<Rightarrow>
         if text = [] then return_io JNull
         else case loads fl text of
           None \<Rightarrow> raise_io (Exn ValueError ''JSONDecodeError'')
         | Some j \<Rightarrow> return_io j)"

lemma grace_payload_read:
  "list_all scalar access \<Longrightarrow> list_all scalar refresh \<Longrightarrow>
   loads fl (dumps (grace_payload access refresh)) = Some (grace_payload access refresh)"
  by (rule loads_dumps_value) (auto simp: grace_payload_def lit_def scalar_def list_all_iff)

lemma dumps_not_empty: "dumps (grace_payload access refresh) \<noteq> []"
  by (simp add: grace_payload_def)

lemma grace_db:
  assumes "token_in_grace_period K fl jti w = (x, w')"
  shows "w_session w' = w_session w \<and> w_committed w' = w_committed w"
proof -
  have "keeps (db_is c d) (token_in_grace_period K fl jti)" for c d
    unfolding token_in_grace_period_def by (intro keeps_intro)
  from db_unchanged [OF this assms] show ?thesis .
qed

lemma grace_found:
  assumes "token_in_grace_period K fl jti w = (Inr j, w')" and "truthy j"
  shows "\<exists>text. kget K jti (w_redis w) = (Inr (Some text), w_redis w') \<and> loads fl text = Some j"
proof -
  from assms(1) obtain result w1 where get: "on_redis (kget K jti) w = (Inr result, w1)"
    and rest: "(case result of None \<Rightarrow> return_io JNull | Some text \<Rightarrow>
         if text = [] then return_io JNull
         else case loads fl text of None \<Rightarrow> raise_io (Exn ValueError ''JSONDecodeError'')
         | Some j \<Rightarrow> return_io j) w1 = (Inr j, w')"
    unfolding token_in_grace_period_def by (rule bind_io_returnsE)
  with on_redis_world [OF get] assms(2) show ?thesis
    by (auto simp: return_io_def raise_io_def split: option.splits if_splits)
qed

context redis_key_server
begin

text \<open>A grace period that answers gives the pair that was stored.\<close>

lemma grace_answer:
  assumes "token_in_grace_period K fl jti w = (Inr j, w')" and "truthy j"
    and "kvalue K (w_redis w) jti = Some (dumps (grace_payload access refresh))"
    and "list_all scalar access" and "list_all scalar refresh"
  shows "j = grace_payload access refresh"
proof -
  from grace_found [OF assms(1,2)] obtain stored where
    get: "kget K jti (w_redis w) = (Inr (Some stored), w_redis w')" and j: "loads fl stored = Some j" by blast
  from kget_Inr [OF get] assms(3) have "stored = dumps (grace_payload access refresh)"
    by (auto simp: map_le_def dom_def)
  with j grace_payload_read [OF assms(4,5), of fl] show ?thesis by simp
qed

end

subsection \<open>An executable reference server\<close>

text \<open>Its clock stands still: no key expires by itself.\<close>

definition ref_keys :: "ref_state redis_keys" where
  "ref_keys = \<lparr>
     kvalue = rs_keys,
     kset = (\<lambda>k v ex. ref_cmd (\<lambda>s. ((), s\<lparr>rs_keys := (rs_keys s)(k \<mapsto> v)\<rparr>))),
     kget = (\<lambda>k. ref_cmd (\<lambda>s. (rs_keys s k, s)))\<rparr>"

interpretation ref_keys: redis_key_server ref_keys
  by unfold_locales
    (auto simp: ref_keys_def ref_cmd_Inr ref_cmd_Inl map_le_def dom_def)

end
