(* ===== verification/Sessions.thy ===== *)
theory Sessions
  imports Users Redis_Keys
begin

text \<open>
  Sessions of a user: the refresh token services of app/modules/users/service.py and the endpoints
  \<open>login_user\<close> and \<open>refresh_token\<close> of app/modules/users/router.py.

  \<open>auth_env\<close> is the environment of one request: the readings of the clock, the drawn keys and
  tokens, what other sessions commit before the first statement (\<open>au_before\<close>) and, when the
  UPDATE of \<open>refresh_token\<close> found no row, before the SELECT after it (\<open>au_between\<close>), and the
  exceptions of the statements. \<open>config\<close> holds the lifetimes of core/config.py, in seconds.
\<close>

record auth_env =
  au_decoded_at :: int
  au_used_at :: int
  au_checked_at :: int
  au_issued_at :: int
  au_jti :: pystr
  au_family :: string
  au_token_id :: int
  au_before :: "db \<Rightarrow> db"
  au_between :: "db \<Rightarrow> db"
  au_update_fault :: "exn option"
  au_flush_fault :: "exn option"
  au_commit_fault :: "exn option"
  au_refresh_fault :: "exn option"

record config =
  cf_access_seconds :: int
  cf_refresh_seconds :: int

definition default_config :: config where
  "default_config = \<lparr>cf_access_seconds = 15 * 60, cf_refresh_seconds = 30 * 24 * 60 * 60\<rparr>"

record token_response =
  tr_access_token :: pystr
  tr_refresh_token :: pystr
  tr_token_type :: pystr

subsection \<open>Refresh tokens\<close>

definition add_token :: "refresh_token_row \<Rightarrow> db \<Rightarrow> db" where
  "add_token t d = d\<lparr>refresh_tokens := refresh_tokens d @ [t]\<rparr>"

definition new_token :: "auth_env \<Rightarrow> int \<Rightarrow> pystr \<Rightarrow> int \<Rightarrow> string option \<Rightarrow> refresh_token_row" where
  "new_token E user_id jti expired_at family_id =
     \<lparr>rt_id = au_token_id E, rt_user_id = user_id, rt_token_hash = jti, rt_expires_at = expired_at,
      rt_is_revoked = False, rt_created_at = au_issued_at E,
      rt_family_id = (case family_id of None \<Rightarrow> au_family E | Some f \<Rightarrow> f)\<rparr>"

definition create_refresh_token_record_service :: "auth_env \<Rightarrow> int \<Rightarrow> pystr \<Rightarrow> int \<Rightarrow> string option
    \<Rightarrow> 'r world \<Rightarrow> (exn + refresh_token_row option) \<times> 'r world" where
  "create_refresh_token_record_service E user_id jti expired_at family_id =
     (let refresh_token = new_token E user_id jti expired_at family_id in
      try_io
        (bind_io (faulty (au_flush_fault E) (flush_change (add_token refresh_token))) (\<lambda>_.
         return_io (Some refresh_token)))
        (\<lambda>e. if catches IntegrityError e then return_io None else raise_io e))"

definition revoked :: "refresh_token_row \<Rightarrow> refresh_token_row" where
  "revoked t = t\<lparr>rt_is_revoked := True\<rparr>"

text \<open>\<open>UPDATE refresh_tokens SET is_revoked = true WHERE ...\<close>.\<close>

definition revoke_where :: "(refresh_token_row \<Rightarrow> bool) \<Rightarrow> db \<Rightarrow> db" where
  "revoke_where P d = d\<lparr>refresh_tokens := map (\<lambda>t. if P t then revoked t else t) (refresh_tokens d)\<rparr>"

definition usable :: "pystr \<Rightarrow> int \<Rightarrow> refresh_token_row \<Rightarrow> bool" where
  "usable jti now t \<longleftrightarrow> rt_token_hash t = jti \<and> rt_expires_at t > now \<and> \<not> rt_is_revoked t"

definition validate_and_revoke_refresh_token_service :: "auth_env \<Rightarrow> pystr
    \<Rightarrow> 'r world \<Rightarrow> (exn + refresh_token_row option) \<times> 'r world" where
  "validate_and_revoke_refresh_token_service E jti =
     bind_io (lift_io (bound_text jti)) (\<lambda>_.
     bind_io (get_io (\<lambda>w. filter (usable jti (au_used_at E)) (refresh_tokens (w_session w)))) (\<lambda>rows.
     bind_io (faulty (au_update_fault E) (flush_change (revoke_where (usable jti (au_used_at E))))) (\<lambda>_.
     bind_io (lift_io (result_one_or_none (Exn MultipleResultsFound ''Multiple rows were found'') rows)) (\<lambda>found.
     return_io (map_option revoked found)))))"

definition get_refresh_token :: "pystr \<Rightarrow> 'r world \<Rightarrow> (exn + refresh_token_row option) \<times> 'r world" where
  "get_refresh_token jti =
     bind_io (lift_io (bound_text jti)) (\<lambda>_.
     on_session (query (\<lambda>d. filter (\<lambda>t. rt_token_hash t = jti) (refresh_tokens d))))"

text \<open>The three revocations: the statement, then a flush, whose constraint error is translated.\<close>

definition revocation :: "auth_env \<Rightarrow> string \<Rightarrow> (db \<Rightarrow> db) \<Rightarrow> 'r world \<Rightarrow> (exn + unit) \<times> 'r world" where
  "revocation E message statement =
     try_io (faulty (au_flush_fault E) (flush_change statement))
       (\<lambda>e. if catches IntegrityError e then raise_io (Exn TokenRevocationError message) else raise_io e)"

definition revoke_refresh_token :: "auth_env \<Rightarrow> pystr \<Rightarrow> 'r world \<Rightarrow> (exn + unit) \<times> 'r world" where
  "revoke_refresh_token E jti =
     revocation E ''Error at revoking refresh token'' (revoke_where (\<lambda>t. rt_token_hash t = jti))"

definition revoke_family_token :: "auth_env \<Rightarrow> string \<Rightarrow> 'r world \<Rightarrow> (exn + unit) \<times> 'r world" where
  "revoke_family_token E family_id =
     revocation E ''Error at revoking family_id refresh token '' (revoke_where (\<lambda>t. rt_family_id t = family_id))"

definition revoke_all_tokens :: "auth_env \<Rightarrow> int \<Rightarrow> 'r world \<Rightarrow> (exn + unit) \<times> 'r world" where
  "revoke_all_tokens E user_id =
     revocation E ''Error at deleting all refresh tokens''
       (\<lambda>d. d\<lparr>refresh_tokens := filter (\<lambda>t. rt_user_id t \<noteq> user_id) (refresh_tokens d)\<rparr>)"

subsection \<open>Login\<close>

text \<open>The username of a row that was found by its username.\<close>

definition username_claim :: "user_row \<Rightarrow> json" where
  "username_claim u = (case u_username u of None \<Rightarrow> JNull | Some n \<Rightarrow> JStr n)"

definition username_text :: "user_row \<Rightarrow> pystr" where
  "username_text u = (case u_username u of None \<Rightarrow> [] | Some n \<Rightarrow> n)"

definition bearer :: "pystr \<Rightarrow> pystr \<Rightarrow> token_response" where
  "bearer access_token refresh_token = \<lparr>tr_access_token = access_token,
     tr_refresh_token = refresh_token, tr_token_type = lit ''bearer''\<rparr>"

text \<open>The two tokens for a user, as the login and the refresh create them.\<close>

definition issued_access :: "crypto \<Rightarrow> config \<Rightarrow> auth_env \<Rightarrow> user_row \<Rightarrow> pystr" where
  "issued_access C cfg E user = create_access_token C (au_issued_at E)
     [(lit ''sub'', username_claim user)] (Some (cf_access_seconds cfg))"

definition issued_refresh :: "crypto \<Rightarrow> config \<Rightarrow> auth_env \<Rightarrow> user_row \<Rightarrow> pystr" where
  "issued_refresh C cfg E user = create_refresh_token C (au_issued_at E) (username_text user) (au_jti E)
     (Some (cf_refresh_seconds cfg))"

definition login_user :: "crypto \<Rightarrow> config \<Rightarrow> auth_env \<Rightarrow> pystr \<Rightarrow> pystr
    \<Rightarrow> 'r world \<Rightarrow> (exn + token_response) \<times> 'r world" where
  "login_user C cfg E username password =
     get_db
       (bind_io (others (au_before E)) (\<lambda>_.
        bind_io (authenticate_user C username password) (\<lambda>found.
        case found of
          None \<Rightarrow> raise_io (Http 401 ''Incorrect username or password'')
        | Some user \<Rightarrow>
            let access_token = issued_access C cfg E user;
              jti = au_jti E;
              rt_expires_date = au_issued_at E + cf_refresh_seconds cfg;
              refresh_token = issued_refresh C cfg E user
            in bind_io (create_refresh_token_record_service E (u_id user) jti rt_expires_date None) (\<lambda>record.
               case record of
                 None \<Rightarrow> bind_io rollback (\<lambda>_. raise_io (Http 409 ''Refresh token already exists''))
               | Some _ \<Rightarrow>
                   bind_io (try_io (commit (au_commit_fault E))
                     (\<lambda>e. if catches IntegrityError e \<or> catches RefreshTokenAlreadyExistsError e then
                            bind_io rollback (\<lambda>_. raise_io (Http 409 ''Refresh token already exists''))
                          else raise_io e)) (\<lambda>_.
                   return_io (bearer access_token refresh_token))))))"

subsection \<open>Refresh\<close>

text \<open>\<open>response_model=TokenResponse\<close> on the dictionary of the grace period.\<close>

definition token_response_of :: "json \<Rightarrow> exn + token_response" where
  "token_response_of j = (case j of
      JDict d \<Rightarrow> (case (dict_get d ''access_token'', dict_get d ''refresh_token'', dict_get d ''token_type'') of
          (JStr a, JStr r, JStr t) \<Rightarrow> Inr \<lparr>tr_access_token = a, tr_refresh_token = r, tr_token_type = t\<rparr>
        | _ \<Rightarrow> Inl response_error)
    | _ \<Rightarrow> Inl response_error)"

text \<open>The \<open>try\<close> around decoding, whose last clause also catches the missing token's exception.\<close>

definition decoded :: "crypto \<Rightarrow> int \<Rightarrow> pystr option \<Rightarrow> exn + (pystr \<times> json) list" where
  "decoded C now token =
     (case (case token of None \<Rightarrow> Inl (Http 401 ''Refresh Token missing'')
                        | Some t \<Rightarrow> decode_refresh_token C now t) of
        Inr payload \<Rightarrow> Inr payload
      | Inl e \<Rightarrow>
          if catches ExpiredSignatureError e then Inl (Http 401 ''Refresh token has expired'')
          else if catches DecodeError e then Inl (Http 401 ''Invalid token in decoding refresh token'')
          else if catches InvalidTokenError e then Inl (Http 401 ''Invalid refresh token'')
          else if catches Exception_cls e then Inl (Http 500 ''Error processing token'')
          else Inl e)"

text \<open>The claims \<open>jti\<close> and \<open>sub\<close>; as a query parameter the driver takes no other value than a text.\<close>

definition text_param :: "json \<Rightarrow> exn + pystr" where
  "text_param v = (case v of JStr s \<Rightarrow> Inr s
    | _ \<Rightarrow> Inl (Exn DBAPIError ''invalid input for query argument''))"

definition claims_of :: "(pystr \<times> json) list \<Rightarrow> exn + json \<times> json" where
  "claims_of payload =
     (if dict_get payload ''type'' \<noteq> JStr (lit ''refresh'') then Inl (Http 401 ''Invalid token type'')
      else let jti = dict_get payload ''jti''; sub = dict_get payload ''sub'' in
        if jti = JNull \<or> sub = JNull then Inl (Http 401 ''Invalid token in payload'')
        else Inr (jti, sub))"

definition user_of_claim :: "json \<Rightarrow> 'r world \<Rightarrow> (exn + user_row option) \<times> 'r world" where
  "user_of_claim sub = bind_io (lift_io (text_param sub)) get_user_by_username"

text \<open>
  \<open>rt_record is None\<close>: the token was used, has expired, or is unknown. On the last branch the code
  goes on and reads an attribute of \<open>None\<close>.
\<close>

definition stale_token :: "'r redis_keys \<Rightarrow> (string \<Rightarrow> string option) \<Rightarrow> auth_env \<Rightarrow> pystr \<Rightarrow> json
    \<Rightarrow> 'r world \<Rightarrow> (exn + token_response) \<times> 'r world" where
  "stale_token K fl E jti sub =
     bind_io (get_refresh_token jti) (\<lambda>found.
     case found of
       None \<Rightarrow> raise_io (Http 401 ''Invalid token'')
     | Some rt \<Rightarrow>
         if rt_is_revoked rt then
           bind_io (token_in_grace_period K fl jti) (\<lambda>grace_period_result.
           if \<not> truthy grace_period_result then
             bind_io (revoke_family_token E (rt_family_id rt)) (\<lambda>_.
             bind_io (commit (au_commit_fault E)) (\<lambda>_.
             raise_io (Http 401 ''Token Expired'')))
           else lift_io (token_response_of grace_period_result))
         else if rt_expires_at rt < au_checked_at E then
           bind_io (revoke_refresh_token E jti) (\<lambda>_.
           bind_io (commit (au_commit_fault E)) (\<lambda>_.
           raise_io (Http 401 ''Refresh token expired'')))
         else
           bind_io (user_of_claim sub) (\<lambda>user.
           raise_io (Exn AttributeError ''NoneType'')))"

definition refuse_token :: "'r redis_keys \<Rightarrow> (string \<Rightarrow> string option) \<Rightarrow> auth_env \<Rightarrow> pystr \<Rightarrow> json
    \<Rightarrow> 'r world \<Rightarrow> (exn + token_response) \<times> 'r world" where
  "refuse_token K fl E jti sub = bind_io (others (au_between E)) (\<lambda>_. stale_token K fl E jti sub)"

text \<open>\<open>session.refresh\<close> of the new record reads it again, and may raise.\<close>

definition rotate_token :: "crypto \<Rightarrow> config \<Rightarrow> 'r redis_keys \<Rightarrow> auth_env \<Rightarrow> pystr
    \<Rightarrow> refresh_token_row \<Rightarrow> user_row \<Rightarrow> 'r world \<Rightarrow> (exn + token_response) \<times> 'r world" where
  "rotate_token C cfg K E jti rt user =
     (let access = issued_access C cfg E user; refresh = issued_refresh C cfg E user in
      bind_io (create_refresh_token_record_service E (u_id user) (au_jti E)
          (au_issued_at E + cf_refresh_seconds cfg) (Some (rt_family_id rt))) (\<lambda>record.
      if record = None then
        bind_io rollback (\<lambda>_. raise_io (Http 409 ''Refresh Token Conflict''))
      else
        bind_io (commit (au_commit_fault E)) (\<lambda>_.
        bind_io (faulty (au_refresh_fault E) (return_io ())) (\<lambda>_.
        bind_io (add_token_to_grace_period K jti access refresh) (\<lambda>_.
        return_io (bearer access refresh))))))"

definition exchange_token :: "crypto \<Rightarrow> config \<Rightarrow> 'r redis_keys \<Rightarrow> auth_env \<Rightarrow> pystr \<Rightarrow> json
    \<Rightarrow> refresh_token_row \<Rightarrow> 'r world \<Rightarrow> (exn + token_response) \<times> 'r world" where
  "exchange_token C cfg K E jti sub rt =
     bind_io (user_of_claim sub) (\<lambda>found.
     case found of
       None \<Rightarrow>
         bind_io (revoke_family_token E (rt_family_id rt)) (\<lambda>_.
         bind_io (commit (au_commit_fault E)) (\<lambda>_.
         raise_io (Http 401 ''User not found'')))
     | Some user \<Rightarrow>
         if u_id user \<noteq> rt_user_id rt then raise_io (Http 403 ''Invalid token'')
         else rotate_token C cfg K E jti rt user)"

definition refresh_token :: "crypto \<Rightarrow> config \<Rightarrow> 'r redis_keys \<Rightarrow> (string \<Rightarrow> string option) \<Rightarrow> auth_env
    \<Rightarrow> pystr option \<Rightarrow> 'r world \<Rightarrow> (exn + token_response) \<times> 'r world" where
  "refresh_token C cfg K fl E token =
     get_db
       (bind_io (lift_io (decoded C (au_decoded_at E) token)) (\<lambda>payload.
        bind_io (lift_io (claims_of payload)) (\<lambda>(jti_claim, sub).
        bind_io (lift_io (text_param jti_claim)) (\<lambda>jti.
        bind_io (others (au_before E)) (\<lambda>_.
        bind_io (validate_and_revoke_refresh_token_service E jti) (\<lambda>rt_record.
        case rt_record of
          None \<Rightarrow> refuse_token K fl E jti sub
        | Some rt \<Rightarrow> exchange_token C cfg K E jti sub rt))))))"

end
