(* ===== verification/Session_Safety.thy ===== *)
theory Session_Safety
  imports Sessions Samples
begin

text \<open>
  What the sessions guarantee: the outcome of a registration and a login; the rotation of refresh
  tokens, the answer to a token that is used again, and that a revoked token stays revoked.
\<close>

lemmas session_services = get_user_by_username_def user_of_claim_def authenticate_user_def
  create_refresh_token_record_service_def validate_and_revoke_refresh_token_service_def
  get_refresh_token_def revoke_refresh_token_def revoke_family_token_def revocation_def Let_def
  token_in_grace_period_def add_token_to_grace_period_def

subsection \<open>Revocation\<close>

definition has_revoked :: "pystr \<Rightarrow> db \<Rightarrow> bool" where
  "has_revoked h d = list_ex (\<lambda>t. rt_token_hash t = h \<and> rt_is_revoked t) (refresh_tokens d)"

lemma has_revoked_add_token: "has_revoked h d \<Longrightarrow> has_revoked h (add_token t d)"
  by (simp add: has_revoked_def add_token_def)

lemma has_revoked_where: "has_revoked h d \<Longrightarrow> has_revoked h (revoke_where P d)"
proof -
  have "list_ex (\<lambda>t. rt_token_hash t = h \<and> rt_is_revoked t) ts \<Longrightarrow>
      list_ex (\<lambda>t. rt_token_hash t = h \<and> rt_is_revoked t) (map (\<lambda>t. if P t then revoked t else t) ts)" for ts
    by (induction ts) (auto simp: revoked_def)
  then show "has_revoked h d \<Longrightarrow> has_revoked h (revoke_where P d)"
    by (simp add: has_revoked_def revoke_where_def)
qed

text \<open>The tables of \<open>d\<close> with some of the tokens revoked.\<close>

definition revocation_of :: "db \<Rightarrow> db \<Rightarrow> bool" where
  "revocation_of d d' \<longleftrightarrow> (\<exists>P. d' = revoke_where P d)"

lemma revoke_where_compose: "revoke_where P (revoke_where P' d) =
    revoke_where (\<lambda>t. P' t \<or> P (if P' t then revoked t else t)) d"
  by (auto simp: revoke_where_def revoked_def)

lemma revoke_none: "(\<And>t. t \<in> set (refresh_tokens d) \<Longrightarrow> \<not> P t) \<Longrightarrow> revoke_where P d = d"
  by (simp add: revoke_where_def map_idI)

lemma revocation_of_refl [simp]: "revocation_of d d"
  unfolding revocation_of_def by (rule exI [of _ "\<lambda>_. False"]) (simp add: revoke_none)

lemma revocation_of_where: "revocation_of d d' \<Longrightarrow> revocation_of d (revoke_where P d')"
  unfolding revocation_of_def by (auto simp: revoke_where_compose)

lemma revocation_of_hashes:
  "revocation_of d d' \<Longrightarrow> map rt_token_hash (refresh_tokens d') = map rt_token_hash (refresh_tokens d)"
  by (auto simp: revocation_of_def revoke_where_def revoked_def)

lemma refuse_keeps_revoked:
  "(\<And>d. has_revoked h d \<Longrightarrow> has_revoked h (au_between E d)) \<Longrightarrow>
   keeps (db_inv (has_revoked h)) (refuse_token K fl E jti sub)"
  unfolding refuse_token_def stale_token_def session_services
  by (intro keeps_intro) (simp_all add: has_revoked_where)

lemma exchange_keeps_revoked:
  "keeps (db_inv (has_revoked h)) (exchange_token C cfg K E jti sub rt)"
  unfolding exchange_token_def rotate_token_def session_services
  by (intro keeps_intro) (simp_all add: has_revoked_where has_revoked_add_token)

lemma refresh_keeps_revoked:
  assumes "\<And>d. has_revoked h d \<Longrightarrow> has_revoked h (au_before E d)"
    and "\<And>d. has_revoked h d \<Longrightarrow> has_revoked h (au_between E d)"
  shows "keeps (db_inv (has_revoked h)) (refresh_token C cfg K fl E token)"
  unfolding refresh_token_def session_services
  by (intro keeps_intro refuse_keeps_revoked exchange_keeps_revoked)
    (simp_all add: assms has_revoked_where)

lemma login_keeps_revoked:
  assumes "\<And>d. has_revoked h d \<Longrightarrow> has_revoked h (au_before E d)"
  shows "keeps (db_inv (has_revoked h)) (login_user C cfg E username password)"
  unfolding login_user_def session_services
  by (intro keeps_intro) (simp_all add: assms has_revoked_add_token)

text \<open>A token that is not usable changes the tables at most by revocations.\<close>

lemma stale_keeps:
  "keeps (db_inv (revocation_of d)) (stale_token K fl E jti sub)"
  unfolding stale_token_def session_services by (intro keeps_intro) (simp_all add: revocation_of_where)

lemma refuse_only_revokes:
  assumes "refuse_token K fl E jti sub w = (x, w')" and "w_session w = w_committed w"
  shows "revocation_of (au_between E (w_committed w)) (w_committed w')"
proof -
  let ?d = "au_between E (w_committed w)" and ?w = "w\<lparr>w_committed := au_between E (w_committed w),
      w_session := au_between E (w_committed w)\<rparr>"
  have "stale_token K fl E jti sub ?w = (x, w')"
    using assms by (simp add: refuse_token_def bind_io_def others_def)
  with keepsD [OF stale_keeps, of ?d ?w K fl E jti sub] show ?thesis by (simp add: db_inv_def)
qed

subsection \<open>The two ways of a refresh\<close>

lemma bind_lift [simp]:
  "bind_io (lift_io (Inr x)) f = f x" "bind_io (lift_io (Inl e)) f = raise_io e"
  by (simp_all add: fun_eq_iff io_defs)

text \<open>The statements of \<open>refresh_token\<close> before the token is looked up.\<close>

lemma refresh_decoded:
  assumes "decoded C (au_decoded_at E) token = Inr payload" and "claims_of payload = Inr (JStr jti, sub)"
  shows "refresh_token C cfg K fl E token =
    get_db (bind_io (others (au_before E)) (\<lambda>_.
      bind_io (validate_and_revoke_refresh_token_service E jti) (\<lambda>rt_record.
      case rt_record of
        None \<Rightarrow> refuse_token K fl E jti sub
      | Some rt \<Rightarrow> exchange_token C cfg K E jti sub rt)))"
  by (simp add: refresh_token_def assms text_param_def)

lemma unique_hash:
  assumes "valid_db d" and "t \<in> set (refresh_tokens d)" and "t' \<in> set (refresh_tokens d)"
    and "rt_token_hash t = rt_token_hash t'"
  shows "t = t'"
  using assms by (auto simp: valid_db_def integrity_def unique_token_hash_def distinct_map inj_on_def)

lemma revoked_not_usable:
  assumes "valid_db d" and "has_revoked jti d" and "t \<in> set (refresh_tokens d)"
  shows "\<not> usable jti now t"
  using assms unique_hash [OF assms(1,3)] by (auto simp: has_revoked_def list_ex_iff usable_def)

lemma update_committed:
  "validate_and_revoke_refresh_token_service E jti w = (x, w') \<Longrightarrow> w_committed w' = w_committed w"
  by (auto simp: validate_and_revoke_refresh_token_service_def io_defs faulty_def flush_change_def
      split: option.splits sum.splits prod.splits)

lemma update_outcome:
  assumes "validate_and_revoke_refresh_token_service E jti w = (Inr found, w')"
  shows "text_ok jti" and "w' = w\<lparr>w_session := revoke_where (usable jti (au_used_at E)) (w_session w)\<rparr>"
    and "found = None \<Longrightarrow> filter (usable jti (au_used_at E)) (refresh_tokens (w_session w)) = []"
    and "found = Some rt \<Longrightarrow> \<exists>t. filter (usable jti (au_used_at E)) (refresh_tokens (w_session w)) = [t] \<and> rt = revoked t"
  using assms
  by (auto simp: validate_and_revoke_refresh_token_service_def get_io_def faulty_def bound_text_def
      flush_change_Inr return_io_def raise_io_def lift_io_def
      elim!: bind_io_returnsE split: option.splits if_splits)

lemma update_unusable:
  assumes "\<And>t. t \<in> set (refresh_tokens (w_session w)) \<Longrightarrow> \<not> usable jti (au_used_at E) t"
    and "validate_and_revoke_refresh_token_service E jti w = (Inr found, w')"
  shows "found = None \<and> w' = w"
proof -
  have none: "filter (usable jti (au_used_at E)) (refresh_tokens (w_session w)) = []"
    using assms(1) by (simp add: filter_empty_conv)
  have same: "revoke_where (usable jti (au_used_at E)) (w_session w) = w_session w"
    using assms(1) by (rule revoke_none)
  from update_outcome [OF assms(2)] none same show ?thesis by (cases found) auto
qed

text \<open>The world in which the UPDATE runs, and the run from there.\<close>

definition requested :: "auth_env \<Rightarrow> 'r world \<Rightarrow> 'r world" where
  "requested E w = w\<lparr>w_committed := au_before E (w_committed w), w_session := au_before E (w_committed w)\<rparr>"

lemma requested_sel [simp]:
  "w_committed (requested E w) = au_before E (w_committed w)"
  "w_session (requested E w) = au_before E (w_committed w)" "w_redis (requested E w) = w_redis w"
  by (simp_all add: requested_def)

lemma refresh_run:
  assumes "decoded C (au_decoded_at E) token = Inr payload" and "claims_of payload = Inr (JStr jti, sub)"
    and "idle w" and "refresh_token C cfg K fl E token w = (x, w')"
  obtains w1 where "bind_io (validate_and_revoke_refresh_token_service E jti) (\<lambda>rt_record.
      case rt_record of
        None \<Rightarrow> refuse_token K fl E jti sub
      | Some rt \<Rightarrow> exchange_token C cfg K E jti sub rt) (requested E w) = (x, w1)"
    and "w' = w1\<lparr>w_session := w_committed w1\<rparr>"
proof -
  from assms(3,4) have "get_db (\<lambda>w. bind_io (validate_and_revoke_refresh_token_service E jti) (\<lambda>rt_record.
      case rt_record of
        None \<Rightarrow> refuse_token K fl E jti sub
      | Some rt \<Rightarrow> exchange_token C cfg K E jti sub rt) (requested E w)) w = (x, w')"
    by (simp add: refresh_decoded [OF assms(1,2)] get_db_def bind_io_def others_def requested_def idle_def)
  then show ?thesis
    by (auto simp: get_db_def rollback_def split: prod.splits intro: that)
qed

text \<open>
  C22. A revoked refresh token stays revoked and is never exchanged: whatever other sessions do,
  short of undoing the revocation, a refresh with it issues no token. At most it revokes others.
\<close>

theorem revoked_token_is_never_exchanged:
  assumes "idle w" and "valid_db (au_before E (w_committed w))"
    and "\<And>d. has_revoked jti d \<Longrightarrow> has_revoked jti (au_before E d)"
    and "\<And>d. has_revoked jti d \<Longrightarrow> has_revoked jti (au_between E d)"
    and "has_revoked jti (w_committed w)"
    and "decoded C (au_decoded_at E) token = Inr payload" and "claims_of payload = Inr (JStr jti, sub)"
    and "refresh_token C cfg K fl E token w = (x, w')"
  shows "has_revoked jti (w_committed w') \<and>
    (revocation_of (au_before E (w_committed w)) (w_committed w') \<or>
     revocation_of (au_between E (au_before E (w_committed w))) (w_committed w'))"
proof
  have "db_inv (has_revoked jti) w" using assms(1,5) by (simp add: db_inv_def idle_def)
  from keepsD [OF refresh_keeps_revoked [OF assms(3,4)] this, of C cfg K fl token] assms(8)
  show "has_revoked jti (w_committed w')" by (simp add: db_inv_def)
next
  let ?d = "au_before E (w_committed w)"
  from refresh_run [OF assms(6,7,1,8)] obtain w1 where
    run: "bind_io (validate_and_revoke_refresh_token_service E jti) (\<lambda>rt_record.
      case rt_record of
        None \<Rightarrow> refuse_token K fl E jti sub
      | Some rt \<Rightarrow> exchange_token C cfg K E jti sub rt) (requested E w) = (x, w1)"
    and w': "w' = w1\<lparr>w_session := w_committed w1\<rparr>" .
  have unusable: "t \<in> set (refresh_tokens (w_session (requested E w))) \<Longrightarrow> \<not> usable jti (au_used_at E) t" for t
    using revoked_not_usable [OF assms(2) assms(3) [OF assms(5)]] by simp
  show "revocation_of ?d (w_committed w') \<or> revocation_of (au_between E ?d) (w_committed w')"
  proof (cases "validate_and_revoke_refresh_token_service E jti (requested E w)")
    case (Pair found w2)
    show ?thesis
    proof (cases found)
      case (Inl e)
      with run Pair have "w1 = w2" by (simp add: bind_io_def)
      moreover have "w_committed w2 = ?d"
        using update_committed [OF Pair] by simp
      ultimately show ?thesis using w' by simp
    next
      case (Inr rt)
      from update_unusable [OF unusable Pair [unfolded Inr]] have "rt = None" "w2 = requested E w" by simp_all
      with run Pair Inr have "refuse_token K fl E jti sub (requested E w) = (x, w1)" by (simp add: bind_io_def)
      from refuse_only_revokes [OF this] w' show ?thesis by simp
    qed
  qed
qed

subsection \<open>Rotation\<close>

text \<open>The row a refresh adds, in the family of the token it exchanges.\<close>

definition successor :: "config \<Rightarrow> auth_env \<Rightarrow> refresh_token_row \<Rightarrow> refresh_token_row" where
  "successor cfg E t = new_token E (rt_user_id t) (au_jti E) (au_issued_at E + cf_refresh_seconds cfg)
     (Some (rt_family_id t))"

lemma create_record_Inr:
  "create_refresh_token_record_service E user_id jti e f w = (Inr (Some t), w') \<longleftrightarrow>
   au_flush_fault E = None \<and> t = new_token E user_id jti e f \<and> valid_db (add_token t (w_session w)) \<and>
   w' = w\<lparr>w_session := add_token t (w_session w)\<rparr>"
  by (auto simp: create_refresh_token_record_service_def Let_def io_defs faulty_def flush_change_def
      split: option.splits sum.splits prod.splits if_splits)

lemma commit_Inr: "commit fault w = (Inr u, w') \<longleftrightarrow> fault = None \<and> w' = w\<lparr>w_committed := w_session w\<rparr>"
  by (auto simp: commit_def split: option.splits)

lemma user_of_claim_Inr:
  assumes "user_of_claim sub w = (Inr (Some user), w')"
  shows "w' = w \<and> user \<in> set (users (w_session w)) \<and> (\<exists>s. sub = JStr s \<and> u_username user = Some s \<and> text_ok s)"
proof -
  from assms obtain s where s: "sub = JStr s" and named: "get_user_by_username s w = (Inr (Some user), w')"
    by (cases sub) (simp_all add: user_of_claim_def text_param_def raise_io_def)
  from named have "text_ok s" and
    q: "query (\<lambda>d. filter (\<lambda>u. u_username u = Some s) (users d)) (w_session w) = Inr (Some user)" "w' = w"
    by (auto simp: get_user_by_username_def bound_text_def raise_io_def on_session_def split: if_splits)
  from q(1) have "filter (\<lambda>u. u_username u = Some s) (users (w_session w)) = [user]"
    by (simp add: query_def)
  then have "user \<in> set (filter (\<lambda>u. u_username u = Some s) (users (w_session w)))" by simp
  with s \<open>text_ok s\<close> q(2) show ?thesis by auto
qed

lemma rotate_outcome:
  assumes "rotate_token C cfg K E jti rt user w = (Inr resp, w')"
  shows "resp = bearer (issued_access C cfg E user) (issued_refresh C cfg E user)"
    and "w_committed w' = add_token (new_token E (u_id user) (au_jti E)
      (au_issued_at E + cf_refresh_seconds cfg) (Some (rt_family_id rt))) (w_session w)"
    and "valid_db (w_committed w')"
    and "kset K jti (dumps (grace_payload (tr_access_token resp) (tr_refresh_token resp))) 30 (w_redis w) = (Inr (), w_redis w')"
proof -
  let ?a = "issued_access C cfg E user" and ?r = "issued_refresh C cfg E user"
  from assms obtain created w2 where
    rec: "create_refresh_token_record_service E (u_id user) (au_jti E)
             (au_issued_at E + cf_refresh_seconds cfg) (Some (rt_family_id rt)) w = (Inr created, w2)" and
    rest: "(if created = None then bind_io rollback (\<lambda>_. raise_io (Http 409 ''Refresh Token Conflict''))
      else bind_io (commit (au_commit_fault E)) (\<lambda>_.
        bind_io (faulty (au_refresh_fault E) (return_io ())) (\<lambda>_.
        bind_io (add_token_to_grace_period K jti ?a ?r) (\<lambda>_. return_io (bearer ?a ?r))))) w2 = (Inr resp, w')"
    unfolding rotate_token_def Let_def by (rule bind_io_returnsE)
  from rest have "created \<noteq> None" by (cases created) (auto simp: io_defs rollback_def)
  then obtain t where t: "created = Some t" by blast
  with rest have "bind_io (commit (au_commit_fault E)) (\<lambda>_.
        bind_io (faulty (au_refresh_fault E) (return_io ())) (\<lambda>_.
        bind_io (add_token_to_grace_period K jti ?a ?r) (\<lambda>_. return_io (bearer ?a ?r)))) w2 = (Inr resp, w')" by simp
  then obtain u w3 where com: "commit (au_commit_fault E) w2 = (Inr u, w3)" and
    "bind_io (faulty (au_refresh_fault E) (return_io ())) (\<lambda>_.
       bind_io (add_token_to_grace_period K jti ?a ?r) (\<lambda>_. return_io (bearer ?a ?r))) w3 = (Inr resp, w')"
    by (rule bind_io_returnsE)
  then have "bind_io (add_token_to_grace_period K jti ?a ?r) (\<lambda>_. return_io (bearer ?a ?r)) w3 = (Inr resp, w')"
    by (cases "au_refresh_fault E") (auto simp: faulty_def raise_io_def bind_io_def return_io_def)
  then have grace: "add_token_to_grace_period K jti ?a ?r w3 = (Inr (), w')" and resp: "resp = bearer ?a ?r"
    by (auto simp: return_io_def elim!: bind_io_returnsE)
  from rec t com have "w_committed w3 = add_token (new_token E (u_id user) (au_jti E)
      (au_issued_at E + cf_refresh_seconds cfg) (Some (rt_family_id rt))) (w_session w)"
    "valid_db (w_committed w3)" "w_redis w3 = w_redis w"
    by (auto simp: create_record_Inr commit_Inr)
  with on_redis_world [OF grace [unfolded add_token_to_grace_period_def]] resp
  show "resp = bearer ?a ?r" and "w_committed w' = add_token (new_token E (u_id user) (au_jti E)
      (au_issued_at E + cf_refresh_seconds cfg) (Some (rt_family_id rt))) (w_session w)"
    and "valid_db (w_committed w')"
    and "kset K jti (dumps (grace_payload (tr_access_token resp) (tr_refresh_token resp))) 30 (w_redis w) = (Inr (), w_redis w')"
    by (simp_all add: bearer_def)
qed

lemma exchange_Inr:
  assumes "exchange_token C cfg K E jti sub rt w = (Inr resp, w')"
  obtains user s where "user \<in> set (users (w_session w))" and "sub = JStr s" and "u_username user = Some s"
    and "text_ok s" and "u_id user = rt_user_id rt" and "rotate_token C cfg K E jti rt user w = (Inr resp, w')"
proof -
  from assms obtain found w1 where look: "user_of_claim sub w = (Inr found, w1)" and
    rest: "(case found of
       None \<Rightarrow>
         bind_io (revoke_family_token E (rt_family_id rt)) (\<lambda>_.
         bind_io (commit (au_commit_fault E)) (\<lambda>_.
         raise_io (Http 401 ''User not found'')))
     | Some user \<Rightarrow>
         if u_id user \<noteq> rt_user_id rt then raise_io (Http 403 ''Invalid token'')
         else rotate_token C cfg K E jti rt user) w1 = (Inr resp, w')"
    unfolding exchange_token_def by (rule bind_io_returnsE)
  from rest have "found \<noteq> None" by (cases found) (auto simp: raise_io_def elim!: bind_io_returnsE)
  then obtain user where found: "found = Some user" by blast
  with rest have "u_id user = rt_user_id rt" and "rotate_token C cfg K E jti rt user w1 = (Inr resp, w')"
    by (auto simp: raise_io_def split: if_splits)
  with user_of_claim_Inr [OF look [unfolded found]] that show ?thesis by blast
qed

text \<open>What a refresh that issued tokens did.\<close>

definition rotated :: "crypto \<Rightarrow> config \<Rightarrow> auth_env \<Rightarrow> pystr \<Rightarrow> json \<Rightarrow> db \<Rightarrow> token_response \<Rightarrow> db \<Rightarrow> bool" where
  "rotated C cfg E jti sub d resp d' \<longleftrightarrow>
     (\<exists>t user name. t \<in> set (refresh_tokens d) \<and> usable jti (au_used_at E) t \<and>
        user \<in> set (users d) \<and> u_id user = rt_user_id t \<and> sub = JStr name \<and> u_username user = Some name \<and>
        resp = bearer (issued_access C cfg E user) (issued_refresh C cfg E user) \<and>
        d' = add_token (successor cfg E t) (revoke_where (usable jti (au_used_at E)) d))"

lemma revoked_sel [simp]: "rt_user_id (revoked t) = rt_user_id t" "rt_family_id (revoked t) = rt_family_id t"
  "rt_token_hash (revoked t) = rt_token_hash t" "rt_is_revoked (revoked t)"
  by (simp_all add: revoked_def)

lemma revoke_where_users [simp]: "users (revoke_where P d) = users d"
  by (simp add: revoke_where_def)

lemma stale_answer:
  assumes "stale_token K fl E jti sub w = (Inr resp, w')"
  shows "w_committed w' = w_committed w \<and> has_revoked jti (w_session w) \<and>
    (\<exists>text j. kget K jti (w_redis w) = (Inr (Some text), w_redis w') \<and> loads fl text = Some j \<and>
       token_response_of j = Inr resp)"
proof -
  from assms obtain found w1 where look: "get_refresh_token jti w = (Inr found, w1)" and
    rest: "(case found of
       None \<Rightarrow> raise_io (Http 401 ''Invalid token'')
     | Some rt \<Rightarrow>
         if rt_is_revoked rt then
           bind_io (token_in_grace_period K fl jti) (\<lambda>grace_period_result.
           if \<not> truthy grace_period_result then
             bind_io (revoke_family_token E (rt_family_id rt)) (\<lambda>_.
             bind_io (commit (au_commit_fault E)) (\<lambda>_.
             raise_io (Http 401 ''Token Expired'')))
           else lift_io (token_response_of grace_period_result))
         else if rt_expires_at rt < au_checked_at E then
           bind_io (revoke_refresh_token E jti) (\<lambda>_.
           bind_io (commit (au_commit_fault E)) (\<lambda>_.
           raise_io (Http 401 ''Refresh token expired'')))
         else
           bind_io (user_of_claim sub) (\<lambda>user.
           raise_io (Exn AttributeError ''NoneType''))) w1 = (Inr resp, w')"
    unfolding stale_token_def by (rule bind_io_returnsE)
  from rest obtain rt where found: "found = Some rt" by (cases found) (auto simp: raise_io_def)
  from look found have w1: "w1 = w" and
    "filter (\<lambda>t. rt_token_hash t = jti) (refresh_tokens (w_session w)) = [rt]"
    by (auto simp: get_refresh_token_def bound_text_def on_session_def query_def raise_io_def split: if_splits)
  then have rt: "rt \<in> set (refresh_tokens (w_session w))" "rt_token_hash rt = jti"
    by (auto dest: filter_singleD)
  from rest found have revoked: "rt_is_revoked rt"
    by (auto simp: raise_io_def split: if_splits elim!: bind_io_returnsE)
  with rest found w1 have "bind_io (token_in_grace_period K fl jti) (\<lambda>grace_period_result.
           if \<not> truthy grace_period_result then
             bind_io (revoke_family_token E (rt_family_id rt)) (\<lambda>_.
             bind_io (commit (au_commit_fault E)) (\<lambda>_.
             raise_io (Http 401 ''Token Expired'')))
           else lift_io (token_response_of grace_period_result)) w = (Inr resp, w')" by simp
  then obtain j w2 where grace: "token_in_grace_period K fl jti w = (Inr j, w2)" and
    "(if \<not> truthy j then
             bind_io (revoke_family_token E (rt_family_id rt)) (\<lambda>_.
             bind_io (commit (au_commit_fault E)) (\<lambda>_.
             raise_io (Http 401 ''Token Expired'')))
           else lift_io (token_response_of j)) w2 = (Inr resp, w')" by (rule bind_io_returnsE)
  then have "truthy j" "token_response_of j = Inr resp" "w' = w2"
    by (auto simp: raise_io_def lift_io_def split: if_splits elim!: bind_io_returnsE)
  moreover have "w_committed w2 = w_committed w"
    using grace_db [OF grace] by simp
  ultimately show ?thesis
    using rt revoked grace_found [OF grace] by (auto simp: has_revoked_def list_ex_iff)
qed

text \<open>
  C20. Refresh tokens rotate: a refresh that answers either exchanged a token that was unrevoked
  and unexpired, in one commit that revokes it and records its successor in the same family for
  the same user, or it changed nothing and repeated the answer kept for a token already revoked.
\<close>

theorem refresh_rotates_token:
  assumes "idle w" and "valid_db (au_before E (w_committed w))"
    and "decoded C (au_decoded_at E) token = Inr payload" and "claims_of payload = Inr (JStr jti, sub)"
    and "refresh_token C cfg K fl E token w = (Inr resp, w')"
  shows "(rotated C cfg E jti sub (au_before E (w_committed w)) resp (w_committed w') \<and> valid_db (w_committed w')) \<or>
    (w_committed w' = au_between E (au_before E (w_committed w)) \<and> has_revoked jti (w_committed w') \<and>
     (\<exists>text j. kget K jti (w_redis w) = (Inr (Some text), w_redis w') \<and> loads fl text = Some j \<and>
       token_response_of j = Inr resp))"
proof -
  let ?d = "au_before E (w_committed w)"
  from refresh_run [OF assms(3,4,1,5)] obtain w1 where
    run: "bind_io (validate_and_revoke_refresh_token_service E jti) (\<lambda>rt_record.
      case rt_record of
        None \<Rightarrow> refuse_token K fl E jti sub
      | Some rt \<Rightarrow> exchange_token C cfg K E jti sub rt) (requested E w) = (Inr resp, w1)"
    and w': "w' = w1\<lparr>w_session := w_committed w1\<rparr>" .
  from run obtain found w2 where upd: "validate_and_revoke_refresh_token_service E jti (requested E w) = (Inr found, w2)"
    and rest: "(case found of None \<Rightarrow> refuse_token K fl E jti sub
      | Some rt \<Rightarrow> exchange_token C cfg K E jti sub rt) w2 = (Inr resp, w1)" by (rule bind_io_returnsE)
  note upd = update_outcome [OF upd]
  show ?thesis
  proof (cases found)
    case None
    with upd(3) have "revoke_where (usable jti (au_used_at E)) ?d = ?d"
      by (intro revoke_none) (auto simp: filter_empty_conv)
    with upd(2) have w2: "w2 = requested E w" by (simp add: requested_def)
    with rest None have "stale_token K fl E jti sub (w\<lparr>w_committed := au_between E ?d, w_session := au_between E ?d\<rparr>) = (Inr resp, w1)"
      by (simp add: refuse_token_def bind_io_def others_def requested_def)
    from stale_answer [OF this] w' show ?thesis by auto
  next
    case (Some rt)
    with upd(4) obtain t where t: "filter (usable jti (au_used_at E)) (refresh_tokens ?d) = [t]" "rt = revoked t" by auto
    then have t_in: "t \<in> set (refresh_tokens ?d)" "usable jti (au_used_at E) t"
      by (auto dest: filter_singleD)
    from rest Some have "exchange_token C cfg K E jti sub rt w2 = (Inr resp, w1)" by simp
    then obtain user s where user: "user \<in> set (users (w_session w2))" "sub = JStr s" "u_username user = Some s"
      "u_id user = rt_user_id rt" and rot: "rotate_token C cfg K E jti rt user w2 = (Inr resp, w1)"
      by (rule exchange_Inr)
    from rotate_outcome [OF rot] user t t_in upd(2) w' show ?thesis
      by (auto simp: rotated_def successor_def intro!: exI [of _ t] exI [of _ user])
  qed
qed

subsection \<open>A token that is used again\<close>

lemma fits_token_hash: "valid_db d \<Longrightarrow> t \<in> set (refresh_tokens d) \<Longrightarrow> text_ok (rt_token_hash t)"
  by (simp add: valid_db_def fits_columns_def fits_refresh_token_def list_all_iff)

lemma get_refresh_token_found:
  assumes "valid_db (w_session w)" and "t \<in> set (refresh_tokens (w_session w))"
  shows "get_refresh_token (rt_token_hash t) w = (Inr (Some t), w)"
proof -
  have "filter (\<lambda>s. rt_token_hash s = rt_token_hash t) (refresh_tokens (w_session w)) = [t]"
    using assms filter_unique [of rt_token_hash "\<lambda>_. True" "refresh_tokens (w_session w)" t]
    by (simp add: valid_db_def integrity_def unique_token_hash_def)
  with fits_token_hash [OF assms] show ?thesis
    by (simp add: get_refresh_token_def bound_text_def on_session_def query_def result_one_or_none_def)
qed

lemma valid_revoke_where:
  assumes "valid_db d"
  shows "valid_db (revoke_where P d)"
proof -
  let ?r = "\<lambda>t. if P t then revoked t else t"
  have "rt_id \<circ> ?r = rt_id" "rt_token_hash \<circ> ?r = rt_token_hash" "fits_refresh_token \<circ> ?r = fits_refresh_token"
    "(\<lambda>t. rt_user_id (?r t) \<in> U) = (\<lambda>t. rt_user_id t \<in> U)" for U
    by (auto simp: fun_eq_iff revoked_def fits_refresh_token_def)
  with assms show ?thesis
    by (simp add: valid_db_def integrity_def primary_keys_def idx_pending_price_def
        uq_sms_transaction_id_def uq_sms_amount_inventory_date_time_def unique_users_def
        unique_token_hash_def foreign_keys_def fits_columns_def revoke_where_def list.pred_map comp_def
        cong: option.case_cong)
qed

text \<open>A refresh with a token that the UPDATE does not find.\<close>

definition refused_at :: "auth_env \<Rightarrow> 'r world \<Rightarrow> 'r world" where
  "refused_at E w = w\<lparr>w_committed := au_between E (au_before E (w_committed w)),
     w_session := au_between E (au_before E (w_committed w))\<rparr>"

lemma refused_run:
  assumes "decoded C (au_decoded_at E) token = Inr payload" and "claims_of payload = Inr (JStr jti, sub)"
    and "idle w" and "valid_db (au_before E (w_committed w))" and "text_ok jti" and "au_update_fault E = None"
    and "\<And>t. t \<in> set (refresh_tokens (au_before E (w_committed w))) \<Longrightarrow> \<not> usable jti (au_used_at E) t"
    and "stale_token K fl E jti sub (refused_at E w) = (x, w')"
  shows "refresh_token C cfg K fl E token w = (x, w'\<lparr>w_session := w_committed w'\<rparr>)"
proof -
  have "revoke_where (usable jti (au_used_at E)) (au_before E (w_committed w)) = au_before E (w_committed w)"
    using assms(7) by (rule revoke_none)
  moreover have "filter (usable jti (au_used_at E)) (refresh_tokens (au_before E (w_committed w))) = []"
    using assms(7) by (simp add: filter_empty_conv)
  ultimately have "validate_and_revoke_refresh_token_service E jti (requested E w) = (Inr None, requested E w)"
    using assms(4-6)
    by (simp add: validate_and_revoke_refresh_token_service_def bound_text_def bind_io_def get_io_def
        faulty_def flush_change_def lift_io_def return_io_def result_one_or_none_def requested_def)
  moreover have "others (au_before E) w = (Inr (), requested E w)"
    using assms(3) by (simp add: others_def requested_def idle_def)
  moreover have "others (au_between E) (requested E w) = (Inr (), refused_at E w)"
    by (simp add: others_def requested_def refused_at_def)
  ultimately show ?thesis
    using assms(8) by (simp add: refresh_decoded [OF assms(1,2)] get_db_def bind_io_def refuse_token_def rollback_def)
qed

text \<open>
  C21. The reuse of a refresh token revokes its family: a token that was already exchanged, and
  whose grace period is over, is refused with 401, and the commit revokes every token descended
  from the same login, and nothing else.
\<close>

theorem reused_token_revokes_family:
  assumes "decoded C (au_decoded_at E) token = Inr payload" and "claims_of payload = Inr (JStr (rt_token_hash t), sub)"
    and "idle w" and "valid_db (au_before E (w_committed w))"
    and "valid_db (au_between E (au_before E (w_committed w)))"
    and "list_all (\<lambda>s. \<not> usable (rt_token_hash t) (au_used_at E) s) (refresh_tokens (au_before E (w_committed w)))"
    and "t \<in> set (refresh_tokens (au_between E (au_before E (w_committed w))))" and "rt_is_revoked t"
    and "kget K (rt_token_hash t) (w_redis w) = (Inr None, r)"
    and "au_update_fault E = None" and "au_flush_fault E = None" and "au_commit_fault E = None"
  shows "\<exists>w'. refresh_token C cfg K fl E token w = (Inl (Http 401 ''Token Expired''), w') \<and>
    w_committed w' = revoke_where (\<lambda>s. rt_family_id s = rt_family_id t)
      (au_between E (au_before E (w_committed w)))"
proof -
  let ?d = "au_between E (au_before E (w_committed w))"
  let ?d' = "revoke_where (\<lambda>s. rt_family_id s = rt_family_id t) ?d"
  have "get_refresh_token (rt_token_hash t) (refused_at E w) = (Inr (Some t), refused_at E w)"
    using assms(5,7) by (intro get_refresh_token_found) (simp_all add: refused_at_def)
  then have "stale_token K fl E (rt_token_hash t) sub (refused_at E w) =
      (Inl (Http 401 ''Token Expired''), w\<lparr>w_committed := ?d', w_session := ?d', w_redis := r\<rparr>)"
    using assms(5,8-12) valid_revoke_where [OF assms(5)]
    by (simp add: stale_token_def bind_io_def token_in_grace_period_def on_redis_def refused_at_def
        return_io_def revoke_family_token_def revocation_def try_io_def faulty_def flush_change_def
        commit_def raise_io_def)
  from refused_run [OF assms(1-4) fits_token_hash [OF assms(5,7)] assms(10) _ this] assms(6)
  show ?thesis by (auto simp: list_all_iff)
qed

subsection \<open>A retry in the grace period\<close>

lemma token_response_of_grace: "token_response_of (grace_payload access refresh) = Inr (bearer access refresh)"
  by (simp add: token_response_of_def grace_payload_def bearer_def)

lemma issued_scalar:
  assumes "token_codec C" and "u_username user = Some name" and "text_ok name" and "text_ok (au_jti E)"
  shows "list_all scalar (issued_access C cfg E user)" and "list_all scalar (issued_refresh C cfg E user)"
  using token_codec.encode_text [OF assms(1)] signable_access signable_refresh text_ok_scalar assms(2-4)
  by (simp_all add: issued_access_def issued_refresh_def create_access_token_def create_refresh_token_def
      username_claim_def username_text_def)

text \<open>After a refresh that answered, the key of the token, while it lasts, is what it answered.\<close>

lemma answered_key:
  assumes "token_codec C" and "redis_key_server K"
    and "idle w" and "valid_db (au_before E (w_committed w))"
    and "decoded C (au_decoded_at E) token = Inr payload" and "claims_of payload = Inr (JStr jti, sub)"
    and "refresh_token C cfg K fl E token w = (Inr resp, w')"
  shows "has_revoked jti (w_committed w') \<and>
    (\<exists>stored j. kvalue K (w_redis w') jti = Some stored \<and> loads fl stored = Some j \<and> token_response_of j = Inr resp)"
proof -
  let ?d = "au_before E (w_committed w)"
  from refresh_run [OF assms(5,6,3,7)] obtain w1 where
    run: "bind_io (validate_and_revoke_refresh_token_service E jti) (\<lambda>rt_record.
      case rt_record of
        None \<Rightarrow> refuse_token K fl E jti sub
      | Some rt \<Rightarrow> exchange_token C cfg K E jti sub rt) (requested E w) = (Inr resp, w1)"
    and w': "w' = w1\<lparr>w_session := w_committed w1\<rparr>" .
  from run obtain found w2 where upd: "validate_and_revoke_refresh_token_service E jti (requested E w) = (Inr found, w2)"
    and rest: "(case found of None \<Rightarrow> refuse_token K fl E jti sub
      | Some rt \<Rightarrow> exchange_token C cfg K E jti sub rt) w2 = (Inr resp, w1)" by (rule bind_io_returnsE)
  show ?thesis
  proof (cases found)
    case None
    from rest None have "stale_token K fl E jti sub (w2\<lparr>w_committed := au_between E (w_committed w2),
        w_session := au_between E (w_session w2)\<rparr>) = (Inr resp, w1)"
      by (simp add: refuse_token_def bind_io_def others_def)
    from stale_answer [OF this] obtain stored j where
      1: "w_committed w1 = au_between E (w_committed w2)" "has_revoked jti (au_between E (w_session w2))"
        "kget K jti (w_redis w2) = (Inr (Some stored), w_redis w1)" "loads fl stored = Some j"
        "token_response_of j = Inr resp" by auto
    moreover have "w_session w2 = w_committed w2"
    proof -
      from update_outcome(3) [OF upd None] have "revoke_where (usable jti (au_used_at E)) ?d = ?d"
        by (intro revoke_none) (auto simp: filter_empty_conv)
      with update_outcome(2) [OF upd] show ?thesis by simp
    qed
    ultimately show ?thesis
      using redis_key_server.kget_Inr [OF assms(2) 1(3)] w' by auto
  next
    case (Some rt)
    from update_outcome(4) [OF upd Some] obtain t where
      t: "filter (usable jti (au_used_at E)) (refresh_tokens ?d) = [t]" "rt = revoked t" by auto
    then have used: "t \<in> set (refresh_tokens ?d)" "usable jti (au_used_at E) t" by (auto dest: filter_singleD)
    from rest Some have "exchange_token C cfg K E jti sub rt w2 = (Inr resp, w1)" by simp
    then obtain user s where user: "user \<in> set (users (w_session w2))" "u_username user = Some s" "text_ok s"
      "u_id user = rt_user_id rt" and rot: "rotate_token C cfg K E jti rt user w2 = (Inr resp, w1)"
      by (rule exchange_Inr)
    note rot = rotate_outcome [OF rot]
    have "text_ok (au_jti E)"
      using fits_token_hash [OF rot(3), of "new_token E (u_id user) (au_jti E)
        (au_issued_at E + cf_refresh_seconds cfg) (Some (rt_family_id rt))"]
      by (simp add: rot(2) add_token_def) (simp add: new_token_def)
    note scalar = issued_scalar [OF assms(1) user(2,3) this, of cfg]
    from redis_key_server.kset_Inr [OF assms(2) rot(4)] rot(1) have
      "kvalue K (w_redis w1) jti = Some (dumps (grace_payload (issued_access C cfg E user) (issued_refresh C cfg E user)))"
      by (simp add: bearer_def)
    moreover have "has_revoked jti (w_committed w1)"
      using used rot(2) update_outcome(2) [OF upd]
      by (auto simp: has_revoked_def list_ex_iff add_token_def revoke_where_def usable_def revoked_def
          intro!: bexI [of _ "revoked t"])
    ultimately show ?thesis
      using grace_payload_read [OF scalar] rot(1) w' by (simp add: token_response_of_grace)
  qed
qed

text \<open>
  C23. A retry in the grace period gets the same answer: a client that lost the response of a
  refresh and sends the same token again, while the key of the grace period lasts, receives the
  very pair of tokens that was issued, and the database is not changed.
\<close>

theorem refresh_retry_repeats_answer:
  assumes "token_codec C" and "redis_key_server K"
    and "idle w" and "valid_db (au_before E (w_committed w))"
    and "decoded C (au_decoded_at E) token = Inr payload" and "claims_of payload = Inr (JStr jti, sub)"
    and "refresh_token C cfg K fl E token w = (Inr resp, w1)" and "valid_db (w_committed w1)"
    and "decoded C (au_decoded_at F) token = Inr payload"
    and "au_before F = id" and "au_between F = id" and "au_update_fault F = None"
    and "kget K jti (w_redis w1) = (Inr (Some stored), r)"
  shows "\<exists>w2. refresh_token C cfg K fl F token w1 = (Inr resp, w2) \<and> w_committed w2 = w_committed w1"
proof -
  from answered_key [OF assms(1-7)] obtain text' j where rev: "has_revoked jti (w_committed w1)" and
    key: "kvalue K (w_redis w1) jti = Some text'" "loads fl text' = Some j" "token_response_of j = Inr resp" by blast
  from redis_key_server.kget_Inr [OF assms(2,13)] key have "stored = text'"
    by (auto simp: map_le_def dom_def)
  with key have j: "loads fl stored = Some j" "truthy j" "stored \<noteq> []"
    by (auto simp: token_response_of_def response_error_def loads_def scan_once.simps split: json.splits)
  from rev obtain t where t: "t \<in> set (refresh_tokens (w_committed w1))" "rt_token_hash t = jti" "rt_is_revoked t"
    by (auto simp: has_revoked_def list_ex_iff)
  have idle1: "idle w1" using get_db_idle assms(7) by (auto simp: refresh_token_def)
  with assms(10,11) have at: "refused_at F w1 = w1" by (simp add: refused_at_def idle_def)
  have "get_refresh_token jti w1 = (Inr (Some t), w1)"
    using get_refresh_token_found [of w1 t] assms(8) t idle1 by (simp add: idle_def)
  then have "stale_token K fl F jti sub (refused_at F w1) = (Inr resp, w1\<lparr>w_redis := r\<rparr>)"
    using t j key(3) assms(13)
    by (simp add: at stale_token_def bind_io_def token_in_grace_period_def on_redis_def return_io_def lift_io_def)
  from refused_run [OF assms(9,6) idle1 _ _ assms(12) _ this] assms(8,10) t
    revoked_not_usable [OF assms(8) rev] fits_token_hash [OF assms(8) t(1)] show ?thesis by auto
qed

subsection \<open>A session\<close>

text \<open>Alice logs in and exchanges her refresh token; the token is sent again, and much later again.\<close>

definition alice :: user_row where
  "alice = sample_user\<lparr>u_hashed_password := Some (36 # lit ''secret'')\<rparr>"

definition session_world :: "ref_state world" where
  "session_world = \<lparr>w_committed = empty_db\<lparr>users := [alice]\<rparr>, w_session = empty_db\<lparr>users := [alice]\<rparr>,
     w_redis = ref_empty\<rparr>"

definition auth_at :: "int \<Rightarrow> string \<Rightarrow> int \<Rightarrow> auth_env" where
  "auth_at now jti i = \<lparr>au_decoded_at = now, au_used_at = now, au_checked_at = now, au_issued_at = now,
     au_jti = lit jti, au_family = ''f1'', au_token_id = i, au_before = id, au_between = id,
     au_update_fault = None, au_flush_fault = None, au_commit_fault = None, au_refresh_fault = None\<rparr>"

definition logged_in :: "(exn + token_response) \<times> ref_state world" where
  "logged_in = login_user plain_crypto default_config (auth_at 0 ''a'' 1) (lit ''alice'') (lit ''secret'') session_world"

definition first_token :: pystr where
  "first_token = issued_refresh plain_crypto default_config (auth_at 0 ''a'' 1) alice"

definition refresh_at :: "int \<Rightarrow> string \<Rightarrow> int \<Rightarrow> ref_state world \<Rightarrow> (exn + token_response) \<times> ref_state world" where
  "refresh_at now jti i w = refresh_token plain_crypto default_config ref_keys (\<lambda>_. None)
     (auth_at now jti i) (Some first_token) w"

definition first_payload :: "(pystr \<times> json) list" where
  "first_payload = [(lit ''sub'', JStr (lit ''alice'')), (lit ''jti'', JStr (lit ''a'')),
     (lit ''type'', JStr (lit ''refresh'')), (lit ''exp'', JInt (30 * 24 * 60 * 60))]"

definition refreshed :: "(exn + token_response) \<times> ref_state world" where
  "refreshed = refresh_at 60 ''b'' 2 (snd logged_in)"

definition second_pair :: token_response where
  "second_pair = bearer (issued_access plain_crypto default_config (auth_at 60 ''b'' 2) alice)
     (issued_refresh plain_crypto default_config (auth_at 60 ''b'' 2) alice)"

text \<open>The world when the grace period is over.\<close>

definition ungraced :: "ref_state world" where
  "ungraced = (snd refreshed)\<lparr>w_redis := ref_empty\<rparr>"

lemma auth_at_sel [simp]: "au_decoded_at (auth_at now jti i) = now" "au_used_at (auth_at now jti i) = now"
  "au_before (auth_at now jti i) = id" "au_between (auth_at now jti i) = id"
  "au_update_fault (auth_at now jti i) = None" "au_flush_fault (auth_at now jti i) = None"
  "au_commit_fault (auth_at now jti i) = None"
  by (simp_all add: auth_at_def)

text \<open>Each run is evaluated once; \<open>revocations\<close> are the flags of the tokens of the family of the first.\<close>

definition revocations :: "db \<Rightarrow> bool list" where
  "revocations d = map rt_is_revoked (refresh_tokens (revoke_where
     (\<lambda>s. rt_family_id s = rt_family_id (hd (refresh_tokens d))) d))"

lemma logged_in_checked: "checked (\<lambda>(x, w). valid_db (w_committed w) \<and> rs_faults (w_redis w) = [] \<and>
    rs_keys (w_redis w) (lit ''a'') = None \<and>
    x = Inr (bearer (issued_access plain_crypto default_config (auth_at 0 ''a'' 1) alice) first_token)) logged_in"
  by code_simp

lemma refreshed_checked: "checked (\<lambda>(x, w). x = Inr second_pair \<and> valid_db (w_committed w) \<and>
    rs_faults (w_redis w) = [] \<and> rs_keys (w_redis w) (lit ''a'') \<noteq> None \<and>
    map rt_is_revoked (refresh_tokens (w_committed w)) = [True, False] \<and>
    rt_token_hash (hd (refresh_tokens (w_committed w))) = lit ''a'' \<and>
    list_all (\<lambda>s. \<not> usable (lit ''a'') 1000 s) (refresh_tokens (w_committed w)) \<and>
    revocations (w_committed w) = [True, True]) refreshed"
  by code_simp

lemma logged_in_facts: "valid_db (w_committed (snd logged_in))" "rs_faults (w_redis (snd logged_in)) = []"
  "rs_keys (w_redis (snd logged_in)) (lit ''a'') = None"
  "fst logged_in = Inr (bearer (issued_access plain_crypto default_config (auth_at 0 ''a'' 1) alice) first_token)"
  using logged_in_checked by (simp_all add: checked_def case_prod_beta)

lemma refreshed_facts: "fst refreshed = Inr second_pair" "valid_db (w_committed (snd refreshed))"
  "rs_faults (w_redis (snd refreshed)) = []" "rs_keys (w_redis (snd refreshed)) (lit ''a'') \<noteq> None"
  "map rt_is_revoked (refresh_tokens (w_committed (snd refreshed))) = [True, False]"
  "rt_token_hash (hd (refresh_tokens (w_committed (snd refreshed)))) = lit ''a''"
  "list_all (\<lambda>s. \<not> usable (lit ''a'') 1000 s) (refresh_tokens (w_committed (snd refreshed)))"
  "revocations (w_committed (snd refreshed)) = [True, True]"
  using refreshed_checked by (simp_all add: checked_def case_prod_beta)

lemmas refreshed_Inr = refreshed_facts(1)
lemmas session_valid = logged_in_facts(1) refreshed_facts(2)
lemmas session_keys = logged_in_facts(2,3) refreshed_facts(3,4)

text \<open>The first of the two tokens of the refreshed session is revoked.\<close>

lemma first_row: "hd (refresh_tokens (w_committed (snd refreshed))) \<in> set (refresh_tokens (w_committed (snd refreshed)))"
  "rt_is_revoked (hd (refresh_tokens (w_committed (snd refreshed))))"
  using refreshed_facts(5) by (cases "refresh_tokens (w_committed (snd refreshed))"; simp)+

lemma first_payload_claims: "claims_of first_payload = Inr (JStr (lit ''a''), JStr (lit ''alice''))"
  by code_simp

lemma first_token_decoded:
  "decoded plain_crypto 60 (Some first_token) = Inr first_payload"
  "decoded plain_crypto 70 (Some first_token) = Inr first_payload"
  "decoded plain_crypto 1000 (Some first_token) = Inr first_payload"
  by (code_simp+)

lemma session_idle: "idle (snd logged_in)" "idle (snd refreshed)"
  by (simp_all add: logged_in_def refreshed_def refresh_at_def login_user_def refresh_token_def idle_get_db)

lemma refreshed_run: "refresh_token plain_crypto default_config ref_keys (\<lambda>_. None) (auth_at 60 ''b'' 2)
    (Some first_token) (snd logged_in) = (Inr second_pair, snd refreshed)"
  using refreshed_Inr by (simp add: refreshed_def refresh_at_def prod_eq_iff)

lemma ref_kget: "rs_faults s = [] \<Longrightarrow> kget ref_keys k s = (Inr (rs_keys s k), s)"
  by (simp add: ref_keys_def ref_cmd_def)

theorem refresh_rotates_token_witness:
  "rotated plain_crypto default_config (auth_at 60 ''b'' 2) (lit ''a'') (JStr (lit ''alice''))
     (w_committed (snd logged_in)) second_pair (w_committed (snd refreshed)) \<and>
   map rt_is_revoked (refresh_tokens (w_committed (snd refreshed))) = [True, False]"
proof -
  have "kget ref_keys (lit ''a'') (w_redis (snd logged_in)) = (Inr None, w_redis (snd logged_in))"
    by (simp add: ref_kget session_keys)
  then show ?thesis
    using refresh_rotates_token [OF session_idle(1) _ _ first_payload_claims refreshed_run] session_valid(1)
      refreshed_facts(5)
    by (simp add: first_token_decoded)
qed

theorem refresh_retry_repeats_answer_witness:
  "\<exists>w2. refresh_token plain_crypto default_config ref_keys (\<lambda>_. None) (auth_at 70 ''c'' 3)
     (Some first_token) (snd refreshed) = (Inr second_pair, w2) \<and> w_committed w2 = w_committed (snd refreshed)"
proof -
  from session_keys obtain stored where
    "kget ref_keys (lit ''a'') (w_redis (snd refreshed)) = (Inr (Some stored), w_redis (snd refreshed))"
    by (auto simp: ref_kget)
  from refresh_retry_repeats_answer [OF plain.token_codec_axioms ref_keys.redis_key_server_axioms
      session_idle(1) _ _ first_payload_claims refreshed_run session_valid(2) _ _ _ _ this, of "auth_at 70 ''c'' 3"]
    session_valid(1) show ?thesis by (simp add: first_token_decoded)
qed

theorem reused_token_revokes_family_witness:
  "fst (refresh_at 1000 ''d'' 4 ungraced) = Inl (Http 401 ''Token Expired'') \<and>
   map rt_is_revoked (refresh_tokens (w_committed (snd (refresh_at 1000 ''d'' 4 ungraced)))) = [True, True]"
proof -
  let ?t = "hd (refresh_tokens (w_committed ungraced))"
  have same: "w_committed ungraced = w_committed (snd refreshed)" by (simp add: ungraced_def)
  have hash: "rt_token_hash ?t = lit ''a''" unfolding same by (rule refreshed_facts)
  have 1: "list_all (\<lambda>s. \<not> usable (lit ''a'') 1000 s) (refresh_tokens (w_committed ungraced))"
    unfolding same by (rule refreshed_facts)
  have 2: "?t \<in> set (refresh_tokens (w_committed ungraced))" "rt_is_revoked ?t"
    unfolding same by (rule first_row)+
  have 3: "map rt_is_revoked (refresh_tokens (revoke_where (\<lambda>s. rt_family_id s = rt_family_id ?t)
      (w_committed ungraced))) = [True, True]"
    unfolding same using refreshed_facts(8) by (simp add: revocations_def)
  have 4: "kget ref_keys (rt_token_hash ?t) (w_redis ungraced) = (Inr None, ref_empty)"
    by (simp add: ref_kget ungraced_def) (simp add: ref_empty_def)
  have "idle ungraced" "valid_db (w_committed ungraced)"
    using session_idle(2) session_valid(2) by (simp_all add: ungraced_def idle_def)
  from reused_token_revokes_family [of plain_crypto "auth_at 1000 ''d'' 4" "Some first_token" first_payload ?t
      "JStr (lit ''alice'')" ungraced ref_keys ref_empty default_config "\<lambda>_. None"] this 1 2 4
  obtain w' where "refresh_at 1000 ''d'' 4 ungraced = (Inl (Http 401 ''Token Expired''), w')"
    "w_committed w' = revoke_where (\<lambda>s. rt_family_id s = rt_family_id ?t) (w_committed ungraced)"
    by (auto simp: first_token_decoded first_payload_claims hash refresh_at_def)
  with 3 show ?thesis by simp
qed

theorem revoked_token_is_never_exchanged_witness:
  "has_revoked (lit ''a'') (w_committed (snd (refresh_at 1000 ''d'' 4 ungraced))) \<and>
   revocation_of (w_committed ungraced) (w_committed (snd (refresh_at 1000 ''d'' 4 ungraced)))"
proof -
  have rev: "has_revoked (lit ''a'') (w_committed ungraced)"
    using first_row refreshed_facts(6) by (auto simp: has_revoked_def ungraced_def list_ex_iff)
  have "idle ungraced" "valid_db (w_committed ungraced)"
    using session_idle(2) session_valid(2) by (simp_all add: ungraced_def idle_def)
  from revoked_token_is_never_exchanged [of ungraced "auth_at 1000 ''d'' 4" "lit ''a''" plain_crypto
      "Some first_token" first_payload "JStr (lit ''alice'')" default_config ref_keys "\<lambda>_. None"
      "fst (refresh_at 1000 ''d'' 4 ungraced)" "snd (refresh_at 1000 ''d'' 4 ungraced)"] this rev
  show ?thesis by (simp add: first_token_decoded first_payload_claims refresh_at_def)
qed

end
