(* ===== verification/Accounts.thy ===== *)
theory Accounts
  imports Session_Safety
begin

text \<open>
  What the accounts guarantee: who registered can log in and use the token; which Telegram users
  can be created; and what the list of users does with users from the registration.
\<close>

subsection \<open>Registration and login\<close>

lemma flush_user_Inr:
  "flush_user E user already w = (Inr u, w') \<longleftrightarrow>
   ue_flush_fault E = None \<and> u = user \<and> valid_db (add_user user (w_session w)) \<and>
   w' = w\<lparr>w_session := add_user user (w_session w)\<rparr>"
  by (auto simp: flush_user_def io_defs faulty_def flush_change_def
      split: option.splits sum.splits prod.splits if_splits)

lemma registered:
  assumes "register_user C U u p n w = (Inr user, w1)" and "idle w"
  shows "\<exists>h. cr_hash C p = Inr h \<and> user = new_user U None (Some (strip_text u)) (Some h) n \<and>
    valid_db (w_committed w1) \<and> user \<in> set (users (w_committed w1)) \<and> idle w1"
proof -
  from assms(1) have schema: "user_register_schema u p n =
      Some \<lparr>rg_username = strip_text u, rg_password = p, rg_name = n\<rparr>"
    by (auto simp: register_user_def user_register_schema_def Let_def raise_io_def split: if_splits)
  let ?v = "w\<lparr>w_committed := ue_others U (w_committed w), w_session := ue_others U (w_committed w)\<rparr>"
  from assms schema obtain w2 where
    run: "bind_io (register_user_service C U (strip_text u) p n) (\<lambda>created.
       bind_io (commit (ue_commit_fault U)) (\<lambda>_. return_io created)) ?v = (Inr user, w2)" and
    w1: "w1 = w2\<lparr>w_session := w_committed w2\<rparr>"
    by (auto simp: register_user_def get_db_def bind_io_def [of "others _"] others_def idle_def try_io_def
        rollback_def raise_io_def split: prod.splits sum.splits if_splits
        elim!: bind_io_returnsE)
  from run obtain created v where svc: "register_user_service C U (strip_text u) p n ?v = (Inr created, v)" and
    rest: "bind_io (commit (ue_commit_fault U)) (\<lambda>_. return_io created) v = (Inr user, w2)"
    by (rule bind_io_returnsE)
  from rest have "user = created" "w2 = v\<lparr>w_committed := w_session v\<rparr>"
    by (auto simp: commit_Inr return_io_def elim!: bind_io_returnsE)
  moreover from svc obtain h where "cr_hash C p = Inr h"
    "flush_user U (new_user U None (Some (strip_text u)) (Some h) n)
       (Exn UsernameAlreadyExistsError ''username already exists'') ?v = (Inr created, v)"
    by (cases "cr_hash C p") (auto simp: register_user_service_def raise_io_def)
  ultimately show ?thesis
    using w1 by (auto simp: flush_user_Inr add_user_def idle_def)
qed

lemma username_unique:
  "distinct (non_nulls u_username us) \<Longrightarrow> user \<in> set us \<Longrightarrow> u_username user = Some name \<Longrightarrow>
   filter (\<lambda>u. u_username u = Some name) us = [user]"
proof (induction us)
  case (Cons u us)
  have others: "v \<in> set us \<Longrightarrow> u_username v = Some name \<Longrightarrow> name \<in> set (non_nulls u_username us)" for v
    by (force simp: non_nulls_def map_filter_def)
  show ?case
  proof (cases "u_username u = Some name")
    case True
    with Cons.prems(1) have "name \<notin> set (non_nulls u_username us)"
      by (simp add: non_nulls_def map_filter_simps)
    with others True Cons.prems(2,3) show ?thesis by (auto simp: filter_empty_conv)
  next
    case False
    with Cons show ?thesis by (auto simp: non_nulls_def map_filter_simps split: option.splits)
  qed
qed simp

lemma fits_username: "valid_db d \<Longrightarrow> user \<in> set (users d) \<Longrightarrow> u_username user = Some name \<Longrightarrow> text_ok name"
  by (fastforce simp: valid_db_def fits_columns_def fits_user_def list_all_iff)

lemma found_by_username:
  assumes "valid_db (w_session w)" and "user \<in> set (users (w_session w))" and "u_username user = Some name"
  shows "get_user_by_username name w = (Inr (Some user), w)"
  using assms username_unique [OF _ assms(2,3)] fits_username [OF assms]
  by (simp add: get_user_by_username_def bound_text_def on_session_def query_def
      result_one_or_none_def valid_db_def integrity_def unique_users_def)

lemma login_outcome:
  assumes "idle w" and "valid_db (w_committed w)" and "user \<in> set (users (w_committed w))"
    and "u_username user = Some name" and "au_before E = id" and "cr_verify C p (u_hashed_password user) = Inr ok"
  shows "login_user C cfg E name p w =
    (if ok then get_db (bind_io (create_refresh_token_record_service E (u_id user) (au_jti E)
         (au_issued_at E + cf_refresh_seconds cfg) None) (\<lambda>created.
       case created of
         None \<Rightarrow> bind_io rollback (\<lambda>_. raise_io (Http 409 ''Refresh token already exists''))
       | Some _ \<Rightarrow>
           bind_io (try_io (commit (au_commit_fault E))
             (\<lambda>e. if catches IntegrityError e \<or> catches RefreshTokenAlreadyExistsError e then
                    bind_io rollback (\<lambda>_. raise_io (Http 409 ''Refresh token already exists''))
                  else raise_io e)) (\<lambda>_.
           return_io (bearer (issued_access C cfg E user) (issued_refresh C cfg E user))))) w
     else (Inl (Http 401 ''Incorrect username or password''), w))"
proof -
  have "others (au_before E) w = (Inr (), w)" using assms(5) by (simp add: others_def)
  moreover have "get_user_by_username name w = (Inr (Some user), w)"
    using assms(1-4) by (intro found_by_username) (simp_all add: idle_def)
  ultimately show ?thesis
    using assms(1,6)
    by (simp add: login_user_def get_db_def bind_io_def authenticate_user_def lift_io_def return_io_def
        raise_io_def rollback_def idle_def Let_def)
qed

text \<open>
  C24. Who registered can log in: with the stripped username and the password, the login answers a
  pair of tokens; the access token names the registered user at \<open>/users/me\<close> until it expires, the
  refresh token is not accepted there, and a password that the hash does not verify is refused.
\<close>

theorem registration_login_roundtrip:
  assumes "token_codec C" and "password_hashing C"
    and "idle w" and "register_user C U u p n w = (Inr user, w1)"
    and "au_before E = id" and "au_flush_fault E = None" and "au_commit_fault E = None"
    and "valid_db (add_token (new_token E (u_id user) (au_jti E) (au_issued_at E + cf_refresh_seconds cfg) None) (w_committed w1))"
    and "cf_access_seconds cfg \<noteq> 0" and "now < au_issued_at E + cf_access_seconds cfg"
  shows "(\<exists>tokens w2. login_user C cfg E (strip_text u) p w1 = (Inr tokens, w2) \<and>
      fst (read_users_me C now (tr_access_token tokens) w2) = Inr user \<and>
      fst (read_users_me C now (tr_refresh_token tokens) w2) = Inl credentials_exception) \<and>
    (\<forall>q. cr_verify C q (u_hashed_password user) = Inr False \<longrightarrow>
      fst (login_user C cfg E (strip_text u) q w1) = Inl (Http 401 ''Incorrect username or password''))"
proof -
  let ?name = "strip_text u" and ?t = "new_token E (u_id user) (au_jti E) (au_issued_at E + cf_refresh_seconds cfg) None"
  from registered [OF assms(4,3)] obtain h where h: "cr_hash C p = Inr h"
    "user = new_user U None (Some ?name) (Some h) n" and
    reg: "valid_db (w_committed w1)" "user \<in> set (users (w_committed w1))" "idle w1" by blast
  have user: "u_username user = Some ?name" "u_hashed_password user = Some h"
    using h(2) by (simp_all add: new_user_def)
  note login = login_outcome [OF reg(3,1,2) user(1) assms(5), of C]
  have "cr_verify C p (u_hashed_password user) = Inr True"
    using password_hashing.verify_hash [OF assms(2) h(1)] user(2) by simp
  moreover define w2 where "w2 = w1\<lparr>w_committed := add_token ?t (w_committed w1), w_session := add_token ?t (w_committed w1)\<rparr>"
  moreover have "create_refresh_token_record_service E (u_id user) (au_jti E)
      (au_issued_at E + cf_refresh_seconds cfg) None w1 = (Inr (Some ?t), w1\<lparr>w_session := add_token ?t (w_committed w1)\<rparr>)"
    using assms(6,8) reg(3) by (simp add: create_record_Inr idle_def)
  ultimately have tokens: "login_user C cfg E ?name p w1 =
      (Inr (bearer (issued_access C cfg E user) (issued_refresh C cfg E user)), w2)"
    using assms(7) by (simp add: login get_db_def bind_io_def try_io_def commit_def return_io_def rollback_def)
  have name: "text_ok ?name" by (rule fits_username [OF reg(1,2) user(1)])
  have jti: "text_ok (au_jti E)"
    using fits_token_hash [OF assms(8), of ?t] by (simp add: add_token_def) (simp add: new_token_def)
  have "get_user_by_username ?name w2 = (Inr (Some user), w2)"
    using assms(8) reg(2) user(1) by (intro found_by_username) (simp_all add: w2_def add_token_def)
  moreover have "token_username C now (issued_access C cfg E user) = Inr ?name"
    using token_codec.access_token_accepted [OF assms(1) text_ok_scalar [OF name]] assms(9,10) user(1)
    by (simp add: issued_access_def username_claim_def expiry_def)
  moreover have "token_username C now (issued_refresh C cfg E user) = Inl credentials_exception"
    using token_codec.refresh_token_rejected [OF assms(1) text_ok_scalar [OF name] text_ok_scalar [OF jti]] user(1)
    by (simp add: issued_refresh_def username_text_def)
  ultimately have "\<exists>tokens w2. login_user C cfg E ?name p w1 = (Inr tokens, w2) \<and>
      fst (read_users_me C now (tr_access_token tokens) w2) = Inr user \<and>
      fst (read_users_me C now (tr_refresh_token tokens) w2) = Inl credentials_exception"
    using tokens
    by (simp add: read_users_me_def get_current_user_def get_db_def bearer_def bind_io_Inr return_io_def raise_io_def)
  moreover have "fst (login_user C cfg E ?name q w1) = Inl (Http 401 ''Incorrect username or password'')"
    if "cr_verify C q (u_hashed_password user) = Inr False" for q
    by (simp add: login [OF that])
  ultimately show ?thesis by blast
qed

definition new_account :: user_env where
  "new_account = \<lparr>ue_user_id = 1, ue_now = 0, ue_others = id, ue_flush_fault = None, ue_commit_fault = None,
     ue_refresh_fault = None\<rparr>"

definition empty_world :: "ref_state world" where
  "empty_world = \<lparr>w_committed = empty_db, w_session = empty_db, w_redis = ref_empty\<rparr>"

definition bob :: user_row where
  "bob = new_user new_account None (Some (lit ''bobby'')) (Some (36 # lit ''swordfish'')) (lit ''Bob'')"

definition registration :: "(exn + user_row) \<times> ref_state world" where
  "registration = register_user plain_crypto new_account (lit '' bobby '') (lit ''swordfish'') (lit ''Bob'') empty_world"

lemma registration_runs:
  "fst registration = Inr bob" "strip_text (lit '' bobby '') = lit ''bobby''"
  "valid_db (add_token (new_token (auth_at 0 ''a'' 1) (u_id bob) (au_jti (auth_at 0 ''a'' 1))
    (au_issued_at (auth_at 0 ''a'' 1) + cf_refresh_seconds default_config) None) (w_committed (snd registration)))"
  by (code_simp+)

lemma registration_run:
  "register_user plain_crypto new_account (lit '' bobby '') (lit ''swordfish'') (lit ''Bob'') empty_world =
    (Inr bob, snd registration)"
  using registration_runs(1) by (simp add: registration_def prod_eq_iff)

lemma idle_empty_world: "idle empty_world"
  by (simp add: idle_def empty_world_def)

theorem registration_login_roundtrip_witness:
  "\<exists>tokens w2. login_user plain_crypto default_config (auth_at 0 ''a'' 1) (lit ''bobby'') (lit ''swordfish'')
      (snd registration) = (Inr tokens, w2) \<and>
    fst (read_users_me plain_crypto 60 (tr_access_token tokens) w2) = Inr bob"
proof -
  from registration_login_roundtrip [OF plain.token_codec_axioms plain.password_hashing_axioms
      idle_empty_world registration_run _ _ _
      registration_runs(3), of 60] show ?thesis
    by (auto simp: registration_runs(2) default_config_def auth_at_def)
qed

subsection \<open>Telegram users\<close>

lemma telegram_schema_Some:
  "user_telegram_schema telegram_id username name = Some s \<longleftrightarrow>
   100 < telegram_id \<and> telegram_id \<le> 99999999999999999999 \<and>
   (case username of None \<Rightarrow> True | Some v \<Rightarrow> between 2 100 v) \<and> between 2 100 name \<and> strip_text name \<noteq> [] \<and>
   s = \<lparr>tg_telegram_id = telegram_id, tg_username = username, tg_name = strip_text name\<rparr>"
  by (auto simp: user_telegram_schema_def Let_def)

lemma fits_new_user: "fits_columns (add_user (new_user E telegram_id username hashed name) d) \<Longrightarrow>
    (case telegram_id of None \<Rightarrow> True | Some t \<Rightarrow> t < 2 ^ 63) \<and>
    (case username of None \<Rightarrow> True | Some v \<Rightarrow> length v \<le> 50)"
  by (simp add: fits_columns_def add_user_def fits_user_def new_user_def int8_def split: option.splits)

lemma create_telegram_user_run:
  assumes "idle w" and "user_telegram_schema telegram_id username name = Some s"
    and "create_telegram_user E telegram_id username name w = (x, w')"
  defines "row \<equiv> new_user E (Some telegram_id) username None (strip_text name)"
  shows "(\<exists>user. x = Inr user \<and> fits_columns (add_user row (ue_others E (w_committed w)))) \<or>
    (\<exists>e. x = Inl e \<and> (ue_flush_fault E = None \<longrightarrow> \<not> fits_columns (add_user row (ue_others E (w_committed w))) \<longrightarrow>
       e = Exn DBAPIError ''value out of range'' \<and> w_committed w' = ue_others E (w_committed w)))"
proof -
  have s: "s = \<lparr>tg_telegram_id = telegram_id, tg_username = username, tg_name = strip_text name\<rparr>"
    using assms(2) by (simp add: telegram_schema_Some)
  let ?d = "ue_others E (w_committed w)"
  show ?thesis
  proof (cases "ue_flush_fault E = None \<and> \<not> fits_columns (add_user row ?d)")
    case True
    then have "flush (add_user row ?d) = Inl (Exn DBAPIError ''value out of range'')" by (simp add: flush_def)
    with True assms(1,3) show ?thesis
      by (auto simp: create_telegram_user_def assms(2) s get_db_def bind_io_def others_def try_io_def
          create_telegram_user_service_def flush_user_def faulty_def flush_change_def raise_io_def
          rollback_def idle_def row_def subclass_eval)
  next
    case False
    then consider e where "x = Inl e" | user where "x = Inr user" "fits_columns (add_user row ?d)"
      | user fault where "x = Inr user" "ue_flush_fault E = Some fault" by (cases x) auto
    then show ?thesis
    proof cases
      case 3
      with assms(1,3) show ?thesis
        by (auto simp: create_telegram_user_def assms(2) s get_db_def bind_io_def others_def try_io_def
            create_telegram_user_service_def flush_user_def faulty_def raise_io_def rollback_def idle_def
            split: if_splits)
    qed (use False in auto)
  qed
qed

text \<open>
  C32. The bounds of a Telegram user: one that is created has an id above 100 that fits a BIGINT, a
  username of at most 50 characters and a name that is not blank. The schema admits more than the
  columns: a larger id or a longer username passes the validation and ends in a DBAPIError, which
  the endpoint does not answer, and nothing is committed.
\<close>

theorem telegram_user_bounds:
  assumes "idle w" and "create_telegram_user E telegram_id username name w = (x, w')"
  shows "(\<forall>user. x = Inr user \<longrightarrow> 100 < telegram_id \<and> telegram_id < 2 ^ 63 \<and>
      (case username of None \<Rightarrow> True | Some v \<Rightarrow> 2 \<le> length v \<and> length v \<le> 50) \<and> strip_text name \<noteq> []) \<and>
    (user_telegram_schema telegram_id username name \<noteq> None \<and> ue_flush_fault E = None \<and>
      (2 ^ 63 \<le> telegram_id \<or> (case username of None \<Rightarrow> False | Some v \<Rightarrow> 50 < length v)) \<longrightarrow>
      x = Inl (Exn DBAPIError ''value out of range'') \<and> w_committed w' = ue_others E (w_committed w))"
proof (cases "user_telegram_schema telegram_id username name")
  case None
  with assms(2) show ?thesis by (auto simp: create_telegram_user_def raise_io_def)
next
  case (Some s)
  let ?d = "add_user (new_user E (Some telegram_id) username None (strip_text name)) (ue_others E (w_committed w))"
  have fits: "fits_columns ?d \<Longrightarrow> telegram_id < 2 ^ 63 \<and> (case username of None \<Rightarrow> True | Some v \<Rightarrow> length v \<le> 50)"
    using fits_new_user by fastforce
  from create_telegram_user_run [OF assms(1) Some assms(2)] show ?thesis
  proof (elim disjE exE conjE)
    fix user assume "x = Inr user" and "fits_columns ?d"
    with fits Some [unfolded telegram_schema_Some] show ?thesis
      by (cases username) (simp_all add: between_def not_le)
  next
    fix e assume "x = Inl e" and failed: "ue_flush_fault E = None \<longrightarrow> \<not> fits_columns ?d \<longrightarrow>
       e = Exn DBAPIError ''value out of range'' \<and> w_committed w' = ue_others E (w_committed w)"
    moreover have "2 ^ 63 \<le> telegram_id \<or> (case username of None \<Rightarrow> False | Some v \<Rightarrow> 50 < length v) \<Longrightarrow> \<not> fits_columns ?d"
      using fits by (cases username) auto
    ultimately show ?thesis by simp
  qed
qed

definition long_name :: pystr where
  "long_name = replicate 60 97"

theorem telegram_user_bounds_witness:
  "fst (create_telegram_user new_account 4711 (Some long_name) (lit ''Eve'') empty_world) =
     Inl (Exn DBAPIError ''value out of range'')"
proof -
  have "user_telegram_schema 4711 (Some long_name) (lit ''Eve'') \<noteq> None" by code_simp
  moreover have "length long_name = 60" by (simp add: long_name_def)
  ultimately show ?thesis
    using idle_empty_world telegram_user_bounds [of empty_world new_account 4711 "Some long_name" "lit ''Eve''"
      "fst (create_telegram_user new_account 4711 (Some long_name) (lit ''Eve'') empty_world)"
      "snd (create_telegram_user new_account 4711 (Some long_name) (lit ''Eve'') empty_world)"]
    by (simp add: new_account_def)
qed

subsection \<open>The list of users\<close>

text \<open>The rows of one page.\<close>

definition listed :: "int option \<Rightarrow> db \<Rightarrow> user_row list" where
  "listed cursor d = sort_key u_id (case cursor of None \<Rightarrow> users d | Some c \<Rightarrow> filter (\<lambda>u. u_id u > c) (users d))"

lemma get_all_users_page:
  assumes "case cursor of None \<Rightarrow> True | Some c \<Rightarrow> int4 c"
  shows "get_all_users cursor limit d =
    (if limit = 0 \<and> listed cursor d \<noteq> [] then Inl (Exn IndexError ''list index out of range'')
     else Inr \<lparr>up_items = take limit (listed cursor d),
       up_next_cursor = (if limit < length (listed cursor d) then Some (u_id (last (take limit (listed cursor d)))) else None),
       up_has_more = (limit < length (listed cursor d))\<rparr>)"
  using assms
  by (auto simp: get_all_users_def listed_def [symmetric] Let_def min_def take_take split: option.splits)

end
