(* ===== verification/Reconciliation.thy ===== *)
theory Reconciliation
  imports Order_Creation Worker_Payments Dead_Letters Transaction_Safety Startup_Safety Accounts
begin

text \<open>
  The service as a whole: the endpoints, the worker, the relay and the start share one database.
  Whatever of them runs in whatever order, and whatever their transactions do to each other, the
  books stay balanced: every order has one payment intent, with its status and its amount, and
  an SMS is only ever attached to a paid intent.

  The sessions that run while an operation runs are the functions in its environment. Each of them
  does what this theorem says of every operation, so they keep the books (\<open>steady\<close>); and they do
  not change rows that the operation has locked.
\<close>

subsection \<open>Balanced books\<close>

definition intents_match :: "db \<Rightarrow> bool" where
  "intents_match d = (\<forall>p \<in> set (payment_intents d). \<forall>ord \<in> set (orders d).
     pi_order_id p = o_id ord \<longrightarrow> pi_status p = o_status ord \<and> pi_base_amount p = o_amount ord)"

definition books :: "db \<Rightarrow> bool" where
  "books d \<longleftrightarrow> valid_db d \<and>
     distinct (map pi_order_id (payment_intents d)) \<and>
     pi_order_id ` set (payment_intents d) = o_id ` set (orders d) \<and>
     intents_match d \<and>
     (\<forall>p \<in> set (payment_intents d). pi_status p = OS_PAID \<or>
        pi_status p = OS_PENDING \<and> pi_sms_transaction_id p = None)"

definition steady :: "(db \<Rightarrow> db) \<Rightarrow> bool" where
  "steady f \<longleftrightarrow> (\<forall>d. books d \<longrightarrow> books (f d))"

definition balanced :: "'r world \<Rightarrow> bool" where
  "balanced w \<longleftrightarrow> idle w \<and> books (w_committed w)"

lemma booksI:
  assumes "valid_db d" "distinct (map pi_order_id (payment_intents d))"
    and "pi_order_id ` set (payment_intents d) = o_id ` set (orders d)"
    and "\<And>p ord. p \<in> set (payment_intents d) \<Longrightarrow> ord \<in> set (orders d) \<Longrightarrow> pi_order_id p = o_id ord \<Longrightarrow>
      pi_status p = o_status ord \<and> pi_base_amount p = o_amount ord"
    and "\<And>p. p \<in> set (payment_intents d) \<Longrightarrow>
      pi_status p = OS_PAID \<or> pi_status p = OS_PENDING \<and> pi_sms_transaction_id p = None"
  shows "books d"
  using assms unfolding books_def intents_match_def by blast

lemma books_valid: "books d \<Longrightarrow> valid_db d"
  by (simp add: books_def)

lemma books_orders:
  assumes "books d"
  shows "distinct (map pi_order_id (payment_intents d))"
    and "pi_order_id ` set (payment_intents d) = o_id ` set (orders d)"
  using assms by (simp_all add: books_def)

lemma books_match:
  assumes "books d" "p \<in> set (payment_intents d)" "ord \<in> set (orders d)" "pi_order_id p = o_id ord"
  shows "pi_status p = o_status ord" and "pi_base_amount p = o_amount ord"
  using assms by (simp_all add: books_def intents_match_def)

lemma books_status:
  assumes "books d" "p \<in> set (payment_intents d)"
  shows "pi_status p = OS_PAID \<or> pi_status p = OS_PENDING \<and> pi_sms_transaction_id p = None"
  using assms by (simp add: books_def)

lemma books_empty: "books empty_db"
  by (rule booksI) (simp_all add: valid_empty_db, simp_all add: empty_db_def)

text \<open>A change of the other tables.\<close>

lemma books_same:
  "books d \<Longrightarrow> valid_db d' \<Longrightarrow> payment_intents d' = payment_intents d \<Longrightarrow> orders d' = orders d \<Longrightarrow> books d'"
  by (simp add: books_def intents_match_def)

subsection \<open>The changes of orders and intents\<close>

lemma books_add_order:
  assumes books: "books d" and valid: "valid_db (add_order ord p d)"
    and new: "pi_order_id p = o_id ord" "pi_status p = OS_PENDING" "o_status ord = OS_PENDING"
      "pi_base_amount p = o_amount ord" "pi_sms_transaction_id p = None"
  shows "books (add_order ord p d)"
proof (rule booksI)
  have fresh: "o_id ord \<notin> o_id ` set (orders d)"
    using valid by (auto simp: valid_db_def integrity_def primary_keys_def add_order_def)
  then have apart: "\<And>q. q \<in> set (payment_intents d) \<Longrightarrow> pi_order_id q \<noteq> o_id ord"
    using books_orders(2) [OF books] by (metis imageI)
  show "distinct (map pi_order_id (payment_intents (add_order ord p d)))"
    using books_orders(1) [OF books] apart new(1) by (fastforce simp: add_order_def)
  show "pi_order_id ` set (payment_intents (add_order ord p d)) = o_id ` set (orders (add_order ord p d))"
    using books_orders(2) [OF books] new(1) by (simp add: add_order_def)
  show "pi_status q = OS_PAID \<or> pi_status q = OS_PENDING \<and> pi_sms_transaction_id q = None"
    if "q \<in> set (payment_intents (add_order ord p d))" for q
    using that books_status [OF books, of q] new by (auto simp: add_order_def)
  show "pi_status q = o_status o' \<and> pi_base_amount q = o_amount o'"
    if "q \<in> set (payment_intents (add_order ord p d))" "o' \<in> set (orders (add_order ord p d))"
      "pi_order_id q = o_id o'" for q o'
  proof (cases "q \<in> set (payment_intents d) \<and> o' \<in> set (orders d)")
    case True
    then show ?thesis using books_match [OF books, of q o'] that(3) by simp
  next
    case False
    then have "(q = p \<or> q \<in> set (payment_intents d) \<and> o' = ord) \<and> (o' = ord \<or> o' \<in> set (orders d) \<and> q = p)"
      using that by (auto simp: add_order_def)
    then have "q = p \<and> o' = ord" using apart fresh that(3) new(1) by (metis imageI)
    then show ?thesis using new by simp
  qed
qed (rule valid)

text \<open>The row of the intent may have changed since it was read, but not its order.\<close>

lemma books_settle:
  assumes books: "books d" and valid: "valid_db (settle f p d)"
    and row: "p' \<in> set (payment_intents d)" "pi_id p' = pi_id p" "pi_order_id p' = pi_order_id p"
    and f: "\<And>q. pi_status (f q) = OS_PAID \<and> pi_order_id (f q) = pi_order_id q \<and> pi_base_amount (f q) = pi_base_amount q"
  shows "books (settle f p d)"
proof (rule booksI)
  have keys: "distinct (map pi_id (payment_intents d))"
    using books_valid [OF books] by (simp add: valid_db_def integrity_def primary_keys_def)
  then have only: "\<And>q. q \<in> set (payment_intents d) \<Longrightarrow> pi_id q = pi_id p \<longleftrightarrow> pi_order_id q = pi_order_id p"
    using books_orders(1) [OF books] row by (metis distinct_map inj_onD)
  show "distinct (map pi_order_id (payment_intents (settle f p d)))"
    using books_orders(1) [OF books] f by (simp add: settle_def map_update_where)
  have "pi_order_id ` set (payment_intents (settle f p d)) = pi_order_id ` set (payment_intents d)"
    using f by (metis (no_types, lifting) list.set_map map_update_where settle_def
        db.select_convs(4) db.surjective db.update_convs(3,4))
  then show "pi_order_id ` set (payment_intents (settle f p d)) = o_id ` set (orders (settle f p d))"
    using books_orders(2) [OF books] by (simp add: settle_def order_update.key_image_update)
  show "pi_status q = OS_PAID \<or> pi_status q = OS_PENDING \<and> pi_sms_transaction_id q = None"
    if "q \<in> set (payment_intents (settle f p d))" for q
    using that books_status [OF books] f by (auto simp: settle_def set_update_where)
  show "pi_status q = o_status o' \<and> pi_base_amount q = o_amount o'"
    if q: "q \<in> set (payment_intents (settle f p d))" and o': "o' \<in> set (orders (settle f p d))"
      and same: "pi_order_id q = o_id o'" for q o'
  proof -
    obtain q0 where q0: "q0 \<in> set (payment_intents d)" "q = (if pi_id q0 = pi_id p then f q0 else q0)"
      using q by (auto simp: settle_def update_where_def)
    obtain o0 where o0: "o0 \<in> set (orders d)"
      "o' = (if o_id o0 = pi_order_id p then order_paid o0 else o0)"
      using o' by (auto simp: settle_def update_where_def)
    have "pi_order_id q0 = o_id o0"
      using q0(2) o0(2) same f by (auto simp: order_paid_def split: if_splits)
    with books_match [OF books q0(1) o0(1)] only [OF q0(1)] q0(2) o0(2) f show ?thesis
      by (auto simp: order_paid_def)
  qed
qed (rule valid)

text \<open>The order and, by \<open>ON DELETE CASCADE\<close>, its intents are gone.\<close>

definition without_order :: "int \<Rightarrow> db \<Rightarrow> db" where
  "without_order i d = d\<lparr>orders := filter (\<lambda>ord. o_id ord \<noteq> i) (orders d),
     payment_intents := filter (\<lambda>p. pi_order_id p \<noteq> i) (payment_intents d)\<rparr>"

lemma books_without_order:
  assumes books: "books d" and valid: "valid_db (without_order i d)"
  shows "books (without_order i d)"
proof (rule booksI)
  show "distinct (map pi_order_id (payment_intents (without_order i d)))"
    using books_orders(1) [OF books] by (simp add: without_order_def distinct_map_filter)
  show "pi_order_id ` set (payment_intents (without_order i d)) = o_id ` set (orders (without_order i d))"
    using books_orders(2) [OF books] by (auto simp: without_order_def)
qed (use books valid books_match [OF books] books_status [OF books] in
    \<open>auto simp: without_order_def\<close>)

subsection \<open>Every operation keeps the books\<close>

lemma steadyD: "steady f \<Longrightarrow> books d \<Longrightarrow> books (f d)"
  by (simp add: steady_def)

lemma steady_id: "steady id" "steady (\<lambda>d. d)"
  by (simp_all add: steady_def)

lemma balanced_get_db [keeps_intro]:
  fixes h :: "'r world \<Rightarrow> (exn + 'a) \<times> 'r world"
  assumes "keeps (db_inv books) h"
  shows "keeps balanced (get_db h)"
proof (rule keepsI)
  fix w :: "'r world" assume "balanced w"
  then have "db_inv books (snd (get_db h w))"
    by (intro keepsD [OF db_inv_get_db [OF assms]]) (simp add: balanced_def db_inv_def idle_def)
  then show "balanced (snd (get_db h w))"
    by (simp add: balanced_def db_inv_def idle_get_db)
qed

lemma balanced_on_redis [keeps_intro]: "keeps balanced (on_redis c)"
  by (simp add: keeps_def balanced_def idle_def)

lemma balanced_others [keeps_intro]: "steady f \<Longrightarrow> keeps balanced (others f)"
  by (auto simp: keeps_def balanced_def idle_def others_def steady_def)

lemma books_others [keeps_intro]: "steady f \<Longrightarrow> keeps (db_inv books) (others f)"
  by (intro db_inv_others) (simp add: steady_def)

text \<open>Statements on the other tables.\<close>

lemma books_flush_other:
  "(\<And>d. payment_intents (f d) = payment_intents d) \<Longrightarrow> (\<And>d. orders (f d) = orders d) \<Longrightarrow>
   keeps (db_inv books) (flush_change f)"
  by (intro db_inv_flush_change) (rule books_same)

subsubsection \<open>Orders\<close>

lemma books_insert_order: "keeps (db_inv books) (insert_order A u m i)"
  unfolding insert_order_def
  by (intro keeps_intro books_add_order) (simp_all, simp_all add: new_order_def new_payment_intent_def)

lemma books_reads [keeps_intro]:
  "keeps (db_inv books) (get_unique_amount R A base)"
  "keeps (db_inv books) (compensate_redis R i)"
  "keeps (db_inv books) (log_pool_statistics R)"
  unfolding get_unique_amount_def get_unique_amount_from_postgres_def compensate_redis_def
    log_pool_statistics_def by (intro keeps_intro)+

lemma books_create_order_from:
  assumes "\<And>n. steady (at_others (E n))"
  shows "keeps (db_inv books) (create_order_from R E u m mx n)"
  using assms
proof (induction R E u m mx n rule: create_order_from.induct)
  case (1 R E u m mx n)
  then show ?case
    by (subst create_order_from.simps) (intro keeps_intro books_insert_order; simp)
qed

lemma balanced_create_order:
  "(\<And>n. steady (at_others (E n))) \<Longrightarrow> keeps balanced (create_order R E fault reload u m)"
  unfolding create_order_def create_order_service_def
  by (intro keeps_intro books_create_order_from)

text \<open>A flush of the deletion that succeeds has removed the order with what refers to it.\<close>

definition deletes :: "(int \<Rightarrow> db \<Rightarrow> exn + db) \<Rightarrow> bool" where
  "deletes unit_of_work \<longleftrightarrow> (\<forall>i d d'. unit_of_work i d = Inr d' \<longrightarrow>
     d' = without_order i d \<and> (valid_db d \<longrightarrow> valid_db d'))"

lemma balanced_delete_order:
  assumes "deletes unit_of_work"
  shows "keeps balanced (delete_order unit_of_work u i)"
proof -
  have "keeps (db_inv books) (\<lambda>w. case unit_of_work (o_id ord) (w_session w) of
      Inl e \<Rightarrow> (Inl e, w) | Inr d \<Rightarrow> commit None (w\<lparr>w_session := d\<rparr>))" for ord
    using assms by (force simp: keeps_def db_inv_def commit_def deletes_def
        intro: books_without_order dest: books_valid split: sum.split)
  then show ?thesis
    unfolding delete_order_def delete_order_service_def get_order_service_def
    by (intro keeps_intro)
qed

subsubsection \<open>Payments\<close>

text \<open>The other sessions of a payment are steady and leave the locked rows alone.\<close>

definition fair_payment :: "driver \<Rightarrow> race \<Rightarrow> json \<Rightarrow> bool" where
  "fair_payment bind_int C data \<longleftrightarrow> steady (rc_before_lock C) \<and> steady (rc_after_lock C) \<and>
     (\<forall>kvs. data = JDict kvs \<longrightarrow> locks_held bind_int C (dict_get kvs ''amount''))"

lemma books_process_pending_payment:
  assumes steady: "steady (rc_before_lock C)" "steady (rc_after_lock C)"
    and locks: "locks_held bind_int C amount"
  shows "keeps (db_inv books) (process_pending_payment bind_int C amount tid)"
proof (rule keepsI)
  fix w :: "'r world" assume w: "db_inv books w"
  obtain x w' where run: "process_pending_payment bind_int C amount tid w = (x, w')" by fastforce
  consider e where "x = Inl e" | p where "x = Inr (p, False)" | p where "x = Inr (p, True)"
    by (metis (full_types) sum.exhaust surj_pair)
  then have "db_inv books w'"
  proof cases
    case 1
    from process_Inl [OF run [unfolded 1]] w steady show ?thesis
      by (auto simp: db_inv_def steady_def)
  next
    case 2
    with process_old [of bind_int C amount tid w p w'] run w show ?thesis by simp
  next
    case (3 p')
    with run obtain t p ord where rows: "pending_for_amount bind_int amount (rc_before_lock C (w_session w)) = Inr [(p, ord)]"
      and w': "w' = w\<lparr>w_committed := rc_after_lock C (rc_before_lock C (w_committed w)),
         w_session := settle (attach_sms t) p (rc_after_lock C (rc_before_lock C (w_session w)))\<rparr>"
      and valid: "valid_db (w_session w')"
      by (auto elim: process_new)
    let ?d = "rc_after_lock C (rc_before_lock C (w_session w))"
    have "p \<in> set (payment_intents ?d)" using locks rows by (auto simp: locks_held_def)
    moreover have "books ?d" "books (w_committed w')"
      using w w' steady by (simp_all add: db_inv_def steady_def)
    ultimately have "books (w_session w')"
      using valid w' by (auto intro!: books_settle simp: attach_sms_def set_paid_def)
    with \<open>books (w_committed w')\<close> show ?thesis by (simp add: db_inv_def)
  qed
  with run show "db_inv books (snd (process_pending_payment bind_int C amount tid w))" by simp
qed

lemma json_get_Some: "json_get data k = Some v \<longleftrightarrow> (\<exists>kvs. data = JDict kvs \<and> v = dict_get kvs k)"
  by (cases data) auto

lemma balanced_handle_payment:
  assumes "fair_payment bind_int C data"
  shows "keeps balanced (handle_payment R bind_int C data)"
proof -
  have body: "keeps (db_inv books) (bind_io (lift_io (data_get data ''amount'')) (\<lambda>amount.
      bind_io (lift_io (data_get data ''transaction_id'')) (\<lambda>transaction_id.
      take_payment R bind_int C amount transaction_id)))"
    using assms unfolding take_payment_def
    by (intro keeps_bind_lift keeps_bind keeps_case_prod keeps_intro books_process_pending_payment)
      (auto simp: fair_payment_def json_get_Some)
  show ?thesis
    unfolding handle_payment_def
    by (rule balanced_get_db, rule keeps_try [OF body]) (intro keeps_intro)
qed

text \<open>The confirmation by an administrator locks its rows in the same way.\<close>

definition fair_confirmation :: "race \<Rightarrow> int \<Rightarrow> int \<Rightarrow> bool" where
  "fair_confirmation C order_id payment_id \<longleftrightarrow> steady (rc_after_lock C) \<and>
     (\<forall>d p ord. confirmable order_id payment_id d = [(p, ord)] \<longrightarrow>
        p \<in> set (payment_intents (rc_after_lock C d)) \<and> ord \<in> set (orders (rc_after_lock C d)))"

lemma balanced_confirm_payment:
  assumes fair: "fair_confirmation C order_id payment_id"
  shows "keeps balanced (confirm_payment R C order_id payment_id)"
proof (rule keepsI)
  fix w :: "'a world" assume w: "balanced w"
  obtain res w' where run: "confirm_payment R C order_id payment_id w = (res, w')" by fastforce
  note outcome = confirm_payment_outcome [OF run]
  have after: "books (rc_after_lock C (w_committed w))"
    using w fair by (simp add: balanced_def fair_confirmation_def steady_def)
  have "idle w' \<and> books (w_committed w')"
  proof (cases res)
    case (Inl e)
    with outcome w after show ?thesis by (auto simp: balanced_def)
  next
    case (Inr p')
    with outcome w obtain p ord where p: "idle w'" "confirmable order_id payment_id (w_committed w) = [(p, ord)]"
      "valid_db (w_committed w')" "w_committed w' = settle set_paid p (rc_after_lock C (w_committed w))"
      by (auto simp: balanced_def)
    then have "p \<in> set (payment_intents (rc_after_lock C (w_committed w)))"
      using fair by (auto simp: fair_confirmation_def)
    with after p show ?thesis
      by (auto intro!: books_settle simp: set_paid_def)
  qed
  with run show "balanced (snd (confirm_payment R C order_id payment_id w))"
    by (simp add: balanced_def)
qed

subsubsection \<open>The worker, the relay and the start\<close>

lemma balanced_worker:
  assumes "\<And>m. fair_payment bind_int (races m) (m_data m)"
  shows "worker_invariant balanced R bind_int races"
proof
  show "balanced (w\<lparr>w_redis := r\<rparr>)" if "balanced w" for w :: "'a world" and r
    using that by (simp add: balanced_def idle_def)
  show "keeps balanced (payment_handler R bind_int races m)" for m
    unfolding payment_handler_def
    by (intro keeps_intro balanced_handle_payment assms)
qed

lemma books_relay:
  "keeps (db_inv books) (claim_process_events E n)"
  "keeps (db_inv books) (process_outbox_updates fault updates)"
  unfolding claim_process_events_def process_outbox_updates_def Let_def
  by (intro keeps_intro books_flush_other;
      simp add: claim_update_def publish_update_def error_update_def)+

lemma balanced_process_events: "keeps balanced (process_events S q nows es)"
proof (induction es)
  case (Cons e es)
  have "keeps balanced (process_single_outbox_event S q (nows (ce_id e)) e)"
    unfolding process_single_outbox_event_def enqueue_def enqueue_dead_letter_def
    by (auto intro!: keeps_intro split: sum.split)
  with Cons show ?case by (auto intro!: keeps_intro)
qed (simp add: keeps_intro)

lemma balanced_relay: "steady (re_others E) \<Longrightarrow> keeps balanced (process_outbox_event S E)"
  unfolding process_outbox_event_def
  by (intro keeps_intro balanced_process_events books_relay)

lemma books_fill_pending: "keeps (db_inv books) (fill_pending R buffer pages)"
  by (induction pages arbitrary: buffer) (auto simp: Let_def intro!: keeps_intro)

lemma balanced_add_batches: "keeps balanced (add_batches R k xss)"
  by (induction xss) (auto intro!: keeps_intro)

lemma balanced_lifespan: "keeps balanced (lifespan R)"
  unfolding lifespan_def is_exist_range_amount_def
  by (intro keeps_intro books_fill_pending balanced_add_batches)

lemma balanced_replay: "keeps balanced (replay_dlq_dashboard S i)"
  unfolding replay_dlq_dashboard_def replay_message_def
  by (auto intro!: keeps_intro split: list.split)

subsubsection \<open>Users, sessions and the webhook\<close>

lemma books_flush_user: "keeps (db_inv books) (flush_user E u e)"
  unfolding flush_user_def
  by (intro keeps_intro books_flush_other) (simp_all add: add_user_def)

lemma balanced_users:
  assumes "steady (ue_others E)"
  shows "keeps balanced (create_telegram_user E telegram_id n name)"
    and "keeps balanced (register_user C E username password name)"
  using assms unfolding create_telegram_user_def register_user_def create_telegram_user_service_def
    register_user_service_def
  by (intro keeps_intro books_flush_user; simp)+

lemma books_token_statements:
  "keeps (db_inv books) (flush_change (add_token t))"
  "keeps (db_inv books) (flush_change (revoke_where P))"
  by (intro books_flush_other; simp add: add_token_def revoke_where_def)+

lemma balanced_sessions:
  assumes "steady (au_before E)" "steady (au_between E)"
  shows "keeps balanced (login_user C cfg E n password)"
    and "keeps balanced (refresh_token C cfg K fl E token)"
  using assms unfolding login_user_def refresh_token_def refuse_token_def stale_token_def
    exchange_token_def rotate_token_def session_services
  by (intro keeps_intro books_token_statements; simp)+

lemma balanced_receive_transaction:
  assumes "steady (tx_others E)"
  shows "keeps balanced (receive_transaction E hex verification token content)"
  using assms unfolding receive_transaction_def handle_transaction_service_def
    create_transaction_service_def create_outbox_event_service_def Let_def
  by (auto intro!: keeps_intro intro: books_same simp: add_sms_def add_event_def split: option.split)

subsection \<open>The service\<close>

text \<open>
  The databases of the running service: from empty tables, any operation runs after any other.
  \<open>R\<close>, \<open>S\<close> and \<open>K\<close> are the commands of the Redis server, which is not restricted: it may raise,
  lose and invent whatever it likes.
\<close>

inductive served :: "'r redis_sets \<Rightarrow> 'r redis_streams \<Rightarrow> 'r redis_keys \<Rightarrow> driver \<Rightarrow> crypto \<Rightarrow> config
    \<Rightarrow> (string \<Rightarrow> string option) \<Rightarrow> 'r world \<Rightarrow> bool"
  for R :: "'r redis_sets" and S K bind_int C cfg fl where
  empty: "idle w \<Longrightarrow> w_committed w = empty_db \<Longrightarrow> served R S K bind_int C cfg fl w"
| startup: "served R S K bind_int C cfg fl w \<Longrightarrow> served R S K bind_int C cfg fl (snd (lifespan R w))"
| registers: "served R S K bind_int C cfg fl w \<Longrightarrow> steady (ue_others U) \<Longrightarrow>
    served R S K bind_int C cfg fl (snd (register_user C U username password name w))"
| telegram: "served R S K bind_int C cfg fl w \<Longrightarrow> steady (ue_others U) \<Longrightarrow>
    served R S K bind_int C cfg fl (snd (create_telegram_user U telegram_id nick name w))"
| logs_in: "served R S K bind_int C cfg fl w \<Longrightarrow> steady (au_before A) \<Longrightarrow> steady (au_between A) \<Longrightarrow>
    served R S K bind_int C cfg fl (snd (login_user C cfg A username password w))"
| refreshes: "served R S K bind_int C cfg fl w \<Longrightarrow> steady (au_before A) \<Longrightarrow> steady (au_between A) \<Longrightarrow>
    served R S K bind_int C cfg fl (snd (refresh_token C cfg K fl A token w))"
| orders: "served R S K bind_int C cfg fl w \<Longrightarrow> (\<And>n. steady (at_others (E n))) \<Longrightarrow>
    served R S K bind_int C cfg fl (snd (create_order R E fault reload user_id amount w))"
| deletes: "served R S K bind_int C cfg fl w \<Longrightarrow> deletes unit_of_work \<Longrightarrow>
    served R S K bind_int C cfg fl (snd (delete_order unit_of_work user_id order_id w))"
| receives: "served R S K bind_int C cfg fl w \<Longrightarrow> steady (tx_others T) \<Longrightarrow>
    served R S K bind_int C cfg fl (snd (receive_transaction T hex verification token' content w))"
| relays: "served R S K bind_int C cfg fl w \<Longrightarrow> steady (re_others P) \<Longrightarrow>
    served R S K bind_int C cfg fl (snd (process_outbox_event S P w))"
| works: "served R S K bind_int C cfg fl w \<Longrightarrow> (\<And>m. fair_payment bind_int (races m) (m_data m)) \<Longrightarrow>
    served R S K bind_int C cfg fl (snd (start_worker S fl (payment_worker R bind_int races) fresh Es w))"
| confirms: "served R S K bind_int C cfg fl w \<Longrightarrow> fair_confirmation Q order_id payment_id \<Longrightarrow>
    served R S K bind_int C cfg fl (snd (confirm_payment R Q order_id payment_id w))"
| replays: "served R S K bind_int C cfg fl w \<Longrightarrow>
    served R S K bind_int C cfg fl (snd (replay_dlq_dashboard S message_id w))"

lemma served_balanced: "served R S K bind_int C cfg fl w \<Longrightarrow> balanced w"
proof (induction rule: served.induct)
  case (empty w)
  then show ?case by (simp add: balanced_def books_empty)
next
  case (works w races fresh Es)
  from worker_invariant.keeps_start_worker [OF balanced_worker [OF works(2)]] works(3) show ?case
    by (rule keepsD)
next
  case startup
  then show ?case by (intro keepsD [OF balanced_lifespan])
next
  case registers
  then show ?case by (intro keepsD [OF balanced_users(2)])
next
  case telegram
  then show ?case by (intro keepsD [OF balanced_users(1)])
next
  case logs_in
  then show ?case by (intro keepsD [OF balanced_sessions(1)])
next
  case refreshes
  then show ?case by (intro keepsD [OF balanced_sessions(2)])
next
  case orders
  then show ?case by (intro keepsD [OF balanced_create_order])
next
  case deletes
  then show ?case by (intro keepsD [OF balanced_delete_order])
next
  case receives
  then show ?case by (intro keepsD [OF balanced_receive_transaction])
next
  case relays
  then show ?case by (intro keepsD [OF balanced_relay])
next
  case confirms
  then show ?case by (intro keepsD [OF balanced_confirm_payment])
next
  case replays
  then show ?case by (intro keepsD [OF balanced_replay])
qed

text \<open>
  C1. The books of the service stay balanced: whatever operations ran in whatever order, each among
  other transactions that keep the books and respect row locks, and whatever Redis did, no
  transaction is left open, the tables satisfy every constraint of the schema, every order has
  exactly one payment intent, with the amount and the status of the order, an intent is PENDING
  or PAID, and an SMS is attached to one intent at most, which is PAID.
\<close>

theorem books_stay_balanced:
  assumes "served R S K bind_int C cfg fl w"
  shows "idle w \<and> valid_db (w_committed w) \<and>
    (\<forall>ord \<in> set (orders (w_committed w)). \<exists>p.
       filter (\<lambda>q. pi_order_id q = o_id ord) (payment_intents (w_committed w)) = [p] \<and>
       pi_status p = o_status ord \<and> pi_base_amount p = o_amount ord) \<and>
    (\<forall>p \<in> set (payment_intents (w_committed w)).
       pi_status p \<in> {OS_PENDING, OS_PAID} \<and>
       (\<forall>t. pi_sms_transaction_id p = Some t \<longrightarrow> pi_status p = OS_PAID \<and>
          filter (\<lambda>q. pi_sms_transaction_id q = Some t) (payment_intents (w_committed w)) = [p]))"
proof -
  let ?d = "w_committed w"
  from served_balanced [OF assms] have idle: "idle w" and books: "books ?d"
    by (simp_all add: balanced_def)
  have "\<exists>p. filter (\<lambda>q. pi_order_id q = o_id ord) (payment_intents ?d) = [p] \<and>
      pi_status p = o_status ord \<and> pi_base_amount p = o_amount ord" if ord: "ord \<in> set (orders ?d)" for ord
  proof -
    have "o_id ord \<in> pi_order_id ` set (payment_intents ?d)"
      using ord books_orders(2) [OF books] by simp
    then obtain p where p: "p \<in> set (payment_intents ?d)" "pi_order_id p = o_id ord" by auto
    from filter_unique [of pi_order_id "\<lambda>_. True" "payment_intents ?d" p] p books_orders(1) [OF books]
    have "filter (\<lambda>q. pi_order_id q = o_id ord) (payment_intents ?d) = [p]" by simp
    with books_match [OF books p(1) ord p(2)] show ?thesis by blast
  qed
  moreover have "pi_status p \<in> {OS_PENDING, OS_PAID} \<and>
      (\<forall>t. pi_sms_transaction_id p = Some t \<longrightarrow> pi_status p = OS_PAID \<and>
         filter (\<lambda>q. pi_sms_transaction_id q = Some t) (payment_intents ?d) = [p])"
    if p: "p \<in> set (payment_intents ?d)" for p
    using books_status [OF books p] intent_of_sms [OF books_valid [OF books] p] by auto
  ultimately show ?thesis using idle books_valid [OF books] by blast
qed

subsection \<open>A day of the service\<close>

text \<open>A user registers and orders; the bank's SMS of the payment arrives, the relay publishes its
  event and the worker settles the payment.\<close>

definition opening_world :: "ref_state world" where
  "opening_world = \<lparr>w_committed = empty_db, w_session = empty_db, w_redis = sample_pool\<rparr>"

definition registered :: "ref_state world" where
  "registered = snd (register_user plain_crypto new_account (lit '' bobby '') (lit ''swordfish'') (lit ''Bob'') opening_world)"

definition ordered :: "ref_state world" where
  "ordered = snd (create_order ref_sets (\<lambda>_. sample_attempt) None None 1 1500000 registered)"

definition deposited :: "ref_state world" where
  "deposited = snd (receive_transaction sample_tx ''0123456789abcdef'' ''secret'' ''secret'' sample_content ordered)"

definition relayed :: "ref_state world" where
  "relayed = snd (process_outbox_event ref_streams calm_env deposited)"

definition reconciled :: "ref_state world" where
  "reconciled = snd (start_worker ref_streams Some sample_worker '''' [sample_batch] relayed)"

lemma calm_sessions [simp]:
  "ue_others new_account = id" "at_others sample_attempt = id" "tx_others sample_tx = id"
  by (simp_all add: new_account_def sample_attempt_def sample_tx_def)

lemma served_reconciled:
  "served ref_sets ref_streams ref_keys sample_driver plain_crypto default_config Some reconciled"
proof -
  let ?served = "served ref_sets ref_streams ref_keys sample_driver plain_crypto default_config Some"
  have "?served opening_world"
    by (rule served.empty) (simp_all add: opening_world_def idle_def)
  then have "?served registered"
    unfolding registered_def by (rule served.registers) (simp add: steady_id)
  then have "?served ordered"
    unfolding ordered_def by (rule served.orders) (simp add: steady_id)
  then have "?served deposited"
    unfolding deposited_def by (rule served.receives) (simp add: steady_id)
  then have "?served relayed"
    unfolding relayed_def by (rule served.relays) (simp add: steady_id)
  then show ?thesis
    unfolding reconciled_def sample_worker_def
    by (rule served.works) (simp add: fair_payment_def steady_id sample_locks_held)
qed

lemma reconciled_rows:
  "map o_status (orders (w_committed reconciled)) = [OS_PAID]"
  "map pi_sms_transaction_id (payment_intents (w_committed reconciled)) = [Some 6]"
proof -
  have "checked (\<lambda>w. map o_status (orders (w_committed w)) = [OS_PAID] \<and>
      map pi_sms_transaction_id (payment_intents (w_committed w)) = [Some 6]) reconciled"
    by code_simp
  then show "map o_status (orders (w_committed reconciled)) = [OS_PAID]"
    "map pi_sms_transaction_id (payment_intents (w_committed reconciled)) = [Some 6]"
    by (simp_all add: checked_def)
qed

theorem books_stay_balanced_witness:
  "idle reconciled \<and> valid_db (w_committed reconciled) \<and>
   map o_status (orders (w_committed reconciled)) = [OS_PAID] \<and>
   map pi_sms_transaction_id (payment_intents (w_committed reconciled)) = [Some 6]"
  using books_stay_balanced [OF served_reconciled] reconciled_rows by simp

end
