(* ===== verification/Responses.thy ===== *)
theory Responses
  imports Reconciliation
begin

text \<open>
  The answers of the endpoints: the response schemas of app/modules/order/schema.py,
  app/modules/users/schema.py and app/modules/admin/schema.py, which FastAPI builds from the rows
  a handler returns (\<open>from_attributes\<close>), and the endpoints with their \<open>response_model\<close>.

  A relationship of a row is \<open>Loaded\<close> when the handler's query loaded it. Reading one that is
  \<open>Not_loaded\<close> would send a query, which an asyncio session refuses outside its own calls, so the
  schema reports an error for the attribute. A schema that refuses a value raises
  \<open>ResponseValidationError\<close>, which the client sees as a 500.
\<close>

subsection \<open>Schemas\<close>

datatype 'a attribute = Loaded 'a | Not_loaded

record intent_response =
  pr_id :: int
  pr_status :: order_status
  pr_base_amount :: int
  pr_exact_amount :: int
  pr_created_at :: int
  pr_expired_at :: int

definition payment_intent_response_schema :: "payment_intent_row \<Rightarrow> intent_response" where
  "payment_intent_response_schema p =
     \<lparr>pr_id = pi_id p, pr_status = pi_status p, pr_base_amount = pi_base_amount p,
      pr_exact_amount = pi_exact_amount p, pr_created_at = pi_created_at p, pr_expired_at = pi_expired_at p\<rparr>"

record order_response =
  or_id :: int
  or_user_id :: int
  or_amount :: int
  or_status :: order_status
  or_created_at :: int
  or_payment_intent :: "intent_response option"

definition order_response_schema :: "order_row \<Rightarrow> payment_intent_row option attribute \<Rightarrow> exn + order_response" where
  "order_response_schema ord intent = (case intent of
      Not_loaded \<Rightarrow> Inl response_error
    | Loaded p \<Rightarrow> Inr
        \<lparr>or_id = o_id ord, or_user_id = o_user_id ord, or_amount = o_amount ord, or_status = o_status ord,
         or_created_at = o_created_at ord, or_payment_intent = map_option payment_intent_response_schema p\<rparr>)"

text \<open>What the phone of the shop sends; the endpoint reads only the content.\<close>

record sms_webhook_payload =
  sp_from_number :: pystr
  sp_content :: pystr
  sp_timestamp :: int

record webhook_response =
  wr_status :: string
  wr_transaction_id :: int

record user_response =
  ur_username :: pystr
  ur_name :: pystr
  ur_is_active :: bool
  ur_joined_at :: int

text \<open>\<open>username\<close> is a string, where the column is nullable.\<close>

definition user_response_schema :: "user_row \<Rightarrow> exn + user_response" where
  "user_response_schema u = (case u_username u of
      None \<Rightarrow> Inl response_error
    | Some n \<Rightarrow> Inr \<lparr>ur_username = n, ur_name = u_name u, ur_is_active = u_is_active u, ur_joined_at = u_joined_at u\<rparr>)"

record telegram_response =
  te_telegram_id :: int
  te_username :: "pystr option"
  te_name :: pystr
  te_admin :: bool
  te_is_active :: bool
  te_joined_at :: int

definition user_telegram_response_schema :: "user_row \<Rightarrow> exn + telegram_response" where
  "user_telegram_response_schema u = (case u_telegram_id u of
      None \<Rightarrow> Inl response_error
    | Some i \<Rightarrow> Inr \<lparr>te_telegram_id = i, te_username = u_username u, te_name = u_name u, te_admin = u_admin u,
        te_is_active = u_is_active u, te_joined_at = u_joined_at u\<rparr>)"

record cursor_response =
  cr_items :: "telegram_response list"
  cr_next_cursor :: "int option"
  cr_has_more :: bool

definition cursor_response_schema :: "user_page \<Rightarrow> exn + cursor_response" where
  "cursor_response_schema page = (case map_result user_telegram_response_schema (up_items page) of
      Inl e \<Rightarrow> Inl e
    | Inr items \<Rightarrow> Inr \<lparr>cr_items = items, cr_next_cursor = up_next_cursor page, cr_has_more = up_has_more page\<rparr>)"

subsection \<open>The schemas of the administrator\<close>

record admin_user_response =
  aur_id :: int
  aur_username :: pystr
  aur_name :: pystr
  aur_is_active :: bool

definition user_schema :: "user_row \<Rightarrow> exn + admin_user_response" where
  "user_schema u = (case u_username u of
      None \<Rightarrow> Inl response_error
    | Some n \<Rightarrow> Inr \<lparr>aur_id = u_id u, aur_username = n, aur_name = u_name u, aur_is_active = u_is_active u\<rparr>)"

record admin_intent_response =
  air_id :: int
  air_status :: order_status
  air_exact_amount :: int
  air_base_amount :: int
  air_created_at :: int

definition payment_intent_schema :: "payment_intent_row \<Rightarrow> admin_intent_response" where
  "payment_intent_schema p =
     \<lparr>air_id = pi_id p, air_status = pi_status p, air_exact_amount = pi_exact_amount p,
      air_base_amount = pi_base_amount p, air_created_at = pi_created_at p\<rparr>"

record admin_order_response =
  aor_id :: int
  aor_status :: order_status
  aor_user :: admin_user_response
  aor_created_at :: int
  aor_amount :: int
  aor_payment :: admin_intent_response

definition admin_order_response_schema :: "admin_order \<Rightarrow> exn + admin_order_response" where
  "admin_order_response_schema a = (case user_schema (ao_user a) of
      Inl e \<Rightarrow> Inl e
    | Inr u \<Rightarrow> Inr \<lparr>aor_id = o_id (ao_order a), aor_status = o_status (ao_order a), aor_user = u,
        aor_created_at = o_created_at (ao_order a), aor_amount = o_amount (ao_order a),
        aor_payment = payment_intent_schema (ao_payment a)\<rparr>)"

record paginated_orders_response =
  por_orders :: "admin_order_response list"
  por_next_cursor :: "int option"

definition paginated_orders_response :: "admin_page \<Rightarrow> exn + paginated_orders_response" where
  "paginated_orders_response page = (case map_result admin_order_response_schema (ap_orders page) of
      Inl e \<Rightarrow> Inl e
    | Inr xs \<Rightarrow> Inr \<lparr>por_orders = xs, por_next_cursor = ap_next_cursor page\<rparr>)"

subsection \<open>The endpoints with their answers\<close>

text \<open>The intent that a joined load, or \<open>session.refresh(create_order, attribute_names=['payment_intent'])\<close>, finds.\<close>

definition intent_of :: "order_row \<Rightarrow> db \<Rightarrow> payment_intent_row option" where
  "intent_of ord d = result_first (filter (\<lambda>p. pi_order_id p = o_id ord) (payment_intents d))"

definition answer_create_order :: "'r redis_sets \<Rightarrow> (nat \<Rightarrow> attempt) \<Rightarrow> exn option \<Rightarrow> exn option \<Rightarrow> int \<Rightarrow> int
    \<Rightarrow> 'r world \<Rightarrow> (exn + order_response) \<times> 'r world" where
  "answer_create_order R E commit_fault refresh_fault user_id amount =
     (case order_schema amount of
        None \<Rightarrow> raise_io unprocessable
      | Some v \<Rightarrow>
          bind_io (create_order R E commit_fault refresh_fault user_id v) (\<lambda>ord.
          bind_io (get_io (\<lambda>w. intent_of ord (w_session w))) (\<lambda>p.
          lift_io (order_response_schema ord (Loaded p)))))"

text \<open>\<open>get_order_service\<close> does not load the relationship.\<close>

definition answer_get_order :: "int \<Rightarrow> int \<Rightarrow> 'r world \<Rightarrow> (exn + order_response) \<times> 'r world" where
  "answer_get_order user_id order_id =
     bind_io (get_order user_id order_id) (\<lambda>ord. lift_io (order_response_schema ord Not_loaded))"

definition answer_get_orders :: "int \<Rightarrow> 'r world \<Rightarrow> (exn + order_response list) \<times> 'r world" where
  "answer_get_orders user_id =
     bind_io (get_orders user_id) (\<lambda>found.
     lift_io (map_result (\<lambda>(ord, p). order_response_schema ord (Loaded p)) found))"

definition answer_receive_transaction :: "tx_env \<Rightarrow> string \<Rightarrow> string \<Rightarrow> string \<Rightarrow> sms_webhook_payload
    \<Rightarrow> 'r world \<Rightarrow> (exn + webhook_response) \<times> 'r world" where
  "answer_receive_transaction E hex verification token sms_transaction =
     bind_io (receive_transaction E hex verification token (sp_content sms_transaction)) (\<lambda>i.
     return_io \<lparr>wr_status = ''accepted'', wr_transaction_id = i\<rparr>)"

definition answer_create_telegram_user :: "user_env \<Rightarrow> int \<Rightarrow> pystr option \<Rightarrow> pystr
    \<Rightarrow> 'r world \<Rightarrow> (exn + telegram_response) \<times> 'r world" where
  "answer_create_telegram_user E telegram_id username name =
     bind_io (create_telegram_user E telegram_id username name) (\<lambda>u. lift_io (user_telegram_response_schema u))"

definition answer_register_user :: "crypto \<Rightarrow> user_env \<Rightarrow> pystr \<Rightarrow> pystr \<Rightarrow> pystr
    \<Rightarrow> 'r world \<Rightarrow> (exn + user_response) \<times> 'r world" where
  "answer_register_user C E username password name =
     bind_io (register_user C E username password name) (\<lambda>u. lift_io (user_response_schema u))"

definition answer_read_users_me :: "crypto \<Rightarrow> int \<Rightarrow> pystr \<Rightarrow> 'r world \<Rightarrow> (exn + user_response) \<times> 'r world" where
  "answer_read_users_me C now token =
     bind_io (read_users_me C now token) (\<lambda>u. lift_io (user_response_schema u))"

definition answer_get_users :: "int option \<Rightarrow> int option \<Rightarrow> 'r world \<Rightarrow> (exn + cursor_response) \<times> 'r world" where
  "answer_get_users cursor limit =
     bind_io (get_users cursor limit) (\<lambda>page. lift_io (cursor_response_schema page))"

definition answer_users_orders :: "nat \<Rightarrow> int option \<Rightarrow> 'r world \<Rightarrow> (exn + paginated_orders_response) \<times> 'r world" where
  "answer_users_orders limit cursor =
     bind_io (get_all_users_orders limit cursor) (\<lambda>page. lift_io (paginated_orders_response page))"

subsection \<open>The orders of a user\<close>

lemma map_result_refused:
  assumes "\<And>y d. f y = Inl d \<Longrightarrow> d = e" and "x \<in> set xs" and "f x = Inl e"
  shows "map_result f xs = Inl e"
  using assms(2)
proof (induction xs)
  case (Cons a xs)
  show ?case
  proof (cases "f a")
    case (Inl d)
    with assms(1) show ?thesis by auto
  next
    case (Inr b)
    with Cons assms(3) show ?thesis by auto
  qed
qed simp

lemma intent_of_books:
  assumes "books d" and "ord \<in> set (orders d)"
  obtains p where "intent_of ord d = Some p" "p \<in> set (payment_intents d)" "pi_order_id p = o_id ord"
    "pi_status p = o_status ord" "pi_base_amount p = o_amount ord"
proof -
  from assms have "o_id ord \<in> pi_order_id ` set (payment_intents d)" by (simp add: books_def)
  then have "filter (\<lambda>p. pi_order_id p = o_id ord) (payment_intents d) \<noteq> []"
    by (auto simp: filter_empty_conv)
  then obtain p where p: "intent_of ord d = Some p"
    by (metis intent_of_def not_None_eq result_first_None)
  then have "p \<in> set (payment_intents d)" "pi_order_id p = o_id ord"
    by (auto simp: intent_of_def dest: result_first_Some)
  with p assms that show ?thesis by (auto simp: books_def intents_match_def)
qed

definition listed_order :: "db \<Rightarrow> order_row \<Rightarrow> order_response" where
  "listed_order d ord =
     \<lparr>or_id = o_id ord, or_user_id = o_user_id ord, or_amount = o_amount ord, or_status = o_status ord,
      or_created_at = o_created_at ord,
      or_payment_intent = map_option payment_intent_response_schema (intent_of ord d)\<rparr>"

lemma answer_get_orders_run:
  assumes "idle w"
  shows "answer_get_orders u w = (let found = filter (\<lambda>ord. o_user_id ord = u) (orders (w_committed w)) in
    if found = [] then (Inl (Http 404 ''There is no orders''), w)
    else (Inr (map (listed_order (w_committed w)) found), w))"
proof -
  have "map_result (\<lambda>(ord, p). order_response_schema ord (Loaded p)) (map (\<lambda>ord. (ord, intent_of ord d)) xs)
      = Inr (map (listed_order d) xs)" for xs d
    by (induction xs) (auto simp: order_response_schema_def listed_order_def)
  with assms show ?thesis
    by (simp add: answer_get_orders_def get_orders_def get_all_orders_def get_db_def on_session_def rollback_def
        idle_def io_combinators Let_def flip: intent_of_def)
qed

lemma answer_get_order_run:
  assumes "idle w"
  shows "answer_get_order u i w = (Inl (if \<exists>ord \<in> set (orders (w_committed w)). o_id ord = i \<and> o_user_id ord = u
    then response_error else Http 404 ''Order not found''), w)"
proof (cases "result_first (filter (user_order i u) (orders (w_committed w)))")
  case None
  then have none: "(if \<exists>ord \<in> set (orders (w_committed w)). o_id ord = i \<and> o_user_id ord = u
      then response_error else Http 404 ''Order not found'') = Http 404 ''Order not found''"
    by (auto simp: filter_empty_conv user_order_def)
  from None assms show ?thesis
    unfolding none by (simp add: answer_get_order_def get_order_def get_order_service_def get_db_def on_session_def rollback_def
        idle_def io_combinators result_first_def)
next
  case (Some ord)
  then have "ord \<in> set (orders (w_committed w))" "o_id ord = i" "o_user_id ord = u"
    by (auto simp: user_order_def dest: result_first_Some)
  with Some assms show ?thesis
    by (auto simp: answer_get_order_def get_order_def get_order_service_def get_db_def on_session_def rollback_def
        idle_def io_combinators order_response_schema_def)
qed

text \<open>
  C8. What a client is told about an order: the answer to a creation names the caller's new PENDING
  order for the amount, which is in the range, with its PENDING payment intent; the list of the caller's orders
  answers with the very same record; and the endpoint of the single order, which does not load the
  intent that its schema reads, answers with an error for this order, as for every other.
\<close>

theorem created_order_is_listed:
  assumes create: "answer_create_order R E commit_fault refresh_fault u m w = (Inr a, w1)" and "idle w"
    and books: "books (w_committed w1)"
  shows "or_user_id a = u \<and> or_amount a = m \<and> 1500000 \<le> m \<and> m \<le> 1550000 \<and> or_status a = OS_PENDING \<and>
    (\<exists>i. or_payment_intent a = Some i \<and> pr_status i = OS_PENDING \<and> pr_base_amount i = m) \<and>
    (\<exists>as. answer_get_orders u w1 = (Inr as, w1) \<and> a \<in> set as) \<and>
    answer_get_order u (or_id a) w1 = (Inl response_error, w1)"
proof -
  from create obtain ord where run: "create_order R E commit_fault refresh_fault u m w = (Inr ord, w1)"
    and a: "a = listed_order (w_session w1) ord" and m: "order_schema m = Some m"
    by (auto simp: answer_create_order_def order_schema_def io_combinators order_response_schema_def
        listed_order_def split: prod.splits sum.splits if_splits)
  from create_order_outcome [OF run assms(2)] obtain k where idle: "idle w1"
    and new: "one_order u m ord (seen E 0 k (w_committed w)) (w_committed w1)" by auto
  from new have ord: "ord \<in> set (orders (w_committed w1))" "o_user_id ord = u" "o_amount ord = m" "o_status ord = OS_PENDING"
    by (auto simp: one_order_def)
  obtain p where "intent_of ord (w_committed w1) = Some p" "pi_status p = o_status ord" "pi_base_amount p = o_amount ord"
    using intent_of_books [OF books ord(1)] by metis
  moreover have "w_session w1 = w_committed w1" using idle by (simp add: idle_def)
  ultimately show ?thesis
    using ord m a answer_get_orders_run [OF idle, of u] answer_get_order_run [OF idle, of u "or_id a"]
    by (auto simp: listed_order_def payment_intent_response_schema_def order_schema_def Let_def filter_empty_conv
        split: if_splits)
qed

definition answered_order :: "(exn + order_response) \<times> ref_state world" where
  "answered_order = answer_create_order ref_sets (\<lambda>_. sample_attempt) None None 7 1500000 sample_world"

theorem created_order_is_listed_witness:
  "\<exists>a as. fst answered_order = Inr a \<and> answer_get_orders 7 (snd answered_order) = (Inr as, snd answered_order) \<and> a \<in> set as"
proof -
  have idle: "idle sample_world" by (simp add: idle_def sample_world_def)
  have "checked (\<lambda>(x, w). x = Inr (listed_order (w_session w) (new_order sample_attempt 7 1500000)) \<and>
      valid_db (w_committed w) \<and> orders (w_committed w) = [new_order sample_attempt 7 1500000] \<and>
      payment_intents (w_committed w) = [new_payment_intent sample_attempt 1500000 1500001]) answered_order"
    by code_simp
  then have run: "fst answered_order = Inr (listed_order (w_session (snd answered_order)) (new_order sample_attempt 7 1500000))"
    and "valid_db (w_committed (snd answered_order))"
    and "orders (w_committed (snd answered_order)) = [new_order sample_attempt 7 1500000]"
    and "payment_intents (w_committed (snd answered_order)) = [new_payment_intent sample_attempt 1500000 1500001]"
    by (simp_all add: checked_def case_prod_beta)
  then have "books (w_committed (snd answered_order))"
    by (simp add: books_def intents_match_def new_order_def new_payment_intent_def)
  with created_order_is_listed [of ref_sets "\<lambda>_. sample_attempt" None None 7 1500000 sample_world _ "snd answered_order", OF _ idle]
    run show ?thesis by (simp add: answered_order_def prod_eq_iff)
qed

subsection \<open>Pages that cannot be rendered\<close>

lemma telegram_refusal: "user_telegram_response_schema u = Inl d \<Longrightarrow> d = response_error"
  by (simp add: user_telegram_response_schema_def split: option.splits)

lemma admin_refusal: "admin_order_response_schema a = Inl d \<Longrightarrow> d = response_error"
  by (auto simp: admin_order_response_schema_def user_schema_def split: option.splits)

lemma user_page_refused:
  "u \<in> set (up_items page) \<Longrightarrow> u_telegram_id u = None \<Longrightarrow> cursor_response_schema page = Inl response_error"
  using map_result_refused [of user_telegram_response_schema response_error u "up_items page", OF telegram_refusal]
  by (simp add: cursor_response_schema_def user_telegram_response_schema_def)

text \<open>
  The list of users fails on ordinary users: every page that would show a user from the
  registration, who has no Telegram id, ends in an error of the response validation, and a limit of
  0, which the schema admits, ends in an IndexError as soon as there is a user to list.
\<close>

lemma listing_fails_on_registered_users:
  assumes "cursor_schema cursor limit = Some params" and "case cursor of None \<Rightarrow> True | Some c \<Rightarrow> int4 c"
    and "idle w" and "cp_limit params = 0 \<and> listed cursor (w_committed w) \<noteq> [] \<or>
      (\<exists>u. u \<in> set (take (cp_limit params) (listed cursor (w_committed w))) \<and> u_telegram_id u = None)"
  shows "answer_get_users cursor limit w =
    (Inl (if cp_limit params = 0 then Exn IndexError ''list index out of range'' else response_error), w)"
proof -
  have cursor: "cp_cursor params = cursor"
    using assms(1) by (auto simp: cursor_schema_def Let_def split: if_splits)
  show ?thesis
  proof (cases "cp_limit params = 0")
    case True
    with assms(4) have "listed cursor (w_committed w) \<noteq> []" by auto
    with True assms(1-3) show ?thesis
      by (simp add: answer_get_users_def get_users_def get_db_def bind_io_def on_session_def idle_def cursor
          get_all_users_page [OF assms(2)] rollback_def)
  next
    case False
    with assms(4) obtain u where "u \<in> set (take (cp_limit params) (listed cursor (w_committed w)))"
      "u_telegram_id u = None" by auto
    with False assms(1-3) show ?thesis
      by (simp add: answer_get_users_def get_users_def get_db_def bind_io_def lift_io_def on_session_def idle_def cursor
          get_all_users_page [OF assms(2)] rollback_def user_page_refused)
  qed
qed

lemma listing_fails_on_registered_users_witness:
  "answer_get_users None None (snd registration) = (Inl response_error, snd registration)"
proof -
  have 1: "cursor_schema None None = Some \<lparr>cp_cursor = None, cp_limit = 1\<rparr>" by code_simp
  have 2: "take 1 (listed None (w_committed (snd registration))) = [bob]" by code_simp
  have 3: "u_telegram_id bob = None" by (simp add: bob_def new_user_def)
  have 4: "idle (snd registration)"
    using registered [OF registration_run idle_empty_world] by blast
  from listing_fails_on_registered_users [OF 1 _ 4] 2 3 show ?thesis by simp
qed

text \<open>So does the page of pending orders when one of them belongs to a user without a username.\<close>

lemma order_page_refused:
  assumes "get_all_users_orders limit cursor w = (Inr page, w')" and "a \<in> set (ap_orders page)"
    and "u_username (ao_user a) = None"
  shows "answer_users_orders limit cursor w = (Inl response_error, w')"
  using map_result_refused [of admin_order_response_schema response_error a "ap_orders page", OF admin_refusal] assms
  by (simp add: answer_users_orders_def io_combinators paginated_orders_response_def admin_order_response_schema_def
      user_schema_def)

end
