(* ===== verification/Application.thy ===== *)
theory Application
  imports Sessions Outbox
begin

text \<open>
  The set-up of the service: the settings of app/core/config.py, the connection tests of
  app/db/database.py and app/db/redis_db.py, the job of app/scheduler.py, and the routes that
  app/main.py puts together from the routers.
\<close>

subsection \<open>Settings\<close>

text \<open>
  \<open>source n\<close> is what pydantic-settings finds under the name \<open>n\<close>, in the environment or, failing
  that, in the file .env; \<open>int_of\<close> is its conversion of a string to an int. \<open>None\<close> is a
  \<open>ValidationError\<close>: a missing value of a field without a default, or no int.
\<close>

record settings =
  se_api_v1_str :: string
  se_DATABASE_URL :: string
  se_REDIS_HOST :: string
  se_REDIS_PORT :: int
  se_TOKEN_VERIFICATION :: string
  se_SECRET_KEY :: string
  se_REFRESH_SECRET_KEY :: string
  se_ALGORITHM :: string
  se_ACCESS_TOKEN_EXPIRE_MINUTES :: int
  se_REFRESH_TOKEN_EXPIRE_DAYS :: int

definition with_default :: "'a \<Rightarrow> (string \<Rightarrow> 'a option) \<Rightarrow> string option \<Rightarrow> 'a option" where
  "with_default dflt conv v = (case v of None \<Rightarrow> Some dflt | Some s \<Rightarrow> conv s)"

definition load_settings :: "(string \<Rightarrow> int option) \<Rightarrow> (string \<Rightarrow> string option) \<Rightarrow> settings option" where
  "load_settings int_of source =
     Option.bind (with_default ''/api/v1'' Some (source ''api_v1_str'')) (\<lambda>api.
     Option.bind (source ''DATABASE_URL'') (\<lambda>url.
     Option.bind (source ''REDIS_HOST'') (\<lambda>host.
     Option.bind (Option.bind (source ''REDIS_PORT'') int_of) (\<lambda>port.
     Option.bind (source ''TOKEN_VERIFICATION'') (\<lambda>token.
     Option.bind (source ''SECRET_ACCESS_KEY'') (\<lambda>secret.
     Option.bind (source ''SECRET_REFRESH_KEY'') (\<lambda>refresh_secret.
     Option.bind (with_default ''HS256'' Some (source ''ALGORITHM'')) (\<lambda>algorithm.
     Option.bind (with_default 15 int_of (source ''ACCESS_TOKEN_EXPIRE_MINUTES'')) (\<lambda>minutes.
     Option.bind (with_default 30 int_of (source ''REFRESH_TOKEN_EXPIRE_DAYS'')) (\<lambda>days.
     Some \<lparr>se_api_v1_str = api, se_DATABASE_URL = url, se_REDIS_HOST = host, se_REDIS_PORT = port,
       se_TOKEN_VERIFICATION = token, se_SECRET_KEY = secret, se_REFRESH_SECRET_KEY = refresh_secret,
       se_ALGORITHM = algorithm, se_ACCESS_TOKEN_EXPIRE_MINUTES = minutes,
       se_REFRESH_TOKEN_EXPIRE_DAYS = days\<rparr>))))))))))"

text \<open>\<open>lru_cache\<close> keeps the settings once they were read; an exception is not kept.\<close>

definition get_settings :: "(string \<Rightarrow> int option) \<Rightarrow> (string \<Rightarrow> string option)
    \<Rightarrow> settings option \<Rightarrow> (exn + settings) \<times> settings option" where
  "get_settings int_of source cache = (case cache of
      Some s \<Rightarrow> (Inr s, cache)
    | None \<Rightarrow> (case load_settings int_of source of
        None \<Rightarrow> (Inl (Exn ValueError ''ValidationError''), None)
      | Some s \<Rightarrow> (Inr s, Some s)))"

text \<open>The lifetimes that login and refresh take from the settings.\<close>

definition token_config :: "settings \<Rightarrow> config" where
  "token_config s = \<lparr>cf_access_seconds = se_ACCESS_TOKEN_EXPIRE_MINUTES s * 60,
     cf_refresh_seconds = se_REFRESH_TOKEN_EXPIRE_DAYS s * 24 * 60 * 60\<rparr>"

text \<open>
  The settings of a process do not change, and without values of its own it has the default
  lifetimes. Without TOKEN_VERIFICATION, which the example of the README leaves out, nothing starts.
\<close>

lemma settings_are_fixed:
  "get_settings int_of source cache = (Inr s, cache') \<Longrightarrow> get_settings int_of' source' cache' = (Inr s, cache')"
  by (cases cache; cases "load_settings int_of source") (auto simp: get_settings_def)

lemma missing_setting:
  "source ''TOKEN_VERIFICATION'' = None \<Longrightarrow> load_settings int_of source = None"
  by (auto simp: load_settings_def split: bind_splits)

lemma default_lifetimes:
  assumes "get_settings int_of source None = (Inr s, cache)"
    and "source ''ACCESS_TOKEN_EXPIRE_MINUTES'' = None" "source ''REFRESH_TOKEN_EXPIRE_DAYS'' = None"
  shows "token_config s = default_config"
  using assms
  by (auto simp: get_settings_def load_settings_def with_default_def token_config_def default_config_def
      split: option.splits bind_splits)

subsection \<open>Connection tests\<close>

text \<open>Both tests answer a bool: an exception is caught, printed and turned into False.\<close>

definition test_async_connection :: "exn + 'a \<Rightarrow> exn + bool" where
  "test_async_connection select_1 = (case select_1 of
      Inr result \<Rightarrow> Inr True
    | Inl e \<Rightarrow> if catches Exception_cls e then Inr False else Inl e)"

definition test_async_redis_connection :: "('r \<Rightarrow> (exn + 'a) \<times> 'r) \<Rightarrow> ('r \<Rightarrow> (exn + unit) \<times> 'r)
    \<Rightarrow> 'r \<Rightarrow> (exn + bool) \<times> 'r" where
  "test_async_redis_connection ping aclose =
     try_io (bind_io ping (\<lambda>_. bind_io aclose (\<lambda>_. return_io True)))
       (\<lambda>e. if catches Exception_cls e then return_io False else raise_io e)"

subsection \<open>The scheduler\<close>

text \<open>A job of APScheduler: its id, the function with its \<open>redis_client\<close>, and its interval.\<close>

record 'a job =
  jb_id :: string
  jb_func :: 'a
  jb_seconds :: nat

text \<open>\<open>add_job\<close> with \<open>replace_existing=True\<close>.\<close>

definition add_job :: "'a job \<Rightarrow> 'a job list \<Rightarrow> 'a job list" where
  "add_job j jobs = filter (\<lambda>k. jb_id k \<noteq> jb_id j) jobs @ [j]"

definition setup_scheduler :: "'r redis_streams
    \<Rightarrow> (relay_env \<Rightarrow> 'r world \<Rightarrow> (exn + int) \<times> 'r world) job list" where
  "setup_scheduler redis_client =
     add_job \<lparr>jb_id = ''order_outbox_relay'', jb_func = process_outbox_event redis_client, jb_seconds = 60\<rparr> []"

subsection \<open>Routes\<close>

text \<open>
  A path is a list of segments; a parameter stands for one segment that is not empty. Left out are
  the pages of FastAPI's own documentation, and its redirection of a URL with a trailing slash to a
  route without it.
\<close>

datatype segment = Fixed string | Param string

datatype http_method = GET | POST | DELETE | PATCH

record route =
  ro_method :: http_method
  ro_path :: "segment list"
  ro_endpoint :: string
  ro_status :: int

definition create_order_route :: route where
  "create_order_route =
     \<lparr>ro_method = POST, ro_path = [Fixed ''create-order''],
      ro_endpoint = ''create_order'', ro_status = 201\<rparr>"

definition get_order_route :: route where
  "get_order_route =
     \<lparr>ro_method = GET, ro_path = [Fixed ''get-order'', Param ''order_id''],
      ro_endpoint = ''get_order'', ro_status = 200\<rparr>"

definition get_orders_route :: route where
  "get_orders_route =
     \<lparr>ro_method = GET, ro_path = [Fixed ''all-orders''],
      ro_endpoint = ''get_orders'', ro_status = 200\<rparr>"

definition delete_order_route :: route where
  "delete_order_route =
     \<lparr>ro_method = DELETE, ro_path = [Fixed ''delete'', Param ''order_id''],
      ro_endpoint = ''delete_order'', ro_status = 204\<rparr>"

definition receive_transaction_route :: route where
  "receive_transaction_route =
     \<lparr>ro_method = POST, ro_path = [Fixed ''transaction''],
      ro_endpoint = ''receive_transaction'', ro_status = 200\<rparr>"

definition order_routes :: "route list" where
  "order_routes =
     [create_order_route, get_order_route, get_orders_route, delete_order_route, receive_transaction_route]"

definition create_telegram_user_route :: route where
  "create_telegram_user_route =
     \<lparr>ro_method = POST, ro_path = [Fixed ''telegram''],
      ro_endpoint = ''create_telegram_user'', ro_status = 201\<rparr>"

definition register_user_route :: route where
  "register_user_route =
     \<lparr>ro_method = POST, ro_path = [Fixed ''register''],
      ro_endpoint = ''register_user'', ro_status = 201\<rparr>"

definition login_user_route :: route where
  "login_user_route =
     \<lparr>ro_method = POST, ro_path = [Fixed ''login''],
      ro_endpoint = ''login_user'', ro_status = 200\<rparr>"

definition read_users_me_route :: route where
  "read_users_me_route =
     \<lparr>ro_method = GET, ro_path = [Fixed ''me''],
      ro_endpoint = ''read_users_me'', ro_status = 200\<rparr>"

definition refresh_token_route :: route where
  "refresh_token_route =
     \<lparr>ro_method = POST, ro_path = [Fixed ''refresh''],
      ro_endpoint = ''refresh_token'', ro_status = 200\<rparr>"

definition get_users_route :: route where
  "get_users_route =
     \<lparr>ro_method = GET, ro_path = [Fixed ''get-users''],
      ro_endpoint = ''get_users'', ro_status = 200\<rparr>"

definition user_routes :: "route list" where
  "user_routes =
     [create_telegram_user_route, register_user_route, login_user_route, read_users_me_route, refresh_token_route, get_users_route]"

definition dlq_dashboard_route :: route where
  "dlq_dashboard_route =
     \<lparr>ro_method = GET, ro_path = [Fixed ''dlq-dashboard''],
      ro_endpoint = ''dlq_dashboard'', ro_status = 200\<rparr>"

definition replay_dlq_dashboard_route :: route where
  "replay_dlq_dashboard_route =
     \<lparr>ro_method = POST, ro_path = [Fixed ''replay-dlq'', Param ''message_id''],
      ro_endpoint = ''replay_dlq_dashboard'', ro_status = 200\<rparr>"

definition get_all_users_orders_route :: route where
  "get_all_users_orders_route =
     \<lparr>ro_method = GET, ro_path = [Fixed ''users-orders''],
      ro_endpoint = ''get_all_users_orders'', ro_status = 200\<rparr>"

definition confirm_payment_route :: route where
  "confirm_payment_route =
     \<lparr>ro_method = PATCH, ro_path = [Fixed ''order'', Param ''order_id'', Fixed ''payment'', Param ''payment_id'', Fixed ''confirm''],
      ro_endpoint = ''confirm_payment'', ro_status = 200\<rparr>"

definition admin_routes :: "route list" where
  "admin_routes =
     [dlq_dashboard_route, replay_dlq_dashboard_route, get_all_users_orders_route, confirm_payment_route]"

text \<open>\<open>APIRouter(prefix=...)\<close> and \<open>app.include_router\<close>.\<close>

definition under_prefix :: "string \<Rightarrow> route list \<Rightarrow> route list" where
  "under_prefix p rs = map (\<lambda>r. r\<lparr>ro_path := Fixed p # ro_path r\<rparr>) rs"

definition test_connection_route :: route where
  "test_connection_route =
     \<lparr>ro_method = GET, ro_path = [Fixed ''test-connection''],
      ro_endpoint = ''test_connection'', ro_status = 200\<rparr>"

definition test_redis_connection_route :: route where
  "test_redis_connection_route =
     \<lparr>ro_method = GET, ro_path = [Fixed ''test-redis-connection''],
      ro_endpoint = ''test_redis_connection'', ro_status = 200\<rparr>"

definition app_routes :: "route list" where
  "app_routes = under_prefix ''orders'' order_routes @ under_prefix ''users'' user_routes @
     under_prefix ''admin'' admin_routes @ [test_connection_route, test_redis_connection_route]"

fun match_path :: "segment list \<Rightarrow> string list \<Rightarrow> (string \<times> string) list option" where
  "match_path [] [] = Some []"
| "match_path (Fixed s # ps) (x # xs) = (if x = s then match_path ps xs else None)"
| "match_path (Param n # ps) (x # xs) = (if x = [] then None else map_option (Cons (n, x)) (match_path ps xs))"
| "match_path _ _ = None"

datatype dispatched = Endpoint string "(string \<times> string) list" | Method_not_allowed | Not_found

text \<open>The first route with the path and the method; the path alone answers 405, no path 404.\<close>

fun dispatch_in :: "route list \<Rightarrow> http_method \<Rightarrow> string list \<Rightarrow> dispatched" where
  "dispatch_in [] m url = Not_found"
| "dispatch_in (r # rs) m url = (case match_path (ro_path r) url of
      None \<Rightarrow> dispatch_in rs m url
    | Some args \<Rightarrow>
        if ro_method r = m then Endpoint (ro_endpoint r) args
        else (case dispatch_in rs m url of Not_found \<Rightarrow> Method_not_allowed | d \<Rightarrow> d))"

definition dispatch :: "http_method \<Rightarrow> string list \<Rightarrow> dispatched" where
  "dispatch = dispatch_in app_routes"

text \<open>Where \<open>oauth2_scheme\<close> of app/modules/users/security.py sends a client to log in.\<close>

definition token_url :: "string list" where
  "token_url = [''login'']"

subsection \<open>Every URL reaches its endpoint\<close>

fun params :: "segment list \<Rightarrow> string list" where
  "params [] = []"
| "params (Fixed s # ps) = params ps"
| "params (Param n # ps) = n # params ps"

text \<open>The URL of a route with values for its parameters.\<close>

fun url_for :: "segment list \<Rightarrow> string list \<Rightarrow> string list" where
  "url_for [] xs = []"
| "url_for (Fixed s # ps) xs = s # url_for ps xs"
| "url_for (Param n # ps) (x # xs) = x # url_for ps xs"
| "url_for (Param n # ps) [] = []"

lemma url_for_not_Nil: "map fst args = params (p # ps) \<Longrightarrow> [] = url_for (p # ps) (map snd args) \<Longrightarrow> False"
  by (cases p; cases args) auto

lemma match_path_url:
  "match_path ps url = Some args \<longleftrightarrow> map fst args = params ps \<and> [] \<notin> snd ` set args \<and> url = url_for ps (map snd args)"
proof (induction ps url arbitrary: args rule: match_path.induct)
  case (3 n ps x xs)
  show ?case
  proof (cases args)
    case (Cons a rest)
    with 3 show ?thesis by (cases a) auto
  qed auto
qed (auto split: if_splits dest: url_for_not_Nil)

lemma dispatch_in_route:
  "dispatch_in rs m url = Endpoint n args \<Longrightarrow>
   \<exists>r \<in> set rs. ro_method r = m \<and> ro_endpoint r = n \<and> match_path (ro_path r) url = Some args"
  by (induction rs) (auto split: option.splits if_splits dispatched.splits)

lemma length_one: "length xs = Suc 0 \<longleftrightarrow> (\<exists>x. xs = [x])"
  by (cases xs) auto

lemmas route_defs =
  create_order_route_def get_order_route_def get_orders_route_def delete_order_route_def
  receive_transaction_route_def create_telegram_user_route_def register_user_route_def
  login_user_route_def read_users_me_route_def refresh_token_route_def get_users_route_def
  dlq_dashboard_route_def replay_dlq_dashboard_route_def get_all_users_orders_route_def
  confirm_payment_route_def test_connection_route_def test_redis_connection_route_def
  order_routes_def user_routes_def admin_routes_def app_routes_def under_prefix_def

lemma route_reached:
  assumes "r \<in> set app_routes" and "match_path (ro_path r) url = Some args"
  shows "dispatch (ro_method r) url = Endpoint (ro_endpoint r) args"
  using assms
  by (auto simp: dispatch_def route_defs match_path_url Cons_eq_map_conv map_eq_Cons_conv)

text \<open>
  C40. The routes are unambiguous: a request reaches an endpoint with some arguments exactly when it
  has the method of its route and the URL that the route's path gives for these arguments, none
  of them empty; no route hides another. The URL at which \<open>oauth2_scheme\<close> tells clients to
  log in is none of them: it is not found.
\<close>

theorem urls_reach_their_endpoints:
  "(dispatch m url = Endpoint n args \<longleftrightarrow> (\<exists>r \<in> set app_routes. ro_method r = m \<and> ro_endpoint r = n \<and>
      map fst args = params (ro_path r) \<and> [] \<notin> snd ` set args \<and> url = url_for (ro_path r) (map snd args))) \<and>
   dispatch POST token_url = Not_found"
proof
  show "dispatch POST token_url = Not_found" by code_simp
  show "dispatch m url = Endpoint n args \<longleftrightarrow> (\<exists>r \<in> set app_routes. ro_method r = m \<and> ro_endpoint r = n \<and>
      map fst args = params (ro_path r) \<and> [] \<notin> snd ` set args \<and> url = url_for (ro_path r) (map snd args))"
    unfolding match_path_url [symmetric]
    using dispatch_in_route [of app_routes m url n args] route_reached [of _ url args]
    by (auto simp: dispatch_def)
qed

end
