(* ===== verification/Schema.thy ===== *)
theory Schema
  imports Prelude
begin

text \<open>
  The DDL the migrations of alembic/versions are written in, and the documented effect of each
  operation on the catalog of PostgreSQL: tables with their columns and constraints, indexes and
  enumeration types. A statement that PostgreSQL or Alembic refuses is an error and has no effect.

  The catalog does not hold rows: an operation that only rows can make fail succeeds here.
\<close>

subsection \<open>Columns, constraints and indexes\<close>

text \<open>The SQLAlchemy types. An \<open>Enum\<close> has its labels, the name of its PostgreSQL type and the
  flag \<open>create_type\<close>: whether a table created with it also creates the type.\<close>

datatype sa_type =
    Integer | BigInteger | String nat | Text | Boolean | DateTime bool | JSONB | UUID
  | Enum "string list" string bool

text \<open>The server defaults in use; \<open>Next_day\<close> is \<open>CURRENT_TIMESTAMP\<close> plus an interval of one day,
  which PostgreSQL reflects in another spelling.\<close>

datatype server_default = Now | Next_day | False_default

record column =
  c_name :: string
  c_type :: sa_type
  c_nullable :: bool
  c_default :: "server_default option"

definition column :: "string \<Rightarrow> sa_type \<Rightarrow> bool \<Rightarrow> column" where
  "column n t nullable = \<lparr>c_name = n, c_type = t, c_nullable = nullable, c_default = None\<rparr>"

definition column_with :: "string \<Rightarrow> sa_type \<Rightarrow> bool \<Rightarrow> server_default \<Rightarrow> column" where
  "column_with n t nullable d = \<lparr>c_name = n, c_type = t, c_nullable = nullable, c_default = Some d\<rparr>"

datatype constraint =
    PrimaryKey "string list"
  | Unique "string list"
  | ForeignKey "string list" string "string list" "string option"

record table =
  t_name :: string
  t_columns :: "column list"
  t_constraints :: "(string \<times> constraint) list"

text \<open>The predicate of a partial index is an equation of a column and a literal.\<close>

record db_index =
  ix_name :: string
  ix_table :: string
  ix_columns :: "string list"
  ix_unique :: bool
  ix_where :: "(string \<times> string) option"

record catalog =
  cat_tables :: "table list"
  cat_indexes :: "db_index list"
  cat_types :: "(string \<times> string list) list"

definition empty_catalog :: catalog where
  "empty_catalog = \<lparr>cat_tables = [], cat_indexes = [], cat_types = []\<rparr>"

definition column_names :: "table \<Rightarrow> string list" where
  "column_names t = map c_name (t_columns t)"

definition find_table :: "string \<Rightarrow> catalog \<Rightarrow> table option" where
  "find_table n c = find (\<lambda>t. t_name t = n) (cat_tables c)"

definition change_table :: "string \<Rightarrow> (table \<Rightarrow> table) \<Rightarrow> catalog \<Rightarrow> catalog" where
  "change_table n f c = c\<lparr>cat_tables := map (\<lambda>t. if t_name t = n then f t else t) (cat_tables c)\<rparr>"

subsection \<open>Errors\<close>

datatype ddl_error =
    DuplicateTable string | UndefinedTable string
  | DuplicateColumn string string | UndefinedColumn string string
  | DuplicateObject string | UndefinedObject string
  | CannotCoerce string string | InvalidForeignKey string | DependentObjects string
  | InvalidTableDefinition string
  | NamelessConstraint
  | UnknownRevision string

definition bind_ddl :: "ddl_error + 'a \<Rightarrow> ('a \<Rightarrow> ddl_error + 'b) \<Rightarrow> ddl_error + 'b" where
  "bind_ddl r f = (case r of Inl e \<Rightarrow> Inl e | Inr x \<Rightarrow> f x)"

definition check :: "bool \<Rightarrow> ddl_error \<Rightarrow> 'a \<Rightarrow> ddl_error + 'a" where
  "check ok e x = (if ok then Inr x else Inl e)"

definition the_table :: "string \<Rightarrow> catalog \<Rightarrow> ddl_error + table" where
  "the_table n c = (case find_table n c of None \<Rightarrow> Inl (UndefinedTable n) | Some t \<Rightarrow> Inr t)"

subsection \<open>Constraints\<close>

fun constrained :: "constraint \<Rightarrow> string list" where
  "constrained (PrimaryKey cs) = cs"
| "constrained (Unique cs) = cs"
| "constrained (ForeignKey cs _ _ _) = cs"

fun refers :: "constraint \<Rightarrow> (string \<times> string list) option" where
  "refers (ForeignKey _ t cs _) = Some (t, cs)"
| "refers _ = None"

text \<open>The name PostgreSQL chooses for a constraint without one, when it is free.\<close>

fun default_name :: "string \<Rightarrow> constraint \<Rightarrow> string" where
  "default_name t (PrimaryKey _) = t @ ''_pkey''"
| "default_name t (Unique cs) = t @ concat (map (\<lambda>c. ''_'' @ c) cs) @ ''_key''"
| "default_name t (ForeignKey cs _ _ _) = t @ concat (map (\<lambda>c. ''_'' @ c) cs) @ ''_fkey''"

definition taken_names :: "catalog \<Rightarrow> string list" where
  "taken_names c = map t_name (cat_tables c) @ map ix_name (cat_indexes c) @
     concat (map (\<lambda>t. map fst (t_constraints t)) (cat_tables c))"

definition chosen_name :: "string list \<Rightarrow> string \<Rightarrow> string" where
  "chosen_name taken n = (if n \<notin> set taken then n
     else hd (filter (\<lambda>m. m \<notin> set taken) (map (\<lambda>i. n @ str_of_nat i) [1..<length taken + 2])))"

fun is_key :: "string list \<Rightarrow> constraint \<Rightarrow> bool" where
  "is_key cs (PrimaryKey ks) = (set ks = set cs)"
| "is_key cs (Unique ks) = (set ks = set cs)"
| "is_key cs (ForeignKey _ _ _ _) = False"

definition has_key :: "string list \<Rightarrow> table \<Rightarrow> catalog \<Rightarrow> bool" where
  "has_key cs t c =
     (list_ex (\<lambda>k. is_key cs (snd k)) (t_constraints t) \<or>
      list_ex (\<lambda>i. ix_table i = t_name t \<and> ix_unique i \<and> ix_where i = None \<and>
        set (ix_columns i) = set cs) (cat_indexes c))"

definition add_constraint :: "string option \<Rightarrow> constraint \<Rightarrow> string \<Rightarrow> catalog \<Rightarrow> ddl_error + catalog" where
  "add_constraint name k tn c =
     bind_ddl (the_table tn c) (\<lambda>t.
     bind_ddl (check (list_all (\<lambda>n. n \<in> set (column_names t)) (constrained k))
       (UndefinedColumn tn (concat (constrained k))) ()) (\<lambda>_.
     bind_ddl (case refers k of
         None \<Rightarrow> Inr ()
       | Some (rn, cs) \<Rightarrow> bind_ddl (the_table rn c) (\<lambda>r. check (has_key cs r c) (InvalidForeignKey rn) ())) (\<lambda>_.
     bind_ddl (case name of
         None \<Rightarrow> Inr (chosen_name (taken_names c) (default_name tn k))
       | Some n \<Rightarrow> check (n \<notin> set (taken_names c)) (DuplicateObject n) n) (\<lambda>n.
     Inr (change_table tn (\<lambda>t. t\<lparr>t_constraints := t_constraints t @ [(n, k)]\<rparr>) c)))))"

fun add_constraints :: "(string option \<times> constraint) list \<Rightarrow> string \<Rightarrow> catalog \<Rightarrow> ddl_error + catalog" where
  "add_constraints [] tn c = Inr c"
| "add_constraints ((n, k) # ks) tn c = bind_ddl (add_constraint n k tn c) (add_constraints ks tn)"

subsection \<open>Operations\<close>

text \<open>The operations of \<open>alembic.op\<close> the revisions use. The arguments \<open>existing_type\<close> and
  \<open>existing_nullable\<close> of \<open>alter_column\<close>, the table of \<open>drop_index\<close> and the kind of a dropped
  constraint do not reach PostgreSQL; \<open>autoincrement\<close> is what an integer primary key has anyway.
  \<open>AddEnumValue\<close> is \<open>ALTER TYPE ... ADD VALUE IF NOT EXISTS\<close>.\<close>

datatype ddl =
    CreateTable string "column list" "(string option \<times> constraint) list"
  | DropTable string
  | AddColumn string column
  | DropColumn string string
  | AlterColumn string string "sa_type option" "bool option"
  | CreateIndex string string "string list" bool "(string \<times> string) option"
  | DropIndex string
  | CreateConstraint "string option" string constraint
  | DropConstraint "string option" string
  | AddEnumValue string string

text \<open>The type of a column in the catalog: an enumeration by its name.\<close>

fun stored_type :: "sa_type \<Rightarrow> sa_type" where
  "stored_type (Enum _ n _) = Enum [] n False"
| "stored_type t = t"

definition stored :: "column \<Rightarrow> column" where
  "stored col = col\<lparr>c_type := stored_type (c_type col)\<rparr>"

text \<open>\<open>before_create\<close> of an \<open>Enum\<close>: its type is created without a look at what exists.\<close>

fun create_type :: "sa_type \<Rightarrow> catalog \<Rightarrow> ddl_error + catalog" where
  "create_type (Enum labels n create) c =
     (if \<not> create then check (n \<in> set (map fst (cat_types c))) (UndefinedObject n) c
      else check (n \<notin> set (map fst (cat_types c))) (DuplicateObject n)
        (c\<lparr>cat_types := cat_types c @ [(n, labels)]\<rparr>))"
| "create_type _ c = Inr c"

text \<open>What a column added later needs: the enumeration must exist.\<close>

fun type_exists :: "sa_type \<Rightarrow> catalog \<Rightarrow> bool" where
  "type_exists (Enum _ n _) c = (n \<in> set (map fst (cat_types c)))"
| "type_exists _ c = True"

fun create_types :: "column list \<Rightarrow> catalog \<Rightarrow> ddl_error + catalog" where
  "create_types [] c = Inr c"
| "create_types (col # cols) c = bind_ddl (create_type (c_type col) c) (create_types cols)"

definition create_table :: "string \<Rightarrow> column list \<Rightarrow> (string option \<times> constraint) list \<Rightarrow> catalog
    \<Rightarrow> ddl_error + catalog" where
  "create_table n cols ks c =
     bind_ddl (create_types cols c) (\<lambda>c.
     bind_ddl (check (n \<notin> set (taken_names c)) (DuplicateTable n) ()) (\<lambda>_.
     bind_ddl (check (distinct (map c_name cols)) (DuplicateColumn n n) ()) (\<lambda>_.
       add_constraints ks n
         (c\<lparr>cat_tables := cat_tables c @ [\<lparr>t_name = n, t_columns = map stored cols, t_constraints = []\<rparr>]\<rparr>))))"

text \<open>The foreign keys of other tables on a table, and those on some columns of it.\<close>

definition referring :: "string \<Rightarrow> (string list \<Rightarrow> bool) \<Rightarrow> catalog \<Rightarrow> bool" where
  "referring n P c = list_ex (\<lambda>t. t_name t \<noteq> n \<and>
     list_ex (\<lambda>k. case refers (snd k) of None \<Rightarrow> False | Some (rn, cs) \<Rightarrow> rn = n \<and> P cs) (t_constraints t))
     (cat_tables c)"

definition drop_table :: "string \<Rightarrow> catalog \<Rightarrow> ddl_error + catalog" where
  "drop_table n c =
     bind_ddl (the_table n c) (\<lambda>_.
     check (\<not> referring n (\<lambda>_. True) c) (DependentObjects n)
       (c\<lparr>cat_tables := filter (\<lambda>t. t_name t \<noteq> n) (cat_tables c),
          cat_indexes := filter (\<lambda>i. ix_table i \<noteq> n) (cat_indexes c)\<rparr>))"

definition add_column :: "string \<Rightarrow> column \<Rightarrow> catalog \<Rightarrow> ddl_error + catalog" where
  "add_column n col c =
     bind_ddl (the_table n c) (\<lambda>t.
     bind_ddl (check (c_name col \<notin> set (column_names t)) (DuplicateColumn n (c_name col)) ()) (\<lambda>_.
     bind_ddl (check (type_exists (c_type col) c) (UndefinedObject (c_name col)) ()) (\<lambda>_.
       Inr (change_table n (\<lambda>t. t\<lparr>t_columns := t_columns t @ [stored col]\<rparr>) c))))"

text \<open>A dropped column takes its constraints and indexes with it.\<close>

definition index_uses :: "db_index \<Rightarrow> string list" where
  "index_uses i = ix_columns i @ (case ix_where i of None \<Rightarrow> [] | Some (cn, _) \<Rightarrow> [cn])"

definition without_column :: "string \<Rightarrow> table \<Rightarrow> table" where
  "without_column cn t =
     t\<lparr>t_columns := filter (\<lambda>col. c_name col \<noteq> cn) (t_columns t),
       t_constraints := filter (\<lambda>k. cn \<notin> set (constrained (snd k))) (t_constraints t)\<rparr>"

definition drop_column :: "string \<Rightarrow> string \<Rightarrow> catalog \<Rightarrow> ddl_error + catalog" where
  "drop_column n cn c =
     bind_ddl (the_table n c) (\<lambda>t.
     bind_ddl (check (cn \<in> set (column_names t)) (UndefinedColumn n cn) ()) (\<lambda>_.
     check (\<not> referring n (\<lambda>cs. cn \<in> set cs) c) (DependentObjects cn)
       ((change_table n (without_column cn) c)
          \<lparr>cat_indexes := filter (\<lambda>i. ix_table i \<noteq> n \<or> cn \<notin> set (index_uses i)) (cat_indexes c)\<rparr>)))"

text \<open>The casts \<open>ALTER COLUMN TYPE\<close> applies without \<open>USING\<close>: between the integers, between the
  timestamps, and from any type to a string type; from a string there is only the explicit cast.\<close>

fun castable :: "sa_type \<Rightarrow> sa_type \<Rightarrow> bool" where
  "castable _ (String _) = True"
| "castable _ Text = True"
| "castable (DateTime _) (DateTime _) = True"
| "castable Integer BigInteger = True"
| "castable BigInteger Integer = True"
| "castable s t = (s = t)"

definition in_primary_key :: "string \<Rightarrow> table \<Rightarrow> bool" where
  "in_primary_key cn t = list_ex (\<lambda>k. case snd k of PrimaryKey cs \<Rightarrow> cn \<in> set cs | _ \<Rightarrow> False) (t_constraints t)"

definition alter :: "sa_type option \<Rightarrow> bool option \<Rightarrow> column \<Rightarrow> column" where
  "alter ty nullable col =
     col\<lparr>c_type := (case ty of None \<Rightarrow> c_type col | Some t \<Rightarrow> stored_type t),
         c_nullable := (case nullable of None \<Rightarrow> c_nullable col | Some b \<Rightarrow> b)\<rparr>"

definition alter_column :: "string \<Rightarrow> string \<Rightarrow> sa_type option \<Rightarrow> bool option \<Rightarrow> catalog \<Rightarrow> ddl_error + catalog" where
  "alter_column n cn ty nullable c =
     bind_ddl (the_table n c) (\<lambda>t.
     bind_ddl (case find (\<lambda>col. c_name col = cn) (t_columns t) of
         None \<Rightarrow> Inl (UndefinedColumn n cn) | Some col \<Rightarrow> Inr col) (\<lambda>col.
     bind_ddl (check (case ty of None \<Rightarrow> True | Some s \<Rightarrow> castable (c_type col) (stored_type s)) (CannotCoerce n cn) ()) (\<lambda>_.
     bind_ddl (check (nullable = Some True \<longrightarrow> \<not> in_primary_key cn t) (InvalidTableDefinition cn) ()) (\<lambda>_.
       Inr (change_table n (\<lambda>t. t\<lparr>t_columns :=
         map (\<lambda>col. if c_name col = cn then alter ty nullable col else col) (t_columns t)\<rparr>) c)))))"

definition create_index :: "string \<Rightarrow> string \<Rightarrow> string list \<Rightarrow> bool \<Rightarrow> (string \<times> string) option \<Rightarrow> catalog
    \<Rightarrow> ddl_error + catalog" where
  "create_index i n cols unique wh c =
     bind_ddl (the_table n c) (\<lambda>t.
     bind_ddl (check (i \<notin> set (taken_names c)) (DuplicateTable i) ()) (\<lambda>_.
     check (list_all (\<lambda>cn. cn \<in> set (column_names t))
         (cols @ (case wh of None \<Rightarrow> [] | Some (cn, _) \<Rightarrow> [cn]))) (UndefinedColumn n (concat cols))
       (c\<lparr>cat_indexes := cat_indexes c @
          [\<lparr>ix_name = i, ix_table = n, ix_columns = cols, ix_unique = unique, ix_where = wh\<rparr>]\<rparr>)))"

definition drop_index :: "string \<Rightarrow> catalog \<Rightarrow> ddl_error + catalog" where
  "drop_index i c = check (i \<in> set (map ix_name (cat_indexes c))) (UndefinedObject i)
     (c\<lparr>cat_indexes := filter (\<lambda>x. ix_name x \<noteq> i) (cat_indexes c)\<rparr>)"

text \<open>Alembic cannot render \<open>DROP CONSTRAINT\<close> for a constraint without a name.\<close>

definition drop_constraint :: "string option \<Rightarrow> string \<Rightarrow> catalog \<Rightarrow> ddl_error + catalog" where
  "drop_constraint name n c = (case name of
       None \<Rightarrow> Inl NamelessConstraint
     | Some k \<Rightarrow>
         bind_ddl (the_table n c) (\<lambda>t.
         case map_of (t_constraints t) k of
           None \<Rightarrow> Inl (UndefinedObject k)
         | Some con \<Rightarrow>
             check (refers con \<noteq> None \<or> \<not> referring n (\<lambda>cs. set cs = set (constrained con)) c) (DependentObjects k)
               (change_table n (\<lambda>t. t\<lparr>t_constraints := filter (\<lambda>x. fst x \<noteq> k) (t_constraints t)\<rparr>) c)))"

definition add_enum_value :: "string \<Rightarrow> string \<Rightarrow> catalog \<Rightarrow> ddl_error + catalog" where
  "add_enum_value n v c = check (n \<in> set (map fst (cat_types c))) (UndefinedObject n)
     (c\<lparr>cat_types := map (\<lambda>(m, ls). (m, if m = n \<and> v \<notin> set ls then ls @ [v] else ls)) (cat_types c)\<rparr>)"

fun exec1 :: "ddl \<Rightarrow> catalog \<Rightarrow> ddl_error + catalog" where
  "exec1 (CreateTable n cols ks) c = create_table n cols ks c"
| "exec1 (DropTable n) c = drop_table n c"
| "exec1 (AddColumn n col) c = add_column n col c"
| "exec1 (DropColumn n cn) c = drop_column n cn c"
| "exec1 (AlterColumn n cn ty nullable) c = alter_column n cn ty nullable c"
| "exec1 (CreateIndex i n cols unique wh) c = create_index i n cols unique wh c"
| "exec1 (DropIndex i) c = drop_index i c"
| "exec1 (CreateConstraint name n k) c = add_constraint name k n c"
| "exec1 (DropConstraint name n) c = drop_constraint name n c"
| "exec1 (AddEnumValue n v) c = add_enum_value n v c"

fun exec :: "ddl list \<Rightarrow> catalog \<Rightarrow> ddl_error + catalog" where
  "exec [] c = Inr c"
| "exec (i # is) c = bind_ddl (exec1 i c) (exec is)"

lemma bind_ddl_Inr: "bind_ddl r f = Inr y \<longleftrightarrow> (\<exists>x. r = Inr x \<and> f x = Inr y)"
  by (cases r) (simp_all add: bind_ddl_def)

lemma exec_append: "exec (is @ js) c = bind_ddl (exec is c) (exec js)"
  by (induction "is" arbitrary: c) (simp_all add: bind_ddl_def split: sum.splits)

subsection \<open>Comparison of catalogs\<close>

text \<open>Two catalogs describe the same schema when they differ only in the order in which things
  were created: the order of tables, columns, constraints and indexes. The labels of an
  enumeration are compared in their order, which is the order of its values in PostgreSQL.\<close>

definition same_set :: "('a \<Rightarrow> 'b \<Rightarrow> bool) \<Rightarrow> 'a list \<Rightarrow> 'b list \<Rightarrow> bool" where
  "same_set P xs ys \<longleftrightarrow> length xs = length ys \<and> list_all (\<lambda>x. list_ex (P x) ys) xs \<and>
     list_all (\<lambda>y. list_ex (\<lambda>x. P x y) xs) ys"

definition same_table :: "table \<Rightarrow> table \<Rightarrow> bool" where
  "same_table t u \<longleftrightarrow> t_name t = t_name u \<and> same_set (=) (t_columns t) (t_columns u) \<and>
     same_set (=) (t_constraints t) (t_constraints u)"

definition same_schema :: "catalog \<Rightarrow> catalog \<Rightarrow> bool" where
  "same_schema c d \<longleftrightarrow> same_set same_table (cat_tables c) (cat_tables d) \<and>
     same_set (=) (cat_indexes c) (cat_indexes d) \<and> same_set (=) (cat_types c) (cat_types d)"

end
