(* ===== verification/Migrations.thy ===== *)
theory Migrations
  imports Schema
begin

text \<open>
  The revisions of alembic/versions, one definition per script: its identifiers and what
  \<open>upgrade\<close> and \<open>downgrade\<close> do, in the order of the statements; and the transaction env.py runs
  them in. In which order the revisions run is Alembic's choice; all that is used of it is that a
  revision runs after those it revises.
\<close>

record revision =
  rv_id :: string
  rv_down :: "string list"
  rv_upgrade :: "ddl list"
  rv_downgrade :: "ddl list"

abbreviation order_labels :: "string list" where
  "order_labels \<equiv> [''PENDING'', ''REVIEWED'', ''PAID'', ''FAILED'', ''EXPIRED'']"

definition rev_992962f50b4a :: revision where
  "rev_992962f50b4a = \<lparr>rv_id = ''992962f50b4a'', rv_down = [],
     rv_upgrade =
       [CreateTable ''users''
          [column ''id'' Integer False,
           column ''username'' (String 50) False,
           column ''name'' (String 100) False]
          [(None, PrimaryKey [''id'']),
           (None, Unique [''username''])]],
     rv_downgrade =
       [DropTable ''users'']\<rparr>"

definition rev_9a3dcae42e8f :: revision where
  "rev_9a3dcae42e8f = \<lparr>rv_id = ''9a3dcae42e8f'', rv_down = [''992962f50b4a''],
     rv_upgrade =
       [AddColumn ''users'' (column ''telegram_id'' BigInteger False),
        AddColumn ''users'' (column ''admin'' Boolean False),
        AddColumn ''users'' (column ''is_active'' Boolean False),
        AddColumn ''users'' (column_with ''joined_at'' (DateTime True) False Now),
        AlterColumn ''users'' ''username'' None (Some True),
        CreateIndex ''ix_users_telegram_id'' ''users'' [''telegram_id''] True None],
     rv_downgrade =
       [DropIndex ''ix_users_telegram_id'',
        AlterColumn ''users'' ''username'' None (Some False),
        DropColumn ''users'' ''joined_at'',
        DropColumn ''users'' ''is_active'',
        DropColumn ''users'' ''admin'',
        DropColumn ''users'' ''telegram_id'']\<rparr>"

definition rev_46f8631fcb3f :: revision where
  "rev_46f8631fcb3f = \<lparr>rv_id = ''46f8631fcb3f'', rv_down = [''9a3dcae42e8f''],
     rv_upgrade =
       [CreateTable ''orders''
          [column ''id'' Integer False,
           column ''user_id'' Integer False,
           column ''status'' (Enum order_labels ''orderstatus'' True) False,
           column ''amount'' Integer False,
           column_with ''created_at'' (DateTime True) False Now]
          [(None, ForeignKey [''user_id''] ''users'' [''id''] None),
           (None, PrimaryKey [''id''])]],
     rv_downgrade =
       [DropTable ''orders'']\<rparr>"

definition rev_b574aa3538a0 :: revision where
  "rev_b574aa3538a0 = \<lparr>rv_id = ''b574aa3538a0'', rv_down = [''46f8631fcb3f''],
     rv_upgrade =
       [CreateIndex ''ix_orders_user_id'' ''orders'' [''user_id''] False None,
        AddColumn ''users'' (column ''hashed_password'' (String 255) True),
        AlterColumn ''users'' ''telegram_id'' None (Some True)],
     rv_downgrade =
       [DropIndex ''ix_users_username'',
        CreateConstraint (Some ''users_username_key'') ''users'' (Unique [''username'']),
        AlterColumn ''users'' ''telegram_id'' None (Some False),
        DropColumn ''users'' ''hashed_password'',
        DropIndex ''ix_orders_user_id'']\<rparr>"

definition rev_f381e93df3d5 :: revision where
  "rev_f381e93df3d5 = \<lparr>rv_id = ''f381e93df3d5'', rv_down = [''b574aa3538a0''],
     rv_upgrade =
       [CreateTable ''refresh_tokens''
          [column ''id'' Integer False,
           column ''user_id'' Integer False,
           column ''token_hash'' (String 64) False,
           column ''expires_at'' (DateTime True) False,
           column ''revoked_at'' (DateTime True) True,
           column_with ''created_at'' (DateTime True) False Now]
          [(None, ForeignKey [''user_id''] ''users'' [''id''] (Some ''CASCADE'')),
           (None, PrimaryKey [''id''])],
        CreateIndex ''ix_refresh_tokens_token_hash'' ''refresh_tokens'' [''token_hash''] True None,
        CreateIndex ''ix_refresh_tokens_user_id'' ''refresh_tokens'' [''user_id''] False None],
     rv_downgrade =
       [DropIndex ''ix_refresh_tokens_user_id'',
        DropIndex ''ix_refresh_tokens_token_hash'',
        DropTable ''refresh_tokens'']\<rparr>"

definition rev_fa6baf2dbacd :: revision where
  "rev_fa6baf2dbacd = \<lparr>rv_id = ''fa6baf2dbacd'', rv_down = [''f381e93df3d5''],
     rv_upgrade =
       [AddColumn ''refresh_tokens'' (column_with ''is_revoked'' Boolean False False_default),
        AddColumn ''refresh_tokens'' (column ''family_id'' UUID False),
        CreateIndex ''ix_refresh_tokens_family_id'' ''refresh_tokens'' [''family_id''] False None,
        DropColumn ''refresh_tokens'' ''revoked_at''],
     rv_downgrade =
       [AddColumn ''refresh_tokens'' (column ''revoked_at'' (DateTime True) True),
        DropIndex ''ix_refresh_tokens_family_id'',
        DropColumn ''refresh_tokens'' ''family_id'',
        DropColumn ''refresh_tokens'' ''is_revoked'']\<rparr>"

definition rev_35020614cb8c :: revision where
  "rev_35020614cb8c = \<lparr>rv_id = ''35020614cb8c'', rv_down = [''fa6baf2dbacd''],
     rv_upgrade =
       [CreateTable ''payment_intent''
          [column ''id'' Integer False,
           column ''order_id'' Integer False,
           column ''status'' (Enum order_labels ''orderstatus'' False) False,
           column ''base_amount'' Integer False,
           column ''exact_amount'' Integer False,
           column_with ''created_at'' (DateTime True) False Now,
           column ''expired_at'' (DateTime False) False]
          [(None, ForeignKey [''order_id''] ''orders'' [''id''] None),
           (None, PrimaryKey [''id'']),
           (None, Unique [''exact_amount''])],
        CreateIndex ''idx_pending_price'' ''payment_intent'' [''exact_amount''] True
          (Some (''status'', ''PENDING'')),
        CreateIndex ''ix_payment_intent_order_id'' ''payment_intent'' [''order_id''] False None],
     rv_downgrade =
       [DropIndex ''ix_payment_intent_order_id'',
        DropIndex ''idx_pending_price'',
        DropTable ''payment_intent'']\<rparr>"

definition rev_2bb11a17d8ff :: revision where
  "rev_2bb11a17d8ff = \<lparr>rv_id = ''2bb11a17d8ff'', rv_down = [''35020614cb8c''],
     rv_upgrade =
       [AlterColumn ''payment_intent'' ''expired_at'' (Some (DateTime True)) None],
     rv_downgrade =
       [AlterColumn ''payment_intent'' ''expired_at'' (Some (DateTime False)) None]\<rparr>"

text \<open>Two revisions revise 2bb11a17d8ff; 1afa510335c3 merges what follows them.\<close>

definition rev_e7b9bf2b2dec :: revision where
  "rev_e7b9bf2b2dec = \<lparr>rv_id = ''e7b9bf2b2dec'', rv_down = [''2bb11a17d8ff''],
     rv_upgrade =
       [AddColumn ''payment_intent'' (column_with ''expired_at_test'' (DateTime True) False Next_day),
        DropColumn ''payment_intent'' ''expired_at''],
     rv_downgrade =
       [AddColumn ''payment_intent'' (column ''expired_at'' (DateTime True) False),
        DropColumn ''payment_intent'' ''expired_at_test'']\<rparr>"

definition rev_df6730679827 :: revision where
  "rev_df6730679827 = \<lparr>rv_id = ''df6730679827'', rv_down = [''2bb11a17d8ff''],
     rv_upgrade = [],
     rv_downgrade =
       [AddColumn ''payment_intent'' (column ''expired_at'' (DateTime True) False),
        DropColumn ''payment_intent'' ''expired_at_test'']\<rparr>"

definition rev_409ca9bc0f2a :: revision where
  "rev_409ca9bc0f2a = \<lparr>rv_id = ''409ca9bc0f2a'', rv_down = [''df6730679827''],
     rv_upgrade =
       [AddColumn ''payment_intent'' (column_with ''expired_at'' (DateTime True) False Next_day),
        DropColumn ''payment_intent'' ''expired_at_test''],
     rv_downgrade =
       [AddColumn ''payment_intent'' (column_with ''expired_at_test'' (DateTime True) False Next_day),
        DropColumn ''payment_intent'' ''expired_at'']\<rparr>"

definition rev_1afa510335c3 :: revision where
  "rev_1afa510335c3 = \<lparr>rv_id = ''1afa510335c3'', rv_down = [''409ca9bc0f2a'', ''e7b9bf2b2dec''],
     rv_upgrade = [], rv_downgrade = []\<rparr>"

definition rev_8c191d5839c5 :: revision where
  "rev_8c191d5839c5 = \<lparr>rv_id = ''8c191d5839c5'', rv_down = [''1afa510335c3''],
     rv_upgrade =
       [AddColumn ''payment_intent'' (column_with ''expired_at'' (DateTime True) False Next_day),
        DropConstraint (Some ''payment_intent_exact_amount_key'') ''payment_intent'',
        DropColumn ''payment_intent'' ''expired_at_test''],
     rv_downgrade =
       [AddColumn ''payment_intent'' (column_with ''expired_at_test'' (DateTime True) False Next_day),
        CreateConstraint (Some ''payment_intent_exact_amount_key'') ''payment_intent'' (Unique [''exact_amount'']),
        DropColumn ''payment_intent'' ''expired_at'']\<rparr>"

definition rev_af232a3eb761 :: revision where
  "rev_af232a3eb761 = \<lparr>rv_id = ''af232a3eb761'', rv_down = [''8c191d5839c5''],
     rv_upgrade =
       [CreateTable ''sms_transactions''
          [column ''id'' Integer False,
           column ''sms_amount'' Integer False,
           column ''sms_inventory'' Integer False,
           column ''sms_date'' (DateTime False) False,
           column ''sms_time'' (DateTime False) False,
           column ''webhook_payload'' JSONB False]
          [(None, PrimaryKey [''id'']),
           (Some ''uq_sms_amount_inventory_date_time'',
            Unique [''sms_amount'', ''sms_inventory'', ''sms_date'', ''sms_time''])],
        DropConstraint (Some ''orders_user_id_fkey'') ''orders'',
        CreateConstraint None ''orders'' (ForeignKey [''user_id''] ''users'' [''id''] (Some ''CASCADE'')),
        DropConstraint (Some ''payment_intent_order_id_fkey'') ''payment_intent'',
        CreateConstraint None ''payment_intent''
          (ForeignKey [''order_id''] ''orders'' [''id''] (Some ''CASCADE''))],
     rv_downgrade =
       [DropConstraint None ''payment_intent'',
        CreateConstraint (Some ''payment_intent_order_id_fkey'') ''payment_intent''
          (ForeignKey [''order_id''] ''orders'' [''id''] None),
        DropConstraint None ''orders'',
        CreateConstraint (Some ''orders_user_id_fkey'') ''orders''
          (ForeignKey [''user_id''] ''users'' [''id''] None),
        DropTable ''sms_transactions'']\<rparr>"

definition rev_6027b808a41b :: revision where
  "rev_6027b808a41b = \<lparr>rv_id = ''6027b808a41b'', rv_down = [''af232a3eb761''],
     rv_upgrade =
       [AlterColumn ''sms_transactions'' ''sms_date'' (Some (String 10)) None,
        AlterColumn ''sms_transactions'' ''sms_time'' (Some (String 5)) None],
     rv_downgrade =
       [AlterColumn ''sms_transactions'' ''sms_time'' (Some (DateTime False)) None,
        AlterColumn ''sms_transactions'' ''sms_date'' (Some (DateTime False)) None]\<rparr>"

definition rev_2eb332f15e16 :: revision where
  "rev_2eb332f15e16 = \<lparr>rv_id = ''2eb332f15e16'', rv_down = [''6027b808a41b''],
     rv_upgrade =
       [CreateIndex ''ix_payment_intent_exact_amount'' ''payment_intent'' [''exact_amount''] False None,
        CreateIndex ''ix_payment_intent_status'' ''payment_intent'' [''status''] False None],
     rv_downgrade =
       [DropIndex ''ix_payment_intent_status'',
        DropIndex ''ix_payment_intent_exact_amount'']\<rparr>"

definition rev_211f54060a6c :: revision where
  "rev_211f54060a6c = \<lparr>rv_id = ''211f54060a6c'', rv_down = [''2eb332f15e16''],
     rv_upgrade =
       [CreateTable ''outbox_order_event''
          [column ''id'' Integer False,
           column ''status'' (Enum [''PENDING'', ''PUBLISHED'', ''FAILED''] ''eventstatus'' True) False,
           column ''data'' JSONB False,
           column_with ''created_at'' (DateTime True) False Now]
          [(None, PrimaryKey [''id''])]],
     rv_downgrade =
       [DropTable ''outbox_order_event'']\<rparr>"

definition rev_507067c160e6 :: revision where
  "rev_507067c160e6 = \<lparr>rv_id = ''507067c160e6'', rv_down = [''211f54060a6c''],
     rv_upgrade =
       [AddColumn ''outbox_order_event'' (column ''retry_count'' Integer True),
        AddColumn ''outbox_order_event'' (column ''last_error'' Text True)],
     rv_downgrade =
       [DropColumn ''outbox_order_event'' ''last_error'',
        DropColumn ''outbox_order_event'' ''retry_count'']\<rparr>"

definition rev_d4b4a0a36dc2 :: revision where
  "rev_d4b4a0a36dc2 = \<lparr>rv_id = ''d4b4a0a36dc2'', rv_down = [''507067c160e6''],
     rv_upgrade =
       [AddColumn ''outbox_order_event'' (column ''locked_at'' (DateTime True) True),
        AddEnumValue ''eventstatus'' ''PROCESSING''],
     rv_downgrade =
       [DropColumn ''outbox_order_event'' ''locked_at'']\<rparr>"

definition rev_36a4345a4de5 :: revision where
  "rev_36a4345a4de5 = \<lparr>rv_id = ''36a4345a4de5'', rv_down = [''d4b4a0a36dc2''],
     rv_upgrade =
       [AddColumn ''payment_intent'' (column ''sms_transaction_id'' Integer True),
        CreateIndex ''ix_payment_intent_sms_transaction_id'' ''payment_intent'' [''sms_transaction_id''] True None,
        CreateConstraint None ''payment_intent''
          (ForeignKey [''sms_transaction_id''] ''sms_transactions'' [''id''] (Some ''SET NULL''))],
     rv_downgrade =
       [DropConstraint None ''payment_intent'',
        DropIndex ''ix_payment_intent_sms_transaction_id'',
        DropColumn ''payment_intent'' ''sms_transaction_id'']\<rparr>"

definition versions :: "revision list" where
  "versions = [rev_992962f50b4a, rev_9a3dcae42e8f, rev_46f8631fcb3f, rev_b574aa3538a0,
     rev_f381e93df3d5, rev_fa6baf2dbacd, rev_35020614cb8c, rev_2bb11a17d8ff, rev_e7b9bf2b2dec,
     rev_df6730679827, rev_409ca9bc0f2a, rev_1afa510335c3, rev_8c191d5839c5, rev_af232a3eb761,
     rev_6027b808a41b, rev_2eb332f15e16, rev_211f54060a6c, rev_507067c160e6, rev_d4b4a0a36dc2,
     rev_36a4345a4de5]"

lemmas revision_defs = rev_992962f50b4a_def rev_9a3dcae42e8f_def rev_46f8631fcb3f_def
  rev_b574aa3538a0_def rev_f381e93df3d5_def rev_fa6baf2dbacd_def rev_35020614cb8c_def
  rev_2bb11a17d8ff_def rev_e7b9bf2b2dec_def rev_df6730679827_def rev_409ca9bc0f2a_def
  rev_1afa510335c3_def rev_8c191d5839c5_def rev_af232a3eb761_def rev_6027b808a41b_def
  rev_2eb332f15e16_def rev_211f54060a6c_def rev_507067c160e6_def rev_d4b4a0a36dc2_def
  rev_36a4345a4de5_def

subsection \<open>env.py\<close>

text \<open>A database: the revisions its version table knows to be applied, and its catalog. An upgrade
  is a plan of revisions, each of which Alembic has not applied yet and whose \<open>down_revision\<close>s it
  has; a downgrade undoes a revision no applied one revises.\<close>

type_synonym migrated = "string list \<times> catalog"

definition runnable :: "string list \<Rightarrow> revision \<Rightarrow> bool" where
  "runnable applied r \<longleftrightarrow> rv_id r \<notin> set applied \<and> set (rv_down r) \<subseteq> set applied"

fun upgrade_plan :: "string list \<Rightarrow> revision list \<Rightarrow> bool" where
  "upgrade_plan applied [] = True"
| "upgrade_plan applied (r # rs) = (r \<in> set versions \<and> runnable applied r \<and> upgrade_plan (applied @ [rv_id r]) rs)"

fun run_upgrades :: "revision list \<Rightarrow> migrated \<Rightarrow> ddl_error + migrated" where
  "run_upgrades [] s = Inr s"
| "run_upgrades (r # rs) (applied, c) =
     bind_ddl (exec (rv_upgrade r) c) (\<lambda>c'. run_upgrades rs (applied @ [rv_id r], c'))"

definition run_downgrade :: "revision \<Rightarrow> migrated \<Rightarrow> ddl_error + migrated" where
  "run_downgrade r s = (case s of (applied, c) \<Rightarrow>
     bind_ddl (exec (rv_downgrade r) c) (\<lambda>c'. Inr (removeAll (rv_id r) applied, c')))"

text \<open>
  \<open>do_run_migrations\<close>: all of it is one transaction. \<open>run_migrations_online\<close> runs it on one
  connection; \<open>run_migrations_offline\<close> writes the statements to a script instead, between BEGIN
  and COMMIT (alembic's own statements on its table of versions are left out). \<open>env\<close> is the choice at the end of the file; \<open>offline\<close> is \<open>context.is_offline_mode()\<close>.
\<close>

definition do_run_migrations :: "(migrated \<Rightarrow> ddl_error + migrated) \<Rightarrow> migrated \<Rightarrow> (ddl_error + unit) \<times> migrated" where
  "do_run_migrations run_migrations s = (case run_migrations s of
       Inl e \<Rightarrow> (Inl e, s)
     | Inr s' \<Rightarrow> (Inr (), s'))"

definition run_migrations_online :: "revision list \<Rightarrow> migrated \<Rightarrow> (ddl_error + unit) \<times> migrated" where
  "run_migrations_online plan = do_run_migrations (run_upgrades plan)"

datatype script_line = BEGIN | Statement ddl | COMMIT

definition run_migrations_offline :: "revision list \<Rightarrow> script_line list" where
  "run_migrations_offline plan = BEGIN # map Statement (concat (map rv_upgrade plan)) @ [COMMIT]"

definition env :: "bool \<Rightarrow> revision list \<Rightarrow> migrated \<Rightarrow> script_line list \<times> (ddl_error + unit) \<times> migrated" where
  "env offline plan s =
     (if offline then (run_migrations_offline plan, Inr (), s) else ([], run_migrations_online plan s))"

text \<open>Whoever runs the script of the offline mode: the statements up to COMMIT, or none of them.\<close>

fun statements :: "script_line list \<Rightarrow> ddl list" where
  "statements [] = []"
| "statements (Statement s # ls) = s # statements ls"
| "statements (_ # ls) = statements ls"

definition run_script :: "script_line list \<Rightarrow> catalog \<Rightarrow> (ddl_error + unit) \<times> catalog" where
  "run_script ls c = (case exec (statements ls) c of Inl e \<Rightarrow> (Inl e, c) | Inr c' \<Rightarrow> (Inr (), c'))"

lemma run_upgrades_exec: "run_upgrades plan (applied, c) =
    bind_ddl (exec (concat (map rv_upgrade plan)) c) (\<lambda>c'. Inr (applied @ map rv_id plan, c'))"
  by (induction plan arbitrary: applied c) (auto simp: bind_ddl_def exec_append split: sum.splits)

lemma statements_offline: "statements (run_migrations_offline plan) = concat (map rv_upgrade plan)"
proof -
  have "statements (map Statement xs @ [COMMIT]) = xs" for xs by (induction xs) auto
  then show ?thesis by (simp add: run_migrations_offline_def)
qed

text \<open>The script of the offline mode builds what the online mode builds, and fails as it does.\<close>

lemma offline_script_agrees:
  assumes "run_migrations_online plan (applied, c) = (r, (applied', c'))"
  shows "run_script (fst (env True plan (applied, c))) c = (r, c')"
  using assms
  by (auto simp: env_def run_script_def statements_offline run_migrations_online_def do_run_migrations_def
      run_upgrades_exec bind_ddl_def split: sum.splits)

end
