(* ===== verification/Migration_Safety.thy ===== *)
theory Migration_Safety
  imports Migrations
begin

text \<open>
  What the migrations do: no order of the revisions brings a database to the last one, because two
  of them add the column \<open>expired_at\<close> before and after the merge of the two branches; with revision
  409ca9bc0f2a stamped instead of run, every order builds the schema app/modules declares, but for
  the order of the labels of one enumeration; which downgrades undo their upgrade.
\<close>

subsection \<open>The schema the mapped classes declare\<close>

text \<open>What \<open>Base.metadata.create_all\<close> emits for each class: \<open>unique=True\<close> with \<open>index=True\<close> is a
  unique index, alone it is a constraint; an attribute without \<open>Optional\<close> is NOT NULL.\<close>

definition User_ddl :: "ddl list" where
  "User_ddl =
     [CreateTable ''users''
        [column ''id'' Integer False,
         column ''telegram_id'' BigInteger True,
         column ''username'' (String 50) True,
         column ''hashed_password'' (String 255) True,
         column ''name'' (String 100) False,
         column ''admin'' Boolean False,
         column ''is_active'' Boolean False,
         column_with ''joined_at'' (DateTime True) False Now]
        [(None, PrimaryKey [''id'']), (None, Unique [''username''])],
      CreateIndex ''ix_users_telegram_id'' ''users'' [''telegram_id''] True None]"

definition RefreshToken_ddl :: "ddl list" where
  "RefreshToken_ddl =
     [CreateTable ''refresh_tokens''
        [column ''id'' Integer False,
         column ''user_id'' Integer False,
         column ''token_hash'' (String 64) False,
         column ''expires_at'' (DateTime True) False,
         column_with ''is_revoked'' Boolean False False_default,
         column_with ''created_at'' (DateTime True) False Now,
         column ''family_id'' UUID False]
        [(None, PrimaryKey [''id'']),
         (None, ForeignKey [''user_id''] ''users'' [''id''] (Some ''CASCADE''))],
      CreateIndex ''ix_refresh_tokens_user_id'' ''refresh_tokens'' [''user_id''] False None,
      CreateIndex ''ix_refresh_tokens_token_hash'' ''refresh_tokens'' [''token_hash''] True None,
      CreateIndex ''ix_refresh_tokens_family_id'' ''refresh_tokens'' [''family_id''] False None]"

definition Order_ddl :: "ddl list" where
  "Order_ddl =
     [CreateTable ''orders''
        [column ''id'' Integer False,
         column ''user_id'' Integer False,
         column ''status'' (Enum order_labels ''orderstatus'' True) False,
         column ''amount'' Integer False,
         column_with ''created_at'' (DateTime True) False Now]
        [(None, PrimaryKey [''id'']),
         (None, ForeignKey [''user_id''] ''users'' [''id''] (Some ''CASCADE''))],
      CreateIndex ''ix_orders_user_id'' ''orders'' [''user_id''] False None]"

text \<open>The type \<open>orderstatus\<close> is shared with \<open>orders\<close>; \<open>create_all\<close> creates it once.\<close>

definition PaymentIntent_ddl :: "ddl list" where
  "PaymentIntent_ddl =
     [CreateTable ''payment_intent''
        [column ''id'' Integer False,
         column ''order_id'' Integer False,
         column ''status'' (Enum order_labels ''orderstatus'' False) False,
         column ''base_amount'' Integer False,
         column ''exact_amount'' Integer False,
         column_with ''created_at'' (DateTime True) False Now,
         column_with ''expired_at'' (DateTime True) False Next_day,
         column ''sms_transaction_id'' Integer True]
        [(None, PrimaryKey [''id'']),
         (None, ForeignKey [''order_id''] ''orders'' [''id''] (Some ''CASCADE'')),
         (None, ForeignKey [''sms_transaction_id''] ''sms_transactions'' [''id''] (Some ''SET NULL''))],
      CreateIndex ''ix_payment_intent_order_id'' ''payment_intent'' [''order_id''] False None,
      CreateIndex ''ix_payment_intent_status'' ''payment_intent'' [''status''] False None,
      CreateIndex ''ix_payment_intent_exact_amount'' ''payment_intent'' [''exact_amount''] False None,
      CreateIndex ''ix_payment_intent_sms_transaction_id'' ''payment_intent'' [''sms_transaction_id''] True None,
      CreateIndex ''idx_pending_price'' ''payment_intent'' [''exact_amount''] True
        (Some (''status'', ''PENDING''))]"

definition SMSTransaction_ddl :: "ddl list" where
  "SMSTransaction_ddl =
     [CreateTable ''sms_transactions''
        [column ''id'' Integer False,
         column ''sms_amount'' Integer False,
         column ''sms_inventory'' Integer False,
         column ''sms_date'' (String 10) False,
         column ''sms_time'' (String 5) False,
         column ''webhook_payload'' JSONB False]
        [(None, PrimaryKey [''id'']),
         (Some ''uq_sms_amount_inventory_date_time'',
          Unique [''sms_amount'', ''sms_inventory'', ''sms_date'', ''sms_time''])]]"

definition OutBoxOrderEvent_ddl :: "ddl list" where
  "OutBoxOrderEvent_ddl =
     [CreateTable ''outbox_order_event''
        [column ''id'' Integer False,
         column ''status'' (Enum [''PENDING'', ''PROCESSING'', ''PUBLISHED'', ''FAILED''] ''eventstatus'' True) False,
         column ''data'' JSONB False,
         column_with ''created_at'' (DateTime True) False Now,
         column ''retry_count'' Integer True,
         column ''locked_at'' (DateTime True) True,
         column ''last_error'' Text True]
        [(None, PrimaryKey [''id''])]]"

definition metadata :: "ddl list" where
  "metadata = User_ddl @ RefreshToken_ddl @ Order_ddl @ SMSTransaction_ddl @ PaymentIntent_ddl @
     OutBoxOrderEvent_ddl"

subsection \<open>All orders in which the revisions can run\<close>

text \<open>What each revision that can be tried on a database makes of it, and the databases after \<open>n\<close>
  revisions in any order.\<close>

definition outcomes :: "migrated \<Rightarrow> (ddl_error + migrated) list" where
  "outcomes s = map (\<lambda>r. bind_ddl (exec (rv_upgrade r) (snd s)) (\<lambda>c. Inr (fst s @ [rv_id r], c)))
     (filter (runnable (fst s)) versions)"

definition successes :: "('e + 'a) list \<Rightarrow> 'a list" where
  "successes = List.map_filter (\<lambda>r. case r of Inl _ \<Rightarrow> None | Inr x \<Rightarrow> Some x)"

fun level :: "nat \<Rightarrow> migrated list" where
  "level 0 = [([], empty_catalog)]"
| "level (Suc n) = successes (concat (map outcomes (level n)))"

lemma in_successes [simp]: "x \<in> set (successes rs) \<longleftrightarrow> Inr x \<in> set rs"
  by (force simp: successes_def map_filter_def split: sum.splits)

lemma outcome: "r \<in> set versions \<Longrightarrow> runnable a r \<Longrightarrow>
    bind_ddl (exec (rv_upgrade r) c) (\<lambda>c'. Inr (a @ [rv_id r], c')) \<in> set (outcomes (a, c))"
  by (force simp: outcomes_def)

lemma next_level: "r \<in> set versions \<Longrightarrow> runnable a r \<Longrightarrow> exec (rv_upgrade r) c = Inr c' \<Longrightarrow>
    (a, c) \<in> set (level n) \<Longrightarrow> (a @ [rv_id r], c') \<in> set (level (Suc n))"
  using outcome [of r a c] by (force simp: bind_ddl_def)

lemma run_upgrades_level:
  "upgrade_plan a rs \<Longrightarrow> (a, c) \<in> set (level n) \<Longrightarrow> run_upgrades rs (a, c) = Inr s \<Longrightarrow>
   s \<in> set (level (n + length rs)) \<and> fst s = a @ map rv_id rs"
proof (induction rs arbitrary: a c n)
  case (Cons r rs)
  then obtain c' where c': "exec (rv_upgrade r) c = Inr c'" "run_upgrades rs (a @ [rv_id r], c') = Inr s"
    by (auto simp: bind_ddl_Inr)
  have "(a @ [rv_id r], c') \<in> set (level (Suc n))"
    using next_level [OF _ _ c'(1)] Cons.prems by auto
  then show ?case
    using Cons.IH [of "a @ [rv_id r]" c' "Suc n"] Cons.prems(1) c'(2) by simp
qed auto

lemma run_upgrades_failure:
  "upgrade_plan a rs \<Longrightarrow> (a, c) \<in> set (level n) \<Longrightarrow> run_upgrades rs (a, c) = Inl e \<Longrightarrow>
   \<exists>m s. s \<in> set (level m) \<and> Inl e \<in> set (outcomes s)"
proof (induction rs arbitrary: a c n)
  case (Cons r rs)
  show ?case
  proof (cases "exec (rv_upgrade r) c")
    case (Inl e')
    then show ?thesis
      using Cons.prems outcome [of r a c] by (auto simp: bind_ddl_def)
  next
    case (Inr c')
    then have "(a @ [rv_id r], c') \<in> set (level (Suc n))"
      using next_level [OF _ _ Inr] Cons.prems by auto
    then show ?thesis
      using Cons.IH [of "a @ [rv_id r]" c' "Suc n"] Cons.prems Inr by (simp add: bind_ddl_def)
  qed
qed simp

text \<open>After twelve revisions no other can be applied, so there are finitely many levels: none has
  the revision after the merge, and what fails on the way fails on the column \<open>expired_at\<close>.\<close>

fun acceptable :: "ddl_error + migrated \<Rightarrow> bool" where
  "acceptable (Inl e) = (e = DuplicateColumn ''payment_intent'' ''expired_at'')"
| "acceptable (Inr s) = (''8c191d5839c5'' \<notin> set (fst s))"

fun explore :: "nat \<Rightarrow> migrated list \<Rightarrow> bool" where
  "explore 0 ss = (ss = [])"
| "explore (Suc n) ss = (let rs = concat (map outcomes ss) in
     list_all acceptable rs \<and> explore n (successes rs))"

lemma explore_start: "explore 13 (level 0)"
  by code_simp

lemma explore_level:
  "explore k (level n) \<Longrightarrow> s \<in> set (level (n + m)) \<Longrightarrow> r \<in> set (outcomes s) \<Longrightarrow> acceptable r"
proof (induction k arbitrary: n m)
  case 0
  then have "level n = []"
    by simp
  then have "level (n + m) = []"
    by (induction m) (simp_all add: successes_def map_filter_def)
  then show ?case
    using 0 by simp
next
  case (Suc k)
  show ?case
  proof (cases m)
    case 0
    then show ?thesis
      using Suc.prems by (auto simp: Let_def list_all_iff)
  next
    case (Suc l)
    then show ?thesis
      using Suc.IH [of "Suc n" l] Suc.prems by (simp add: Let_def)
  qed
qed

lemma outcomes_acceptable: "s \<in> set (level n) \<Longrightarrow> r \<in> set (outcomes s) \<Longrightarrow> acceptable r"
  using explore_level [OF explore_start, of s n r] by simp

lemma level_acceptable: "s \<in> set (level n) \<Longrightarrow> ''8c191d5839c5'' \<notin> set (fst s)"
  using outcomes_acceptable [of _ _ "Inr s"] by (cases n) auto

text \<open>
  C38. No order in which Alembic can run the revisions brings an empty database past the merge of
  the two branches: a plan that contains 8c191d5839c5, which every later revision revises, raises
  \<open>DuplicateColumn\<close> for \<open>payment_intent.expired_at\<close>, and the transaction leaves the database empty.
  Both 409ca9bc0f2a and 8c191d5839c5 add the column.
\<close>

theorem upgrade_never_passes_merge:
  assumes "upgrade_plan [] plan" and "rev_8c191d5839c5 \<in> set plan"
  shows "do_run_migrations (run_upgrades plan) ([], empty_catalog) =
    (Inl (DuplicateColumn ''payment_intent'' ''expired_at''), ([], empty_catalog))"
proof (cases "run_upgrades plan ([], empty_catalog)")
  case (Inl e)
  then obtain m s where "s \<in> set (level m)" "Inl e \<in> set (outcomes s)"
    using run_upgrades_failure [OF assms(1), of empty_catalog 0 e] by auto
  then have "acceptable (Inl e)"
    by (rule outcomes_acceptable)
  then show ?thesis
    by (simp add: do_run_migrations_def Inl)
next
  case (Inr s)
  then have s: "s \<in> set (level (length plan))" "fst s = map rv_id plan"
    using run_upgrades_level [OF assms(1), of empty_catalog 0 s] by auto
  have "''8c191d5839c5'' \<in> set (fst s)"
    using assms(2) by (force simp: s(2) rev_8c191d5839c5_def)
  then show ?thesis
    using level_acceptable [OF s(1)] by simp
qed

theorem upgrade_never_passes_merge_witness:
  "do_run_migrations (run_upgrades versions) ([], empty_catalog) =
    (Inl (DuplicateColumn ''payment_intent'' ''expired_at''), ([], empty_catalog))"
proof (rule upgrade_never_passes_merge)
  show "upgrade_plan [] versions"
    by code_simp
  show "rev_8c191d5839c5 \<in> set versions"
    by (simp add: versions_def)
qed

subsection \<open>What the revisions build when 409ca9bc0f2a is stamped\<close>

text \<open>\<open>alembic stamp\<close> records a revision in the version table without running it.\<close>

definition stamped :: "string list \<Rightarrow> revision \<Rightarrow> revision" where
  "stamped ids r = (if rv_id r \<in> set ids then r\<lparr>rv_upgrade := []\<rparr> else r)"

definition with_labels :: "string \<Rightarrow> string list \<Rightarrow> catalog \<Rightarrow> catalog" where
  "with_labels n ls c = c\<lparr>cat_types := map (\<lambda>(m, ks). (m, if m = n then ls else ks)) (cat_types c)\<rparr>"

text \<open>All orders of \<open>n\<close> revisions, by their identifiers, the last one first.\<close>

definition revises :: "(string \<times> string list) list" where
  "revises = map (\<lambda>r. (rv_id r, rv_down r)) versions"

definition ready :: "string list \<Rightarrow> string list" where
  "ready a = map fst (filter (\<lambda>(i, ds). i \<notin> set a \<and> list_all (\<lambda>d. d \<in> set a) ds) revises)"

fun orders :: "nat \<Rightarrow> string list list" where
  "orders 0 = [[]]"
| "orders (Suc n) = concat (map (\<lambda>a. map (\<lambda>i. i # a) (ready a)) (orders n))"

lemma ready_runnable: "r \<in> set versions \<Longrightarrow> runnable a r \<Longrightarrow> rv_id r \<in> set (ready (rev a))"
  by (force simp: ready_def revises_def runnable_def list_all_iff)

lemma plan_in_orders:
  "upgrade_plan a rs \<Longrightarrow> rev a \<in> set (orders n) \<Longrightarrow> rev (a @ map rv_id rs) \<in> set (orders (n + length rs))"
proof (induction rs arbitrary: a n)
  case (Cons r rs)
  then have "rev (a @ [rv_id r]) \<in> set (orders (Suc n))" using ready_runnable [of r a] by (force simp: image_iff)
  from Cons.IH [OF _ this] Cons.prems(1) show ?case by simp
qed simp

lemma plan_distinct: "upgrade_plan a rs \<Longrightarrow> distinct (map rv_id rs) \<and> set (map rv_id rs) \<inter> set a = {}"
  by (induction rs arbitrary: a) (fastforce simp: runnable_def)+

text \<open>
  There are three orders of all revisions. They differ in the place of e7b9bf2b2dec among the
  revisions of the other branch, which have no statements once 409ca9bc0f2a is stamped.
\<close>

definition silent :: "string list" where
  "silent = [''df6730679827'', ''409ca9bc0f2a'', ''1afa510335c3'']"

lemma revises_code: "revises =
    [(''992962f50b4a'', []),
     (''9a3dcae42e8f'', [''992962f50b4a'']),
     (''46f8631fcb3f'', [''9a3dcae42e8f'']),
     (''b574aa3538a0'', [''46f8631fcb3f'']),
     (''f381e93df3d5'', [''b574aa3538a0'']),
     (''fa6baf2dbacd'', [''f381e93df3d5'']),
     (''35020614cb8c'', [''fa6baf2dbacd'']),
     (''2bb11a17d8ff'', [''35020614cb8c'']),
     (''e7b9bf2b2dec'', [''2bb11a17d8ff'']),
     (''df6730679827'', [''2bb11a17d8ff'']),
     (''409ca9bc0f2a'', [''df6730679827'']),
     (''1afa510335c3'', [''409ca9bc0f2a'', ''e7b9bf2b2dec'']),
     (''8c191d5839c5'', [''1afa510335c3'']),
     (''af232a3eb761'', [''8c191d5839c5'']),
     (''6027b808a41b'', [''af232a3eb761'']),
     (''2eb332f15e16'', [''6027b808a41b'']),
     (''211f54060a6c'', [''2eb332f15e16'']),
     (''507067c160e6'', [''211f54060a6c'']),
     (''d4b4a0a36dc2'', [''507067c160e6'']),
     (''36a4345a4de5'', [''d4b4a0a36dc2''])]"
  by code_simp

lemma orders_code: "list_all (\<lambda>a. filter (\<lambda>i. i \<notin> set silent) a =
    filter (\<lambda>i. i \<notin> set silent) (rev (map fst revises))) (orders 20)"
  unfolding ready_def revises_code by code_simp

definition script_of :: "string \<Rightarrow> ddl list" where
  "script_of i = (case find (\<lambda>r. rv_id r = i) versions of
     None \<Rightarrow> [] | Some r \<Rightarrow> rv_upgrade (stamped [''409ca9bc0f2a''] r))"

lemma script_of_versions: "list_all (\<lambda>r. script_of (rv_id r) = rv_upgrade (stamped [''409ca9bc0f2a''] r)) versions"
  by code_simp

lemma script_of_silent: "list_all (\<lambda>i. script_of i = []) silent"
  by code_simp

lemma versions_distinct: "distinct versions"
proof -
  have "distinct (map rv_id versions)" by code_simp
  then show ?thesis by (simp add: distinct_map)
qed

lemma versions_number: "length versions = 20"
  by (simp add: versions_def)

lemma stamped_id [simp]: "rv_id (stamped ids r) = rv_id r"
  by (simp add: stamped_def)

lemma concat_spoken: "concat (map script_of is) = concat (map script_of (filter (\<lambda>i. i \<notin> set silent) is))"
  using script_of_silent by (induction "is") (auto simp: list_all_iff)

definition stamped_script :: "ddl list" where
  "stamped_script = concat (map (\<lambda>r. rv_upgrade (stamped [''409ca9bc0f2a''] r)) versions)"

lemma plan_script:
  assumes "upgrade_plan [] plan" and "set plan = set versions"
  shows "concat (map (\<lambda>r. rv_upgrade (stamped [''409ca9bc0f2a''] r)) plan) = stamped_script"
proof -
  have scripts: "concat (map (\<lambda>r. rv_upgrade (stamped [''409ca9bc0f2a''] r)) rs) = concat (map script_of (map rv_id rs))"
    if "set rs = set versions" for rs
    using script_of_versions that by (simp add: list_all_iff comp_def) (metis (mono_tags, lifting) map_eq_conv)
  have "distinct (map rv_id plan)" "distinct versions"
    using plan_distinct [OF assms(1)] by (simp_all add: versions_distinct)
  then have "length plan = 20"
    using assms(2) versions_number by (metis distinct_card distinct_map)
  with plan_in_orders [OF assms(1), of 0] orders_code
  have "filter (\<lambda>i. i \<notin> set silent) (rev (map rv_id plan)) = filter (\<lambda>i. i \<notin> set silent) (rev (map fst revises))"
    by (simp add: list_all_iff)
  moreover have "map fst revises = map rv_id versions" by (simp add: revises_def comp_def)
  ultimately have "filter (\<lambda>i. i \<notin> set silent) (map rv_id plan) = filter (\<lambda>i. i \<notin> set silent) (map rv_id versions)"
    by (metis rev_filter rev_rev_ident)
  then show ?thesis
    unfolding stamped_script_def scripts [OF assms(2)] scripts [OF refl] by (metis concat_spoken)
qed

abbreviation declared_labels :: "string list" where
  "declared_labels \<equiv> [''PENDING'', ''PROCESSING'', ''PUBLISHED'', ''FAILED'']"

abbreviation built_labels :: "string list" where
  "built_labels \<equiv> [''PENDING'', ''PUBLISHED'', ''FAILED'', ''PROCESSING'']"

definition builds :: "ddl_error + catalog \<Rightarrow> ddl_error + catalog \<Rightarrow> bool" where
  "builds r s = (case (r, s) of
      (Inr c, Inr d) \<Rightarrow> map_of (cat_types d) ''eventstatus'' = Some declared_labels \<and>
        same_schema (with_labels ''eventstatus'' built_labels d) c
    | _ \<Rightarrow> False)"

lemma versions_build: "builds (exec stamped_script empty_catalog) (exec metadata empty_catalog)"
  by code_simp

text \<open>
  C39. With 409ca9bc0f2a stamped instead of run, every order in which Alembic can run all revisions
  succeeds and builds the schema that the mapped classes of app/modules declare: the same tables,
  columns with types, NULL and defaults, constraints, indexes and enumerations with their labels
  in order, but for one: the migrations put the label PROCESSING of \<open>eventstatus\<close> last, where
  the class \<open>EventStatus\<close> declares it second.
\<close>

theorem migrations_build_declared_schema:
  assumes "upgrade_plan [] plan" and "set plan = set versions"
  shows "\<exists>c d. do_run_migrations (run_upgrades (map (stamped [''409ca9bc0f2a'']) plan)) ([], empty_catalog) =
      (Inr (), (map rv_id plan, c)) \<and> exec metadata empty_catalog = Inr d \<and>
    map_of (cat_types d) ''eventstatus'' = Some [''PENDING'', ''PROCESSING'', ''PUBLISHED'', ''FAILED''] \<and>
    same_schema (with_labels ''eventstatus'' [''PENDING'', ''PUBLISHED'', ''FAILED'', ''PROCESSING''] d) c"
  using versions_build
  by (auto simp: builds_def do_run_migrations_def run_upgrades_exec comp_def plan_script [OF assms]
      bind_ddl_def split: sum.splits)

theorem migrations_build_declared_schema_witness:
  "\<exists>c d. do_run_migrations (run_upgrades (map (stamped [''409ca9bc0f2a'']) versions)) ([], empty_catalog) =
      (Inr (), (map rv_id versions, c)) \<and> exec metadata empty_catalog = Inr d \<and>
    same_schema (with_labels ''eventstatus'' built_labels d) c"
proof -
  have "upgrade_plan [] versions" by code_simp
  from migrations_build_declared_schema [OF this refl] show ?thesis by blast
qed

subsection \<open>Downgrades\<close>

text \<open>The downgrade of a revision from \<open>s'\<close>, where its upgrade led from \<open>s\<close>: an error, or whether
  the schema is what it was; and that for each revision of a plan.\<close>

definition undone :: "revision \<Rightarrow> migrated \<Rightarrow> migrated \<Rightarrow> ddl_error + bool" where
  "undone r s s' = bind_ddl (run_downgrade r s') (\<lambda>s''. Inr (fst s'' = fst s \<and> same_schema (snd s'') (snd s)))"

fun undo_each :: "revision list \<Rightarrow> migrated \<Rightarrow> (string \<times> (ddl_error + bool)) list" where
  "undo_each [] s = []"
| "undo_each (r # rs) s = (case run_upgrades [r] s of
      Inl _ \<Rightarrow> [] | Inr s' \<Rightarrow> (rv_id r, undone r s s') # undo_each rs s')"

text \<open>
  With 409ca9bc0f2a stamped, eleven downgrades undo their upgrade. Of the other nine,
  46f8631fcb3f and 211f54060a6c leave an enumeration type behind, d4b4a0a36dc2 a label,
  df6730679827 undoes another revision, and five raise. The last revision is one of these, so no
  database that has it can be downgraded at all.
\<close>

lemma downgrades_that_undo:
  "undo_each (map (stamped [''409ca9bc0f2a'']) versions) ([], empty_catalog) =
     [(''992962f50b4a'', Inr True), (''9a3dcae42e8f'', Inr True),
      (''46f8631fcb3f'', Inr False),
      (''b574aa3538a0'', Inl (UndefinedObject ''ix_users_username'')),
      (''f381e93df3d5'', Inr True), (''fa6baf2dbacd'', Inr True),
      (''35020614cb8c'', Inr True), (''2bb11a17d8ff'', Inr True),
      (''e7b9bf2b2dec'', Inr True),
      (''df6730679827'', Inr False),
      (''409ca9bc0f2a'', Inl (DuplicateColumn ''payment_intent'' ''expired_at_test'')),
      (''1afa510335c3'', Inr True), (''8c191d5839c5'', Inr True),
      (''af232a3eb761'', Inl NamelessConstraint),
      (''6027b808a41b'', Inl (CannotCoerce ''sms_transactions'' ''sms_time'')),
      (''2eb332f15e16'', Inr True),
      (''211f54060a6c'', Inr False),
      (''507067c160e6'', Inr True),
      (''d4b4a0a36dc2'', Inr False),
      (''36a4345a4de5'', Inl NamelessConstraint)] \<and>
   do_run_migrations (run_downgrade rev_36a4345a4de5) s = (Inl NamelessConstraint, s)"
proof
  show "do_run_migrations (run_downgrade rev_36a4345a4de5) s = (Inl NamelessConstraint, s)"
    by (cases s) (simp add: do_run_migrations_def run_downgrade_def rev_36a4345a4de5_def
        drop_constraint_def bind_ddl_def)
qed code_simp

end
