(* ===== verification/Spec2Isabelle.thy ===== *)
theory Spec2Isabelle
  imports Deposit_Progress Responses Application Outbox_Liveness Migration_Safety
begin

text \<open>
  A verification library for the payment reconciliation service under src/app and its migrations
  under src/alembic.

  \<^bold>\<open>The program.\<close> A user orders something for an amount. \<open>create_order_service\<close> reserves an exact
  amount near it that no other PENDING payment intent has, from a pool in three Redis sets or, when
  Redis is down, from a window in PostgreSQL, and inserts the order with its intent. When the bank
  tells about a deposit in an SMS, the webhook parses it and commits the SMS row together with an
  outbox event. Every minute the relay claims free events and publishes them on a Redis stream; the
  worker reads the stream in a consumer group and settles the PENDING intent with the exact amount:
  the intent gets the SMS and becomes PAID with its order, and the amount goes back to the pool.
  What the worker cannot handle ends, after three attempts, in a dead letter stream that
  administrators can read and replay; they can also confirm a payment by hand. Users register and
  log in for an access token and a refresh token that is rotated at every use.

  \<^bold>\<open>How code is modelled.\<close> A function of the program is a HOL function of the same name. One that
  awaits, raises or changes state is a function from a \<open>world\<close> to a result and a new world; a
  result is \<open>Inl\<close> of the raised exception or \<open>Inr\<close> of the value (Prelude). \<open>try_io\<close> is
  \<open>try ... except\<close>, and a clause asks \<open>catches\<close> for the class of the exception (Exceptions). A
  world has the committed database, the view of the session, and the Redis server (World). A
  statement goes through \<open>flush\<close>, which refuses what the columns and the constraints refuse
  (Models). The record of an environment (\<open>attempt\<close>, \<open>race\<close>, \<open>tx_env\<close>, \<open>relay_env\<close>, \<open>user_env\<close>,
  \<open>auth_env\<close>, \<open>batch_env\<close>) holds what a run cannot decide: the clock, drawn keys, the exceptions
  of statements, and the effect of the transactions that other sessions commit between two
  statements, a function on the database. All definitions are executable.

  \<^bold>\<open>Theories and sources.\<close>
  \<^item> Prelude: effects, invariants (\<open>keeps\<close>, \<open>triple\<close>) and their introduction rules, \<open>str\<close> and
    \<open>int\<close>, query results, row updates with the locale \<open>keyed_update\<close>.
  \<^item> Exceptions: core/exceptions.py, modules/order/exceptions.py with its misspelled copy,
    modules/users/exceptions.py.
  \<^item> Json, Json_Roundtrip: \<open>json.dumps\<close> and \<open>json.loads\<close>, and that one reads the other.
  \<^item> Models: modules/order/models.py and modules/users/models.py; World: db/database.py.
  \<^item> Redis_Sets, Redis_Streams, Redis_Keys: the commands of Redis, with locales that state their
    documented laws and an executable server that satisfies them; Redis_Keys also has the grace
    period of db/redis_db.py. Live_Redis extends them by the messages a group has not read yet.
  \<^item> Amounts, Orders, Payments: modules/order/service.py, modules/order/handlers.py, the endpoints of
    modules/order/router.py, and the confirmation of modules/admin. Order_Creation,
    Payment_Settlement and Payment_Progress prove what they guarantee.
  \<^item> Message_Queue: modules/order/queue_manager.py; Queue_Delivery: what it delivers.
  \<^item> Outbox: modules/order/tasks.py; Outbox_Relay, Outbox_Liveness: its guarantees.
  \<^item> Worker: worker.py; Worker_Safety, Worker_Payments, Worker_Retries: its guarantees.
  \<^item> Dead_Letters: modules/admin/dlq_manager.py with its endpoints, and their guarantees.
  \<^item> Sms_Parser, Sms_Roundtrip: the regular expression of \<open>parse_sms_transaction\<close> with its
    backtracking, and its language; Transactions, Transaction_Safety: the webhook.
  \<^item> Startup, Startup_Safety: \<open>lifespan\<close> of main.py, \<open>AmountSeeder\<close> of db/redis_db.py, keyset
    pagination, the page of pending orders of modules/admin.
  \<^item> Tokens, Users, Sessions: modules/users/security.py, schema.py, service.py and router.py;
    Session_Safety, Accounts: their guarantees.
  \<^item> Reconciliation: all operations on one database, in any order; Deposit_Progress: one deposit on
    its way through the webhook, the relay and the worker.
  \<^item> Responses: the response schemas of modules/order, modules/users and modules/admin, and the
    endpoints with what they answer.
  \<^item> Application: core/config.py, scheduler.py, the connection tests of db/database.py and
    db/redis_db.py, and the routes that main.py puts together from the routers.
  \<^item> Schema, Migrations: alembic/versions and alembic/env.py; Migration_Safety: what they build.
  \<^item> Samples, Outbox_Samples: the concrete users, worlds and runs of the witnesses.

  \<^bold>\<open>What is shown.\<close>
  \<^item> The whole service: the books stay balanced in every reachable database
    (\<open>books_stay_balanced\<close>); its witness runs a day of the service from the registration to the
    order that the worker settled. And a deposit reaches its order: while nothing fails, webhook,
    relay and worker together make the intent PAID (\<open>deposit_reaches_its_order\<close>).
  \<^item> Clients: every URL reaches its endpoint, and the answer to a creation is the order that the list
    shows.
  \<^item> Orders: created orders are PENDING with a unique exact amount, one transaction each, and the
    fresh pool of a start gets the amount back after a failure.
  \<^item> Payments: a due payment is made, one SMS pays one order, redelivery and concurrent workers do
    no harm, a failure leaves nothing behind.
  \<^item> Webhook, relay, queue, worker, dead letters: an SMS and its event are committed together; claimed
    events follow their state machine, repeated runs settle a hundred each, and an outage ends in
    FAILED after five attempts; what is enqueued is what is read; a message is lost only when the stream is trimmed;
    attempts count deliveries and decide; a replay moves the letter with the given id, and
    the pages of dead letters are complete.
  \<^item> Start: the pool is rebuilt from the database.
  \<^item> Sessions: refresh tokens rotate, a reused one revokes its family, a retry gets the same answer.
  \<^item> Migrations: no order of the revisions reaches the last one; with 409ca9bc0f2a stamped instead of
    run, every order builds the declared schema but for the order of the labels of one enumeration;
    which downgrades undo their upgrade.

  \<^bold>\<open>Assumptions.\<close> Redis is any server with the laws of the locales; where a theorem needs it to
  accept commands it says so with \<open>reliable_set_server\<close> or \<open>reliable_stream_server\<close>. A failed
  command may or may not have had its effect. A commit that raises has not committed: a connection
  lost while PostgreSQL answers the commit is not modelled. A value that a column refuses raises
  \<open>DBAPIError\<close>, as SQLAlchemy does over asyncpg. The driver's binding of a Python value to an
  INTEGER parameter, the reading of a float literal, PyJWT, passlib, and SQLAlchemy's unit of work
  for a deletion are arguments of the definitions; hypotheses state their documented behaviour.
  Other sessions are arbitrary functions on the database; theorems ask of them that they keep the
  schema, respect row locks, keep the rows a relay has claimed (\<open>keeps_claims\<close>, and
  \<open>late_outcome_overwrites\<close> shows what happens otherwise), or keep the books, which
  \<open>books_stay_balanced\<close> shows of every operation. Theorems on progress ask for more, and say
  so: no other session and no failing statement while they run. Statements see what was committed before them (READ COMMITTED), and timestamps are
  whole seconds.

  \<^bold>\<open>Bounds and fuel.\<close> \<open>scan_once\<close> of \<open>json.loads\<close> has fuel for twice the length of the text and one,
  and each of its calls reads a character; \<open>loads\<close> reads back every \<open>dumps\<close> without a further
  bound. \<open>relay_rounds\<close> has one element for each run of the relay, and the theorems say how many
  suffice for a given number of events. \<open>follow_pages\<close> has one unit for each dead letter and one, and the theorem shows that it
  ends with it. The retry loop of \<open>create_order_service\<close>, the keyset pagination and the matcher of the
  SMS pattern are total. The worker's endless loop is a list with one element for each iteration.
  Integer columns are \<open>int4\<close> and \<open>int8\<close>, strings have the lengths of their columns, \<open>int\<close> refuses
  more than 4300 digits, and digits and white space are those of Unicode 15.1.

  \<^bold>\<open>Not modelled.\<close> The logger (core/logger.py) and the log lines; the creation of the engine and of
  the Redis clients from the settings; the timing of APScheduler, of which only the job is modelled;
  of FastAPI the pages of its documentation, the redirection of trailing slashes and the rendering
  of an answer that its schema accepts; \<open>stop\<close> and the cancellation in \<open>main\<close> of worker.py, which only
  end the list of iterations, and the shutdown in \<open>lifespan\<close>. Migrations act on catalogs without rows.
\<close>

end
